(* ===== verification/Prelude.thy ===== *)
theory Prelude
  imports Main "HOL-Library.Word" "HOL-Library.Monad_Syntax" "HOL-Library.Code_Target_Nat"
begin

text \<open>
  Shared vocabulary of the development: results (\<open>'e + 'a\<close>, the error on the left), actions
  on a state, which may panic, the \<open>?\<close> operator of the source as \<open>attempt\<close>, and the framing
  calculus that carries "this operation does not panic and only changes the state in that way"
  through every handler.
\<close>

named_theorems run_simps \<open>equations that execute an action on a state\<close>
named_theorems frame_intros \<open>rules that frame a composed action from its parts\<close>

section \<open>Actions\<close>

text \<open>
  An action either panics (\<open>None\<close>) or answers with the new state. A fallible operation of the
  source answers with a sum: \<open>ok\<close> and \<open>raise\<close> are its two ways to return, \<open>attempt\<close> is \<open>?\<close>,
  and \<open>expect\<close> is \<open>Option::expect\<close>.
\<close>

type_synonym ('s, 'a) act = "'s \<Rightarrow> ('a \<times> 's) option"

definition ret :: "'a \<Rightarrow> ('s, 'a) act" where
  "ret x = (\<lambda>s. Some (x, s))"

definition panic :: "('s, 'a) act" where
  "panic = (\<lambda>s. None)"

definition seq :: "('s, 'a) act \<Rightarrow> ('a \<Rightarrow> ('s, 'b) act) \<Rightarrow> ('s, 'b) act" where
  "seq m k = (\<lambda>s. case m s of None \<Rightarrow> None | Some (x, t) \<Rightarrow> k x t)"

definition ok :: "'a \<Rightarrow> ('s, 'e + 'a) act" where
  "ok x = ret (Inr x)"

definition raise :: "'e \<Rightarrow> ('s, 'e + 'a) act" where
  "raise e = ret (Inl e)"

definition attempt ::
  "('s, 'e + 'a) act \<Rightarrow> ('a \<Rightarrow> ('s, 'e + 'b) act) \<Rightarrow> ('s, 'e + 'b) act" where
  "attempt m k = seq m (\<lambda>r. case r of Inl e \<Rightarrow> raise e | Inr x \<Rightarrow> k x)"

definition gets :: "('s \<Rightarrow> 'a) \<Rightarrow> ('s, 'a) act" where
  "gets f = (\<lambda>s. Some (f s, s))"

definition update :: "('s \<Rightarrow> 's) \<Rightarrow> ('s, unit) act" where
  "update f = (\<lambda>s. Some ((), f s))"

definition expect :: "'a option \<Rightarrow> ('s, 'a) act" where
  "expect v = (case v of None \<Rightarrow> panic | Some x \<Rightarrow> ret x)"

text \<open>\<open>map_err\<close> is the combinator of the source's \<open>Result\<close>.\<close>

definition map_err :: "('e \<Rightarrow> 'f) \<Rightarrow> 'e + 'a \<Rightarrow> 'f + 'a" where
  "map_err f r = (case r of Inl e \<Rightarrow> Inl (f e) | Inr x \<Rightarrow> Inr x)"

lemma run_primitive [simp, run_simps]:
  "ret x s = Some (x, s)" "panic s = None" "gets f s = Some (f s, s)" "update g s = Some ((), g s)"
  "expect None s = None" "expect (Some x) s = Some (x, s)"
  by (simp_all add: ret_def panic_def gets_def update_def expect_def)

lemma run_result [simp, run_simps]:
  "ok x s = Some (Inr x, s)" "raise e s = Some (Inl e, s)"
  by (simp_all add: ok_def raise_def)

lemma run_seq [run_simps]:
  "seq m k s = (case m s of None \<Rightarrow> None | Some (x, t) \<Rightarrow> k x t)"
  by (simp add: seq_def)

lemma run_attempt [run_simps]:
  "attempt m k s =
     (case m s of None \<Rightarrow> None | Some (Inl e, t) \<Rightarrow> Some (Inl e, t) | Some (Inr x, t) \<Rightarrow> k x t)"
  by (auto simp: attempt_def seq_def split: option.splits sum.splits)

lemma seq_Some: "m s = Some (x, t) \<Longrightarrow> seq m k s = k x t"
  by (simp add: seq_def)

lemma attempt_Inr: "m s = Some (Inr x, t) \<Longrightarrow> attempt m k s = k x t"
  by (simp add: run_attempt)

lemma attempt_Inl: "m s = Some (Inl e, t) \<Longrightarrow> attempt m k s = Some (Inl e, t)"
  by (simp add: run_attempt)

lemma seq_ret [simp]: "seq (ret x) k = k x"
  by (simp add: fun_eq_iff seq_def)

lemma attempt_ret [simp]:
  "attempt (ret (Inr x)) k = k x" "attempt (ret (Inl e)) k = raise e"
  by (simp_all add: fun_eq_iff run_attempt)

lemma seq_update [simp]: "seq (update g) k s = k () (g s)"
  by (simp add: seq_def)

lemma seq_gets [simp]: "seq (gets f) k s = k (f s) s"
  by (simp add: seq_def)

lemma seq_SomeE:
  assumes "seq m k s = Some (y, u)"
  obtains x t where "m s = Some (x, t)" "k x t = Some (y, u)"
  using assms by (auto simp: seq_def split: option.splits)

lemma attempt_SomeE:
  assumes "attempt m k s = Some (y, u)"
  obtains (err) e where "m s = Some (Inl e, u)" "y = Inl e"
  | (val) x t where "m s = Some (Inr x, t)" "k x t = Some (y, u)"
  using assms by (auto simp: run_attempt split: option.splits sum.splits)

lemma seq_cong_run: "(\<And>x t. m s = Some (x, t) \<Longrightarrow> k x t = l x t) \<Longrightarrow> seq m k s = seq m l s"
  by (simp add: seq_def split: option.splits)

lemma attempt_cong_run: "(\<And>x t. m s = Some (Inr x, t) \<Longrightarrow> k x t = l x t) \<Longrightarrow> attempt m k s = attempt m l s"
  by (simp add: run_attempt split: option.splits sum.splits)

lemma seq_assoc: "seq (seq m k) l = seq m (\<lambda>x. seq (k x) l)"
  by (simp add: fun_eq_iff seq_def split: option.splits)

lemma attempt_seq: "attempt (seq m k) l = seq m (\<lambda>x. attempt (k x) l)"
  by (simp add: fun_eq_iff seq_def run_attempt split: option.splits)

lemma attempt_assoc: "attempt (attempt m k) l = attempt m (\<lambda>x. attempt (k x) l)"
  by (simp add: fun_eq_iff run_attempt split: option.splits sum.splits)

lemma seq_attempt:
  "seq (attempt m k) l = seq m (\<lambda>r. case r of Inl e \<Rightarrow> l (Inl e) | Inr x \<Rightarrow> seq (k x) l)"
  by (simp add: fun_eq_iff run_attempt run_seq split: option.splits sum.splits)

lemma map_err_simps [simp]:
  "map_err f (Inl e) = Inl (f e)"
  "map_err f (Inr x) = Inr x"
  by (simp_all add: map_err_def)

lemma map_err_Inr_iff [simp]: "map_err f r = Inr x \<longleftrightarrow> r = Inr x"
  by (cases r) simp_all

lemma map_err_Inl_iff: "map_err f r = Inl e \<longleftrightarrow> (\<exists>d. r = Inl d \<and> e = f d)"
  by (cases r) auto

section \<open>Framing\<close>

text \<open>
  A frame is an invariant \<open>I\<close> and a preorder \<open>R\<close> that keeps it. An action meets a postcondition
  in a frame when, from every state with the invariant, it returns (it does not panic), moves
  along the preorder and answers as the postcondition says. Returning, sequencing and
  branching respect every frame, so a handler is framed by framing its primitive actions.
\<close>

locale frame =
  fixes I :: "'s \<Rightarrow> bool" and R :: "'s \<Rightarrow> 's \<Rightarrow> bool"
  assumes frame_refl: "I s \<Longrightarrow> R s s"
    and frame_keeps: "I s \<Longrightarrow> R s t \<Longrightarrow> I t"
    and frame_trans: "I s \<Longrightarrow> R s t \<Longrightarrow> R t u \<Longrightarrow> R s u"
begin

definition meets :: "('s, 'a) act \<Rightarrow> ('a \<Rightarrow> bool) \<Rightarrow> bool" where
  "meets m Q \<longleftrightarrow> (\<forall>s. I s \<longrightarrow> (\<exists>x t. m s = Some (x, t) \<and> R s t \<and> Q x))"

definition framed :: "('s, 'a) act \<Rightarrow> bool" where
  "framed m \<longleftrightarrow> meets m (\<lambda>_. True)"

lemma meetsI: "(\<And>s. I s \<Longrightarrow> \<exists>x t. m s = Some (x, t) \<and> R s t \<and> Q x) \<Longrightarrow> meets m Q"
  by (simp add: meets_def)

lemma meetsE:
  assumes "meets m Q" "I s"
  obtains x t where "m s = Some (x, t)" "R s t" "I t" "Q x"
  using assms frame_keeps unfolding meets_def by blast

lemma meetsD: "meets m Q \<Longrightarrow> I s \<Longrightarrow> m s = Some (x, t) \<Longrightarrow> R s t \<and> I t \<and> Q x"
  by (metis meetsE option.inject prod.inject)

lemma meets_weaken: "meets m P \<Longrightarrow> (\<And>x. P x \<Longrightarrow> Q x) \<Longrightarrow> meets m Q"
  unfolding meets_def by blast

lemma framedI: "(\<And>s. I s \<Longrightarrow> \<exists>x t. m s = Some (x, t) \<and> R s t) \<Longrightarrow> framed m"
  by (simp add: framed_def meets_def)

lemma framedE:
  assumes "framed m" "I s"
  obtains x t where "m s = Some (x, t)" "R s t" "I t"
  using assms unfolding framed_def by (rule meetsE)

lemma framedD: "framed m \<Longrightarrow> I s \<Longrightarrow> m s = Some (x, t) \<Longrightarrow> R s t \<and> I t"
  using meetsD [of m "\<lambda>_. True"] by (simp add: framed_def)

lemma framed_meets: "framed m \<Longrightarrow> meets m (\<lambda>_. True)"
  by (simp add: framed_def)

lemma meets_framed: "meets m Q \<Longrightarrow> framed m"
  unfolding framed_def by (erule meets_weaken) simp

lemma meets_ret: "Q x \<Longrightarrow> meets (ret x) Q"
  by (simp add: meets_def frame_refl)

lemma meets_value: "Q x \<Longrightarrow> meets (\<lambda>s. Some (x, s)) Q"
  by (simp add: meets_def frame_refl)

lemma meets_gets: "(\<And>s. I s \<Longrightarrow> Q (f s)) \<Longrightarrow> meets (gets f) Q"
  by (simp add: meets_def frame_refl)

lemma meets_seq:
  assumes "meets m P" "\<And>x. P x \<Longrightarrow> meets (k x) Q"
  shows "meets (seq m k) Q"
proof (rule meetsI)
  fix s assume "I s"
  then obtain x t where m: "m s = Some (x, t)" "R s t" "I t" "P x" by (rule meetsE [OF assms(1)])
  then obtain y u where "k x t = Some (y, u)" "R t u" "Q y" using meetsE [OF assms(2)] by metis
  with m \<open>I s\<close> show "\<exists>y u. seq m k s = Some (y, u) \<and> R s u \<and> Q y"
    by (auto simp: seq_def intro: frame_trans)
qed

lemma framed_return [frame_intros]:
  "framed (ret x)" "framed (ok y)" "framed (raise e)" "framed (gets f)"
  by (simp_all add: framed_def ok_def raise_def meets_ret meets_gets)

lemma framed_update: "(\<And>s. I s \<Longrightarrow> R s (f s)) \<Longrightarrow> framed (update f)"
  by (simp add: framed_def meets_def)

lemma framed_seq [frame_intros]: "framed m \<Longrightarrow> (\<And>x. framed (k x)) \<Longrightarrow> framed (seq m k)"
  unfolding framed_def by (rule meets_seq)

lemma framed_attempt [frame_intros]:
  "framed m \<Longrightarrow> (\<And>x. framed (k x)) \<Longrightarrow> framed (attempt m k)"
  unfolding attempt_def by (auto intro!: framed_seq framed_return split: sum.splits)

lemma framed_if [frame_intros]: "framed m \<Longrightarrow> framed n \<Longrightarrow> framed (if b then m else n)"
  by simp

lemma framed_case_sum [frame_intros]:
  "(\<And>e. framed (f e)) \<Longrightarrow> (\<And>x. framed (g x)) \<Longrightarrow> framed (case r of Inl e \<Rightarrow> f e | Inr x \<Rightarrow> g x)"
  by (cases r) simp_all

lemma framed_case_option [frame_intros]:
  "framed n \<Longrightarrow> (\<And>x. framed (g x)) \<Longrightarrow> framed (case v of None \<Rightarrow> n | Some x \<Rightarrow> g x)"
  by (cases v) simp_all

lemma framed_case_prod [frame_intros]:
  "(\<And>a b. framed (f a b)) \<Longrightarrow> framed (case p of (a, b) \<Rightarrow> f a b)"
  by (cases p) simp

lemma framed_Let [frame_intros]: "(\<And>x. framed (f x)) \<Longrightarrow> framed (Let v f)"
  by simp

end

section \<open>Lists\<close>

lemma takeWhile_dropWhile_nth:
  "length (takeWhile P xs) < length xs \<Longrightarrow> \<not> P (xs ! length (takeWhile P xs))"
  by (rule nth_length_takeWhile)

lemma drop_takeWhile_length: "drop (length (takeWhile P xs)) xs = dropWhile P xs"
  by (simp add: dropWhile_eq_drop)

lemma take_takeWhile_length: "take (length (takeWhile P xs)) xs = takeWhile P xs"
  by (metis takeWhile_eq_take)

text \<open>Dropping a suffix whose elements satisfy a predicate.\<close>

definition drop_last_while :: "('a \<Rightarrow> bool) \<Rightarrow> 'a list \<Rightarrow> 'a list" where
  "drop_last_while P xs = rev (dropWhile P (rev xs))"

lemma drop_last_while_Nil [simp]: "drop_last_while P [] = []"
  by (simp add: drop_last_while_def)

lemma drop_last_while_snoc [simp]:
  "drop_last_while P (xs @ [x]) = (if P x then drop_last_while P xs else xs @ [x])"
  by (simp add: drop_last_while_def)

lemma drop_last_while_split:
  "\<exists>ys. xs = drop_last_while P xs @ ys \<and> (\<forall>y \<in> set ys. P y)"
proof (induction xs rule: rev_induct)
  case (snoc x xs)
  then obtain ys where ys: "xs = drop_last_while P xs @ ys" "\<forall>y \<in> set ys. P y" by blast
  show ?case
  proof (cases "P x")
    case True
    with ys have "xs @ [x] = drop_last_while P xs @ (ys @ [x]) \<and> (\<forall>y \<in> set (ys @ [x]). P y)"
      by simp
    with True show ?thesis by (metis drop_last_while_snoc)
  qed simp
qed simp

lemma drop_last_while_last: "drop_last_while P xs \<noteq> [] \<Longrightarrow> \<not> P (last (drop_last_while P xs))"
  by (induction xs rule: rev_induct) (auto split: if_splits)

lemma filter_drop_last_while:
  "(\<And>x. P x \<Longrightarrow> \<not> Q x) \<Longrightarrow> filter Q (drop_last_while P xs) = filter Q xs"
  by (induction xs rule: rev_induct) auto

lemma drop_last_while_eq_Nil: "drop_last_while P xs = [] \<longleftrightarrow> (\<forall>x \<in> set xs. P x)"
  by (induction xs rule: rev_induct) auto

end
