(* ===== verification/Rust_Str.thy ===== *)
theory Rust_Str
  imports Prelude
begin

text \<open>
  The part of Rust's \<open>str\<close> and \<open>u8\<close> the clients use. A string is its UTF-8 bytes (an HOL
  \<open>char\<close> is a byte); \<open>utf8_decode\<close> reads the scalar values back, with the bytes of each.
  Slicing is an \<open>option\<close>: \<open>None\<close> is the panic of slicing off a character boundary.
\<close>

section \<open>Bytes\<close>

abbreviation byte :: "char \<Rightarrow> nat" where
  "byte c \<equiv> of_char c"

definition is_ascii_digit :: "char \<Rightarrow> bool" where
  "is_ascii_digit c \<longleftrightarrow> 48 \<le> byte c \<and> byte c \<le> 57"

definition is_ascii_control :: "char \<Rightarrow> bool" where
  "is_ascii_control c \<longleftrightarrow> byte c < 32 \<or> byte c = 127"

text \<open>Space, tab, line feed, form feed, carriage return (not the vertical tab).\<close>

definition ascii_ws_code :: "nat \<Rightarrow> bool" where
  "ascii_ws_code n \<longleftrightarrow> n = 32 \<or> n = 9 \<or> n = 10 \<or> n = 12 \<or> n = 13"

definition is_ascii_whitespace :: "char \<Rightarrow> bool" where
  "is_ascii_whitespace c \<longleftrightarrow> ascii_ws_code (byte c)"

text \<open>The Unicode property \<open>White_Space\<close>, as \<open>char::is_whitespace\<close> tests it.\<close>

definition is_whitespace :: "nat \<Rightarrow> bool" where
  "is_whitespace n \<longleftrightarrow> 9 \<le> n \<and> n \<le> 13 \<or> n = 32 \<or> n = 133 \<or> n = 160 \<or> n = 5760
     \<or> 8192 \<le> n \<and> n \<le> 8202 \<or> n = 8232 \<or> n = 8233 \<or> n = 8239 \<or> n = 8287 \<or> n = 12288"

definition is_cont :: "char \<Rightarrow> bool" where
  "is_cont c \<longleftrightarrow> 128 \<le> byte c \<and> byte c < 192"

lemma ascii_ws_not_cont: "is_ascii_whitespace c \<Longrightarrow> \<not> is_cont c"
  by (auto simp: is_ascii_whitespace_def ascii_ws_code_def is_cont_def)

lemma ascii_ws_is_whitespace: "ascii_ws_code n \<Longrightarrow> is_whitespace n"
  by (auto simp: ascii_ws_code_def is_whitespace_def)

section \<open>UTF-8\<close>

text \<open>
  \<open>next_char\<close> takes the first scalar value off a byte string, by the table of well-formed
  sequences (no overlong form, no surrogate, nothing above U+10FFFF), as
  \<open>String::from_utf8\<close> accepts them.
\<close>

definition cont_bits :: "char \<Rightarrow> nat" where
  "cont_bits c = byte c - 128"

definition in_range :: "nat \<Rightarrow> nat \<Rightarrow> char \<Rightarrow> bool" where
  "in_range lo hi c \<longleftrightarrow> lo \<le> byte c \<and> byte c \<le> hi"

fun next_char :: "string \<Rightarrow> (nat \<times> string \<times> string) option" where
  "next_char [] = None"
| "next_char (a # s) =
     (if byte a < 128 then Some (byte a, [a], s)
      else if in_range 0xC2 0xDF a then
        (case s of b # t \<Rightarrow>
           if is_cont b then Some ((byte a - 0xC0) * 64 + cont_bits b, [a, b], t) else None
         | _ \<Rightarrow> None)
      else if in_range 0xE0 0xEF a then
        (case s of b # c # t \<Rightarrow>
           if is_cont b \<and> is_cont c \<and> (byte a = 0xE0 \<longrightarrow> 0xA0 \<le> byte b)
              \<and> (byte a = 0xED \<longrightarrow> byte b < 0xA0)
           then Some (((byte a - 0xE0) * 64 + cont_bits b) * 64 + cont_bits c, [a, b, c], t)
           else None
         | _ \<Rightarrow> None)
      else if in_range 0xF0 0xF4 a then
        (case s of b # c # d # t \<Rightarrow>
           if is_cont b \<and> is_cont c \<and> is_cont d \<and> (byte a = 0xF0 \<longrightarrow> 0x90 \<le> byte b)
              \<and> (byte a = 0xF4 \<longrightarrow> byte b < 0x90)
           then Some ((((byte a - 0xF0) * 64 + cont_bits b) * 64 + cont_bits c) * 64
                        + cont_bits d, [a, b, c, d], t)
           else None
         | _ \<Rightarrow> None)
      else None)"

lemma next_char_split:
  assumes "next_char s = Some (n, e, t)"
  shows "s = e @ t \<and> e \<noteq> [] \<and> \<not> is_cont (hd e) \<and> (\<forall>c \<in> set (tl e). is_cont c)"
  using assms
  by (cases s) (auto simp: is_cont_def in_range_def split: if_splits list.splits)

lemma next_char_append:
  assumes "next_char s = Some (n, e, t)"
  shows "next_char (s @ u) = Some (n, e, t @ u)"
  using assms by (cases s) (auto split: if_splits list.splits)

lemma next_char_prefix:
  assumes "next_char (e @ t) = Some (n, e, t)"
  shows "next_char (e @ u) = Some (n, e, u)"
  using assms next_char_split [OF assms] by (cases e) (auto split: if_splits list.splits)

lemma next_char_ascii: "byte a < 128 \<Longrightarrow> next_char (a # s) = Some (byte a, [a], s)"
  by simp

lemma next_char_wide:
  assumes "next_char (a # s) = Some (n, e, t)" "128 \<le> byte a"
  shows "128 \<le> n \<and> 2 \<le> length e"
proof -
  have lead: "in_range 0xC2 0xDF a \<Longrightarrow> 2 \<le> byte a - 0xC0"
    "in_range 0xE0 0xEF a \<Longrightarrow> byte a \<noteq> 0xE0 \<Longrightarrow> 1 \<le> byte a - 0xE0"
    "in_range 0xF0 0xF4 a \<Longrightarrow> byte a \<noteq> 0xF0 \<Longrightarrow> 1 \<le> byte a - 0xF0"
    by (auto simp: in_range_def)
  have low: "m \<le> byte c \<Longrightarrow> m - 128 \<le> cont_bits c" for m c by (simp add: cont_bits_def)
  from assms consider "in_range 0xC2 0xDF a" | "in_range 0xE0 0xEF a" "\<not> in_range 0xC2 0xDF a"
    | "in_range 0xF0 0xF4 a" "\<not> in_range 0xC2 0xDF a" "\<not> in_range 0xE0 0xEF a"
    by (auto split: if_splits)
  then show ?thesis
  proof cases
    case 1
    with assms lead(1) show ?thesis by (auto split: if_splits list.splits)
  next
    case 2
    with assms lead(2) low [of 160] show ?thesis
      by (cases "byte a = 0xE0") (fastforce split: if_splits list.splits)+
  next
    case 3
    with assms lead(3) low [of 144] show ?thesis
      by (cases "byte a = 0xF0") (fastforce split: if_splits list.splits)+
  qed
qed

lemma next_char_ascii_iff:
  assumes "next_char s = Some (n, e, t)"
  shows "n < 128 \<longleftrightarrow> (\<exists>c. e = [c] \<and> byte c = n)"
proof (cases s)
  case (Cons a r)
  show ?thesis
  proof (cases "byte a < 128")
    case True
    with assms Cons show ?thesis by auto
  next
    case False
    with assms Cons next_char_wide [of a r n e t] show ?thesis by auto
  qed
qed (use assms in simp)

declare next_char.simps(2) [simp del]

text \<open>The decoded scalar values with their bytes; \<open>None\<close> on malformed UTF-8.\<close>

function utf8_decode :: "string \<Rightarrow> (nat \<times> string) list option" where
  "utf8_decode s =
     (if s = [] then Some []
      else case next_char s of None \<Rightarrow> None
           | Some (n, e, t) \<Rightarrow> map_option ((#) (n, e)) (utf8_decode t))"
  by pat_completeness auto
termination
  by (relation "measure length") (auto dest!: next_char_split)

declare utf8_decode.simps [simp del]

definition valid_utf8 :: "string \<Rightarrow> bool" where
  "valid_utf8 s \<longleftrightarrow> utf8_decode s \<noteq> None"

lemma utf8_decode_Nil [simp]: "utf8_decode [] = Some []"
  by (subst utf8_decode.simps) simp

lemma utf8_decode_next:
  "next_char s = Some (n, e, t) \<Longrightarrow> utf8_decode s = map_option ((#) (n, e)) (utf8_decode t)"
  by (subst utf8_decode.simps) auto

lemma utf8_decode_Cons_ascii:
  "byte a < 128 \<Longrightarrow> utf8_decode (a # s) = map_option ((#) (byte a, [a])) (utf8_decode s)"
  by (rule utf8_decode_next) (simp add: next_char.simps)

lemma utf8_decode_nonempty:
  assumes "utf8_decode s = Some cs" "s \<noteq> []"
  obtains n e t ds where "next_char s = Some (n, e, t)" "utf8_decode t = Some ds"
    "cs = (n, e) # ds"
  using assms by (subst (asm) utf8_decode.simps) (auto split: option.splits)

text \<open>A well-formed sequence: one scalar value and its bytes.\<close>

definition is_enc :: "nat \<times> string \<Rightarrow> bool" where
  "is_enc c \<longleftrightarrow> next_char (snd c) = Some (fst c, snd c, [])"

lemma is_enc_bytes:
  "is_enc (n, e) \<Longrightarrow> e \<noteq> [] \<and> \<not> is_cont (hd e) \<and> (\<forall>c \<in> set (tl e). is_cont c)"
  unfolding is_enc_def by (auto dest: next_char_split)

lemma is_enc_ascii_iff: "is_enc (n, e) \<Longrightarrow> n < 128 \<longleftrightarrow> (\<exists>c. e = [c] \<and> byte c = n)"
  unfolding is_enc_def by (auto dest: next_char_ascii_iff)

lemma next_char_is_enc: "next_char s = Some (n, e, t) \<Longrightarrow> is_enc (n, e)"
  unfolding is_enc_def using next_char_prefix [of e t n "[]"] next_char_split [of s n e t] by simp

lemma utf8_decode_concat:
  "(\<forall>c \<in> set cs. is_enc c) \<Longrightarrow> utf8_decode (concat (map snd cs)) = Some cs"
proof (induction cs)
  case (Cons c cs)
  obtain n e where c: "c = (n, e)" by fastforce
  with Cons.prems have "next_char (e @ concat (map snd cs)) = Some (n, e, concat (map snd cs))"
    using next_char_append [of e n e "[]"] by (simp add: is_enc_def)
  with Cons c show ?case by (simp add: utf8_decode_next)
qed simp

lemma utf8_decode_sound:
  "utf8_decode s = Some cs \<Longrightarrow> s = concat (map snd cs) \<and> (\<forall>c \<in> set cs. is_enc c)"
proof (induction s arbitrary: cs rule: utf8_decode.induct)
  case (1 s)
  show ?case
  proof (cases "s = []")
    case False
    with "1.prems" obtain n e t ds where d: "next_char s = Some (n, e, t)"
      "utf8_decode t = Some ds" "cs = (n, e) # ds" by (rule utf8_decode_nonempty)
    with "1.IH" [OF False d(1)] next_char_split [OF d(1)] next_char_is_enc [OF d(1)]
    show ?thesis by simp
  qed (use "1.prems" in simp)
qed

text \<open>The decoder and the well-formed lists of encodings describe the same strings.\<close>

lemma utf8_decode_iff:
  "utf8_decode s = Some cs \<longleftrightarrow> s = concat (map snd cs) \<and> (\<forall>c \<in> set cs. is_enc c)"
  using utf8_decode_sound utf8_decode_concat by blast

lemma valid_utf8_iff: "valid_utf8 s \<longleftrightarrow> (\<exists>cs. s = concat (map snd cs) \<and> (\<forall>c \<in> set cs. is_enc c))"
  unfolding valid_utf8_def using utf8_decode_iff by blast

lemma utf8_decode_append:
  "utf8_decode s = Some cs \<Longrightarrow> utf8_decode t = Some ds \<Longrightarrow> utf8_decode (s @ t) = Some (cs @ ds)"
  unfolding utf8_decode_iff by auto

lemma valid_utf8_append: "valid_utf8 s \<Longrightarrow> valid_utf8 t \<Longrightarrow> valid_utf8 (s @ t)"
  unfolding valid_utf8_def using utf8_decode_append by fastforce

lemma valid_utf8_Nil [simp]: "valid_utf8 []"
  by (simp add: valid_utf8_def)

lemma valid_utf8_ascii: "(\<forall>c \<in> set s. byte c < 128) \<Longrightarrow> valid_utf8 s"
  by (induction s) (auto simp: valid_utf8_def utf8_decode_Cons_ascii)

section \<open>Boundaries and slices\<close>

definition is_boundary :: "string \<Rightarrow> nat \<Rightarrow> bool" where
  "is_boundary s i \<longleftrightarrow> i = 0 \<or> i = length s \<or> i < length s \<and> \<not> is_cont (s ! i)"

definition slice_from :: "string \<Rightarrow> nat \<Rightarrow> string option" where
  "slice_from s i = (if is_boundary s i then Some (drop i s) else None)"

definition slice_to :: "string \<Rightarrow> nat \<Rightarrow> string option" where
  "slice_to s i = (if is_boundary s i then Some (take i s) else None)"

definition slice :: "string \<Rightarrow> nat \<Rightarrow> nat \<Rightarrow> string option" where
  "slice s i j = (if i \<le> j \<and> is_boundary s i \<and> is_boundary s j then Some (take (j - i) (drop i s))
                  else None)"

definition replace_range :: "string \<Rightarrow> nat \<Rightarrow> nat \<Rightarrow> string \<Rightarrow> string option" where
  "replace_range s i j r =
     (if i \<le> j \<and> is_boundary s i \<and> is_boundary s j then Some (take i s @ r @ drop j s) else None)"

lemma is_boundary_le: "is_boundary s i \<Longrightarrow> i \<le> length s"
  by (auto simp: is_boundary_def)

lemma is_boundary_append: "is_boundary (s @ t) (length s) \<longleftrightarrow> s = [] \<or> t = [] \<or> \<not> is_cont (hd t)"
  by (cases t) (auto simp: is_boundary_def nth_append)

text \<open>Splitting well-formed text at a boundary splits its scalar values.\<close>

lemma utf8_decode_split:
  "utf8_decode (s @ t) = Some cs \<Longrightarrow> is_boundary (s @ t) (length s) \<Longrightarrow>
     \<exists>as bs. cs = as @ bs \<and> utf8_decode s = Some as \<and> utf8_decode t = Some bs"
proof (induction cs arbitrary: s)
  case Nil
  then show ?case by (simp add: utf8_decode_iff)
next
  case (Cons c cs)
  obtain n e where c: "c = (n, e)" by fastforce
  from Cons.prems(1) c have st: "s @ t = e @ concat (map snd cs)"
    and enc: "is_enc (n, e)" "\<forall>c \<in> set cs. is_enc c" by (simp_all add: utf8_decode_iff)
  show ?case
  proof (cases "s = []")
    case True
    with Cons.prems(1) show ?thesis by simp
  next
    case False
    have "length e \<le> length s"
    proof (rule ccontr)
      assume "\<not> length e \<le> length s"
      with st obtain u where u: "e = s @ u" "t = u @ concat (map snd cs)" "u \<noteq> []"
        by (auto simp: append_eq_append_conv2)
      with False is_enc_bytes [OF enc(1)] have "is_cont (hd u)" by (cases s) auto
      with u Cons.prems(2) False show False by (simp add: is_boundary_append)
    qed
    with st obtain s' where s': "s = e @ s'" "s' @ t = concat (map snd cs)"
      by (auto simp: append_eq_append_conv2)
    have "is_boundary (s' @ t) (length s')"
      using Cons.prems(2) False by (simp only: is_boundary_append) simp
    with Cons.IH [of s'] s' enc obtain as bs where "cs = as @ bs"
      "utf8_decode s' = Some as" "utf8_decode t = Some bs" by (auto simp: utf8_decode_iff)
    with c s' enc(1) show ?thesis
      by (intro exI [of _ "(n, e) # as"] exI [of _ bs]) (simp add: utf8_decode_iff)
  qed
qed

lemma valid_utf8_split:
  assumes "valid_utf8 (s @ t)" "is_boundary (s @ t) (length s)"
  shows "valid_utf8 s" "valid_utf8 t"
  using assms utf8_decode_split [of s t] unfolding valid_utf8_def by fastforce+

lemma valid_utf8_take:
  assumes "valid_utf8 s" "is_boundary s i" shows "valid_utf8 (take i s)"
  using valid_utf8_split(1) [of "take i s" "drop i s"] assms is_boundary_le [OF assms(2)]
  by (simp add: min_def)

lemma valid_utf8_drop:
  assumes "valid_utf8 s" "is_boundary s i" shows "valid_utf8 (drop i s)"
  using valid_utf8_split(2) [of "take i s" "drop i s"] assms is_boundary_le [OF assms(2)]
  by (simp add: min_def)

text \<open>The two ways the code finds a boundary: before an ASCII byte, and after one.\<close>

lemma boundary_at_ascii:
  "i < length s \<Longrightarrow> byte (s ! i) < 128 \<Longrightarrow> is_boundary s i"
  by (auto simp: is_boundary_def is_cont_def)

lemma hd_valid_not_cont: "valid_utf8 t \<Longrightarrow> t \<noteq> [] \<Longrightarrow> \<not> is_cont (hd t)"
  by (metis valid_utf8_def not_None_eq utf8_decode_nonempty next_char_split hd_append2)

lemma boundary_after_ascii:
  assumes "valid_utf8 s" "i < length s" "byte (s ! i) < 128"
  shows "is_boundary s (Suc i)"
proof -
  from assms(1) boundary_at_ascii [OF assms(2,3)] have v: "valid_utf8 (s ! i # drop (Suc i) s)"
    using assms(2) by (metis Cons_nth_drop_Suc valid_utf8_drop)
  with assms(3) have "valid_utf8 (drop (Suc i) s)"
    by (auto simp: valid_utf8_def utf8_decode_Cons_ascii)
  with hd_valid_not_cont assms(2) show ?thesis
    by (cases "Suc i = length s") (force simp: is_boundary_def hd_drop_conv_nth)+
qed

lemma boundary_0 [simp]: "is_boundary s 0" and boundary_length [simp]: "is_boundary s (length s)"
  by (simp_all add: is_boundary_def)

lemma boundary_trans:
  "is_boundary s i \<Longrightarrow> is_boundary (drop i s) j \<Longrightarrow> is_boundary s (i + j)"
proof -
  assume i: "is_boundary s i" and j: "is_boundary (drop i s) j"
  from is_boundary_le [OF i] have le: "i \<le> length s" .
  from j consider "j = 0" | "j = length s - i" | "j < length s - i" "\<not> is_cont (drop i s ! j)"
    by (auto simp: is_boundary_def)
  then show ?thesis
  proof cases
    case 3
    with le have "i + j < length s" "\<not> is_cont (s ! (i + j))" by (simp_all add: nth_drop)
    then show ?thesis by (simp add: is_boundary_def)
  qed (use i le in simp_all)
qed

section \<open>Lossy decoding\<close>

text \<open>
  \<open>String::from_utf8_lossy\<close>: a malformed sequence becomes U+FFFD, and the bytes skipped are
  the longest prefix that could have begun a character (at least one byte).
\<close>

definition second_ok :: "char \<Rightarrow> char \<Rightarrow> bool" where
  "second_ok a b \<longleftrightarrow> is_cont b \<and> (byte a = 0xE0 \<longrightarrow> 0xA0 \<le> byte b) \<and> (byte a = 0xED \<longrightarrow> byte b < 0xA0)
     \<and> (byte a = 0xF0 \<longrightarrow> 0x90 \<le> byte b) \<and> (byte a = 0xF4 \<longrightarrow> byte b < 0x90)"

definition bad_length :: "string \<Rightarrow> nat" where
  "bad_length s =
     (case s of
        a # b # t \<Rightarrow>
          if (in_range 0xE0 0xEF a \<or> in_range 0xF0 0xF4 a) \<and> second_ok a b
          then (if in_range 0xF0 0xF4 a \<and> t \<noteq> [] \<and> is_cont (hd t) then 3 else 2)
          else 1
      | _ \<Rightarrow> 1)"

definition replacement_char :: string where
  "replacement_char = [char_of (0xEF :: nat), char_of (0xBF :: nat), char_of (0xBD :: nat)]"

function from_utf8_lossy :: "string \<Rightarrow> string" where
  "from_utf8_lossy s =
     (if s = [] then []
      else case next_char s of
        Some (n, e, t) \<Rightarrow> e @ from_utf8_lossy t
      | None \<Rightarrow> replacement_char @ from_utf8_lossy (drop (bad_length s) s))"
  by pat_completeness auto
termination
  by (relation "measure length") (auto dest!: next_char_split simp: bad_length_def split: list.splits)

declare from_utf8_lossy.simps [simp del]

lemma from_utf8_lossy_valid: "valid_utf8 s \<Longrightarrow> from_utf8_lossy s = s"
proof (induction s rule: from_utf8_lossy.induct)
  case (1 s)
  show ?case
  proof (cases "s = []")
    case False
    with 1(3) obtain n e t ds where n: "next_char s = Some (n, e, t)" "utf8_decode t = Some ds"
      unfolding valid_utf8_def by (metis utf8_decode_nonempty not_Some_eq)
    then have "from_utf8_lossy t = t" using 1(2) [OF False] by (simp add: valid_utf8_def)
    with n(1) False next_char_split [OF n(1)] show ?thesis
      by (subst from_utf8_lossy.simps) simp
  qed (simp add: from_utf8_lossy.simps)
qed

lemma valid_replacement_char: "valid_utf8 replacement_char"
  by code_simp

lemma from_utf8_lossy_is_valid: "valid_utf8 (from_utf8_lossy s)"
proof (induction s rule: from_utf8_lossy.induct)
  case (1 s)
  show ?case
  proof (cases "s = []")
    case False
    show ?thesis
    proof (cases "next_char s")
      case None
      with 1(1) [OF False] False show ?thesis
        by (subst from_utf8_lossy.simps) (simp add: valid_utf8_append valid_replacement_char)
    next
      case (Some p)
      obtain n e t where p: "p = (n, e, t)" by (cases p)
      with Some have "next_char s = Some (n, e, t)" by simp
      then have "valid_utf8 e"
        using next_char_is_enc [of s n e t] by (auto simp: valid_utf8_iff intro!: exI [of _ "[(n, e)]"])
      with 1(2) [OF False Some] Some p False show ?thesis
        by (subst from_utf8_lossy.simps) (simp add: valid_utf8_append)
    qed
  qed (simp add: from_utf8_lossy.simps)
qed

end
