(* ===== verification/Rust_Text.thy ===== *)
theory Rust_Text
  imports Rust_Str
begin

text \<open>
  Searching, trimming and line splitting of \<open>str\<close>, with the byte offsets the standard
  library returns, and the facts that tie an offset to a character boundary.
\<close>

section \<open>Characters\<close>

text \<open>The scalar values of a string with their bytes; a \<open>str\<close> is always well-formed.\<close>

definition char_list :: "string \<Rightarrow> (nat \<times> string) list" where
  "char_list s = (case utf8_decode s of Some cs \<Rightarrow> cs | None \<Rightarrow> [])"

definition chars :: "string \<Rightarrow> nat list" where
  "chars s = map fst (char_list s)"

text \<open>\<open>find (pred)\<close>: the byte offset of the first character that satisfies a predicate.\<close>

fun find_in :: "(nat \<Rightarrow> bool) \<Rightarrow> (nat \<times> string) list \<Rightarrow> nat \<Rightarrow> nat option" where
  "find_in p [] i = None"
| "find_in p ((n, e) # cs) i = (if p n then Some i else find_in p cs (i + length e))"

definition find_char :: "(nat \<Rightarrow> bool) \<Rightarrow> string \<Rightarrow> nat option" where
  "find_char p s = find_in p (char_list s) 0"

text \<open>\<open>char_indices().nth(k)\<close>: the byte offset of the \<open>k\<close>-th character.\<close>

fun nth_index :: "(nat \<times> string) list \<Rightarrow> nat \<Rightarrow> nat \<Rightarrow> nat option" where
  "nth_index [] k i = None"
| "nth_index ((n, e) # cs) 0 i = Some i"
| "nth_index ((n, e) # cs) (Suc k) i = nth_index cs k (i + length e)"

definition char_index :: "string \<Rightarrow> nat \<Rightarrow> nat option" where
  "char_index s k = nth_index (char_list s) k 0"

lemma char_list_concat: "valid_utf8 s \<Longrightarrow> concat (map snd (char_list s)) = s"
  unfolding char_list_def valid_utf8_def by (auto dest: utf8_decode_sound)

lemma char_list_enc: "\<forall>c \<in> set (char_list s). is_enc c"
  unfolding char_list_def by (cases "utf8_decode s") (auto dest: utf8_decode_sound)

lemma char_list_Nil [simp]: "char_list [] = []"
  by (simp add: char_list_def)

lemma char_list_append:
  "valid_utf8 s \<Longrightarrow> valid_utf8 t \<Longrightarrow> char_list (s @ t) = char_list s @ char_list t"
  unfolding valid_utf8_def char_list_def by (auto simp: utf8_decode_append)

lemma char_list_Cons_ascii:
  "byte a < 128 \<Longrightarrow> valid_utf8 s \<Longrightarrow> char_list (a # s) = (byte a, [a]) # char_list s"
  unfolding valid_utf8_def char_list_def by (auto simp: utf8_decode_Cons_ascii)

lemma valid_utf8_concat: "\<forall>c \<in> set cs. is_enc c \<Longrightarrow> valid_utf8 (concat (map snd cs))"
  using valid_utf8_iff by blast

lemma boundary_concat:
  assumes "\<forall>c \<in> set (as @ bs). is_enc c"
  shows "is_boundary (concat (map snd (as @ bs))) (length (concat (map snd as)))"
  using assms is_enc_bytes [of "fst (hd bs)" "snd (hd bs)"]
  by (cases bs) (auto simp: is_boundary_append)

lemma find_in_eq:
  "find_in p cs i =
     (if \<exists>c \<in> set cs. p (fst c)
      then Some (i + length (concat (map snd (takeWhile (\<lambda>c. \<not> p (fst c)) cs)))) else None)"
  by (induction p cs i rule: find_in.induct) auto

lemma takeWhile_chars_boundary:
  assumes "valid_utf8 s" "\<exists>c \<in> set (char_list s). \<not> P c"
  shows "is_boundary s (length (concat (map snd (takeWhile P (char_list s)))))
     \<and> length (concat (map snd (takeWhile P (char_list s)))) < length s"
proof -
  let ?cs = "char_list s"
  have s: "s = concat (map snd (takeWhile P ?cs @ dropWhile P ?cs))"
    using char_list_concat [OF assms(1)] by simp
  from assms(2) have ne: "dropWhile P ?cs \<noteq> []" by (auto simp: dropWhile_eq_Nil_conv)
  then have "snd (hd (dropWhile P ?cs)) \<noteq> []"
    using char_list_enc [of s] is_enc_bytes
    by (metis hd_in_set prod.collapse set_dropWhileD)
  with ne have "concat (map snd (dropWhile P ?cs)) \<noteq> []" by (cases "dropWhile P ?cs") auto
  then have "length (concat (map snd (takeWhile P ?cs))) < length s"
    by (subst s) (simp del: takeWhile_dropWhile_id)
  moreover have "is_boundary s (length (concat (map snd (takeWhile P ?cs))))"
    using boundary_concat [of "takeWhile P ?cs" "dropWhile P ?cs"] char_list_enc [of s] s by simp
  ultimately show ?thesis by simp
qed

lemma find_char_boundary:
  assumes "valid_utf8 s" "find_char p s = Some i"
  shows "is_boundary s i \<and> i < length s"
  using assms takeWhile_chars_boundary [of s "\<lambda>c. \<not> p (fst c)"]
  by (auto simp: find_char_def find_in_eq split: if_splits)

lemma nth_index_eq:
  "nth_index cs k i =
     (if k < length cs then Some (i + length (concat (map snd (take k cs)))) else None)"
  by (induction cs k i rule: nth_index.induct) auto

lemma char_index_boundary:
  assumes "valid_utf8 s" "char_index s k = Some i"
  shows "is_boundary s i \<and> i \<le> length s"
proof -
  have s: "s = concat (map snd (take k (char_list s) @ drop k (char_list s)))"
    using char_list_concat [OF assms(1)] by simp
  have "is_boundary s i"
    using boundary_concat [of "take k (char_list s)" "drop k (char_list s)"] char_list_enc [of s]
      s assms(2) by (auto simp: char_index_def nth_index_eq split: if_splits)
  then show ?thesis by (simp add: is_boundary_le)
qed

text \<open>
  Looking for the first character that is not ASCII whitespace is looking for the first such
  byte: no byte of a longer encoding is ASCII.
\<close>

definition not_ascii_ws :: "nat \<Rightarrow> bool" where
  "not_ascii_ws n \<longleftrightarrow> \<not> ascii_ws_code n"

lemma enc_ascii_ws:
  assumes "is_enc (n, e)"
  shows "ascii_ws_code n \<longleftrightarrow> is_ascii_whitespace (hd e)"
proof (cases "n < 128")
  case True
  with is_enc_ascii_iff [OF assms] show ?thesis by (auto simp: is_ascii_whitespace_def)
next
  case False
  have "\<not> ascii_ws_code (byte (hd e))"
  proof
    assume ws: "ascii_ws_code (byte (hd e))"
    then have "byte (hd e) < 128" by (auto simp: ascii_ws_code_def)
    moreover obtain a r where e: "e = a # r" using is_enc_bytes [OF assms] by (cases e) auto
    ultimately have "n = byte a" using assms by (simp add: is_enc_def next_char.simps)
    with False e \<open>byte (hd e) < 128\<close> show False by simp
  qed
  with False show ?thesis by (auto simp: is_ascii_whitespace_def ascii_ws_code_def)
qed

lemma ascii_ws_single: "is_enc (n, e) \<Longrightarrow> ascii_ws_code n \<Longrightarrow> e = [hd e]"
  using is_enc_ascii_iff [of n e] by (auto simp: ascii_ws_code_def)

lemma takeWhile_ws_concat:
  "\<forall>c \<in> set cs. is_enc c \<Longrightarrow>
     takeWhile is_ascii_whitespace (concat (map snd cs))
       = concat (map snd (takeWhile (\<lambda>c. ascii_ws_code (fst c)) cs))"
proof (induction cs)
  case (Cons c cs)
  obtain n e where c: "c = (n, e)" by fastforce
  with Cons.prems have enc: "is_enc (n, e)" by simp
  obtain a r where e: "e = a # r" using is_enc_bytes [OF enc] by (cases e) auto
  show ?case
  proof (cases "ascii_ws_code n")
    case True
    with ascii_ws_single [OF enc] e have "e = [a]" by simp
    with True Cons c enc_ascii_ws [OF enc] show ?thesis by simp
  next
    case False
    with c e enc_ascii_ws [OF enc] show ?thesis by simp
  qed
qed simp

lemma find_not_ascii_ws:
  assumes "valid_utf8 s"
  shows "find_char not_ascii_ws s =
     (let k = length (takeWhile is_ascii_whitespace s) in if k < length s then Some k else None)"
proof -
  let ?cs = "char_list s" and ?P = "\<lambda>c :: nat \<times> string. ascii_ws_code (fst c)"
  have s: "s = concat (map snd ?cs)" using char_list_concat [OF assms] by simp
  have tw: "takeWhile is_ascii_whitespace s = concat (map snd (takeWhile ?P ?cs))"
    using takeWhile_ws_concat [OF char_list_enc [of s]] s by simp
  show ?thesis
  proof (cases "\<exists>c \<in> set ?cs. \<not> ?P c")
    case True
    with takeWhile_chars_boundary [OF assms this] tw show ?thesis
      by (auto simp: find_char_def find_in_eq not_ascii_ws_def Let_def)
  next
    case False
    then have "takeWhile ?P ?cs = ?cs" by (simp add: takeWhile_eq_all_conv)
    with tw s have "length (takeWhile is_ascii_whitespace s) = length s" by metis
    with False show ?thesis by (auto simp: find_char_def find_in_eq not_ascii_ws_def Let_def)
  qed
qed

lemma dropWhile_ws_boundary:
  assumes "valid_utf8 s"
  shows "is_boundary s (length (takeWhile is_ascii_whitespace s))"
proof (cases "length (takeWhile is_ascii_whitespace s) < length s")
  case True
  then have "find_char not_ascii_ws s = Some (length (takeWhile is_ascii_whitespace s))"
    using find_not_ascii_ws [OF assms] by (simp add: Let_def)
  then show ?thesis using find_char_boundary [OF assms] by blast
next
  case False
  then show ?thesis by (metis boundary_length length_takeWhile_le nat_less_le)
qed

section \<open>Substrings\<close>

definition starts_with :: "string \<Rightarrow> string \<Rightarrow> bool" where
  "starts_with p s \<longleftrightarrow> take (length p) s = p"

fun strip_prefix :: "string \<Rightarrow> string \<Rightarrow> string option" where
  "strip_prefix [] s = Some s"
| "strip_prefix (a # p) [] = None"
| "strip_prefix (a # p) (b # s) = (if a = b then strip_prefix p s else None)"

text \<open>\<open>find (str)\<close>: the byte offset of the first occurrence.\<close>

fun find_str :: "string \<Rightarrow> string \<Rightarrow> nat option" where
  "find_str p [] = (if p = [] then Some 0 else None)"
| "find_str p (c # s) = (if starts_with p (c # s) then Some 0 else map_option Suc (find_str p s))"

text \<open>\<open>matches (str).count()\<close>: occurrences that do not overlap, found from the left.\<close>

fun count_from :: "string \<Rightarrow> nat \<Rightarrow> string \<Rightarrow> nat" where
  "count_from p k [] = 0"
| "count_from p (Suc k) (c # s) = count_from p k s"
| "count_from p 0 (c # s) =
     (if starts_with p (c # s) then Suc (count_from p (length p - 1) s) else count_from p 0 s)"

definition count_matches :: "string \<Rightarrow> string \<Rightarrow> nat" where
  "count_matches p s = count_from p 0 s"

lemma find_str_Some:
  "find_str p s = Some i \<Longrightarrow> \<exists>a b. s = a @ p @ b \<and> i = length a"
proof (induction s arbitrary: i)
  case (Cons c s)
  show ?case
  proof (cases "starts_with p (c # s)")
    case True
    with Cons.prems show ?thesis
      by (intro exI [of _ "[]"] exI [of _ "drop (length p) (c # s)"])
        (simp add: starts_with_def, metis append_take_drop_id)
  next
    case False
    with Cons.prems obtain j where "find_str p s = Some j" "i = Suc j" by auto
    with Cons.IH obtain a b where "s = a @ p @ b" "j = length a" by blast
    with \<open>i = Suc j\<close> show ?thesis by (intro exI [of _ "c # a"] exI [of _ b]) simp
  qed
qed (auto split: if_splits)

text \<open>An occurrence of an ASCII pattern starts and ends at a boundary.\<close>

lemma find_str_boundary:
  assumes "valid_utf8 s" "find_str p s = Some i" "p \<noteq> []" "\<forall>c \<in> set p. byte c < 128"
  shows "is_boundary s i \<and> is_boundary s (i + length p)"
proof -
  obtain a b where s: "s = a @ p @ b" "i = length a" using find_str_Some [OF assms(2)] by blast
  obtain q c where p: "p = q @ [c]" using assms(3) by (cases p rule: rev_cases) auto
  have "is_boundary s i" using s assms(3,4) by (intro boundary_at_ascii) (auto simp: nth_append)
  moreover have "is_boundary s (Suc (i + length q))"
    using s p assms(1,4) by (intro boundary_after_ascii) (auto simp: nth_append)
  ultimately show ?thesis using p by simp
qed

section \<open>Trimming\<close>

text \<open>
  \<open>trim_start_matches (pred)\<close> on characters and \<open>trim_end_matches (',')\<close> on one ASCII
  character.
\<close>

definition trim_start_matches :: "(nat \<Rightarrow> bool) \<Rightarrow> string \<Rightarrow> string" where
  "trim_start_matches p s = concat (map snd (dropWhile (\<lambda>c. p (fst c)) (char_list s)))"

definition trim_end_char :: "char \<Rightarrow> string \<Rightarrow> string" where
  "trim_end_char c s = drop_last_while (\<lambda>d. d = c) s"

lemma trim_start_ascii_ws:
  assumes "valid_utf8 s"
  shows "trim_start_matches ascii_ws_code s = dropWhile is_ascii_whitespace s"
proof -
  let ?cs = "char_list s" and ?P = "\<lambda>c. ascii_ws_code (fst c)"
  have s: "s = concat (map snd ?cs)" using char_list_concat [OF assms] by simp
  then have "takeWhile is_ascii_whitespace s @ dropWhile is_ascii_whitespace s =
    concat (map snd (takeWhile ?P ?cs)) @ concat (map snd (dropWhile ?P ?cs))"
    by (metis concat_append map_append takeWhile_dropWhile_id)
  with takeWhile_ws_concat [OF char_list_enc [of s]] s show ?thesis
    by (simp add: trim_start_matches_def)
qed

section \<open>Lines\<close>

fun split_on :: "char \<Rightarrow> string \<Rightarrow> string list" where
  "split_on d [] = [[]]"
| "split_on d (c # s) =
     (if c = d then [] # split_on d s
      else (case split_on d s of [] \<Rightarrow> [[c]] | x # xs \<Rightarrow> (c # x) # xs))"

fun join_with :: "char \<Rightarrow> string list \<Rightarrow> string" where
  "join_with d [] = []"
| "join_with d [x] = x"
| "join_with d (x # xs) = x @ d # join_with d xs"

definition strip_cr :: "string \<Rightarrow> string" where
  "strip_cr l = (if l \<noteq> [] \<and> last l = CHR 0x0D then butlast l else l)"

text \<open>
  \<open>str::lines\<close>: lines end at a line feed, which is dropped with a carriage return before it;
  text after the last line feed is a line of its own, kept as it is.
\<close>

definition str_lines :: "string \<Rightarrow> string list" where
  "str_lines s =
     (let segs = split_on (CHR 0x0A) s
      in map strip_cr (butlast segs) @ (if last segs = [] then [] else [last segs]))"

lemma split_on_nonempty [simp]: "split_on d s \<noteq> []"
  by (induction s) (auto split: list.splits)

lemma join_split_on [simp]: "join_with d (split_on d s) = s"
proof (induction s)
  case (Cons c s)
  obtain x xs where "split_on d s = x # xs" by (cases "split_on d s") auto
  with Cons show ?case by (cases xs) auto
qed simp

lemma split_on_free: "x \<in> set (split_on d s) \<Longrightarrow> d \<notin> set x"
  by (induction s arbitrary: x) (fastforce split: list.splits if_splits)+

lemma split_on_chars: "x \<in> set (split_on d s) \<Longrightarrow> set x \<subseteq> set s"
  by (induction s arbitrary: x) (fastforce split: list.splits if_splits)+

lemma split_on_no_sep: "d \<notin> set s \<Longrightarrow> split_on d s = [s]"
  by (induction s) auto

lemma split_on_append_sep: "d \<notin> set x \<Longrightarrow> split_on d (x @ d # s) = x # split_on d s"
  by (induction x) auto

lemma split_join_with:
  "xs \<noteq> [] \<Longrightarrow> \<forall>x \<in> set xs. d \<notin> set x \<Longrightarrow> split_on d (join_with d xs) = xs"
  by (induction d xs rule: join_with.induct) (auto simp: split_on_no_sep split_on_append_sep)

lemma join_with_append:
  "xs \<noteq> [] \<Longrightarrow> ys \<noteq> [] \<Longrightarrow> join_with d (xs @ ys) = join_with d xs @ d # join_with d ys"
  by (induction d xs rule: join_with.induct) (auto simp: neq_Nil_conv)

lemma split_on_append:
  "split_on d (s @ d # t) = split_on d s @ split_on d t"
  by (induction s) (auto split: list.splits)

section \<open>Debug\<close>

text \<open>
  \<open>{:?}\<close> of a string: in quotes, with ASCII escapes as \<open>char::escape_debug\<close> writes them. Characters
  beyond ASCII are kept; Rust escapes the unprintable ones among them.
\<close>

definition hex_digit :: "nat \<Rightarrow> char" where
  "hex_digit n = char_of (if n < 10 then 48 + n else 87 + n)"

definition escape_debug :: "char \<Rightarrow> string" where
  "escape_debug c =
     (if c = CHR 0x22 \<or> c = CHR 0x5C then [CHR 0x5C, c]
      else if c = CHR 0x00 then [CHR 0x5C, CHR ''0'']
      else if c = CHR 0x09 then [CHR 0x5C, CHR ''t'']
      else if c = CHR 0x0A then [CHR 0x5C, CHR ''n'']
      else if c = CHR 0x0D then [CHR 0x5C, CHR ''r'']
      else if is_ascii_control c then
        CHR 0x5C # ''u{'' @ (if byte c < 16 then [] else [hex_digit (byte c div 16)]) @ [hex_digit (byte c mod 16)] @ ''}''
      else [c])"

definition debug_str :: "string \<Rightarrow> string" where
  "debug_str s = CHR 0x22 # concat (map escape_debug s) @ [CHR 0x22]"

end
