(* ===== verification/Rust_Path.thy ===== *)
theory Rust_Path
  imports Rust_Text
begin

text \<open>
  \<open>std::path\<close> on POSIX: a path is its bytes, and its components, parent, file name and
  equality follow the standard library. Empty components and \<open>.\<close> components are skipped,
  except a leading \<open>.\<close> of a relative path; \<open>parent\<close> keeps the bytes before the last component
  and trims the separators it leaves behind.
\<close>

section \<open>Components\<close>

datatype component = RootDir | CurDir | ParentDir | Normal string

definition is_body :: "string \<Rightarrow> bool" where
  "is_body x \<longleftrightarrow> x \<noteq> [] \<and> x \<noteq> ''.''"

definition body_component :: "string \<Rightarrow> component" where
  "body_component x = (if x = ''..'' then ParentDir else Normal x)"

definition body_components :: "string list \<Rightarrow> component list" where
  "body_components xs = map body_component (filter is_body xs)"

fun components :: "string \<Rightarrow> component list" where
  "components [] = []"
| "components (c # s) =
     (if c = CHR ''/'' then RootDir # body_components (split_on (CHR ''/'') s)
      else (let segs = split_on (CHR ''/'') (c # s)
            in (if hd segs = ''.'' then [CurDir] else body_components [hd segs])
               @ body_components (tl segs)))"

definition is_absolute :: "string \<Rightarrow> bool" where
  "is_absolute p \<longleftrightarrow> starts_with ''/'' p"

definition path_eq :: "string \<Rightarrow> string \<Rightarrow> bool" where
  "path_eq p q \<longleftrightarrow> components p = components q"

text \<open>\<open>Path::parent\<close>: \<open>None\<close> for the root and for the empty path.\<close>

definition trim_segs :: "string list \<Rightarrow> string list" where
  "trim_segs xs = drop_last_while (\<lambda>x. \<not> is_body x) xs"

fun parent :: "string \<Rightarrow> string option" where
  "parent [] = None"
| "parent (c # s) =
     (if c = CHR ''/'' then
        (let segs = trim_segs (split_on (CHR ''/'') s)
         in if segs = [] then None
            else Some (c # join_with (CHR ''/'') (trim_segs (butlast segs))))
      else
        (let segs = split_on (CHR ''/'') (c # s); rest = trim_segs (tl segs)
         in if rest = [] then Some []
            else Some (join_with (CHR ''/'') (hd segs # trim_segs (butlast rest)))))"

text \<open>\<open>Path::file_name\<close>: the last component, when it is a normal one.\<close>

definition file_name :: "string \<Rightarrow> string option" where
  "file_name p =
     (let cs = components p
      in if cs = [] then None else (case last cs of Normal x \<Rightarrow> Some x | _ \<Rightarrow> None))"

text \<open>\<open>PathBuf::push\<close>, which \<open>Path::join\<close> applies to a copy.\<close>

definition path_join :: "string \<Rightarrow> string \<Rightarrow> string" where
  "path_join p q =
     (if is_absolute q then q
      else if p \<noteq> [] \<and> last p \<noteq> CHR ''/'' then p @ ''/'' @ q
      else p @ q)"

lemma path_eq_refl [simp]: "path_eq p p"
  by (simp add: path_eq_def)

lemma path_eq_sym: "path_eq p q \<Longrightarrow> path_eq q p"
  by (simp add: path_eq_def)

lemma path_eq_trans: "path_eq p q \<Longrightarrow> path_eq q r \<Longrightarrow> path_eq p r"
  by (simp add: path_eq_def)

lemma is_absolute_iff: "is_absolute p \<longleftrightarrow> (\<exists>s. p = CHR ''/'' # s)"
  by (cases p) (auto simp: is_absolute_def starts_with_def)

lemma body_components_append:
  "body_components (xs @ ys) = body_components xs @ body_components ys"
  by (simp add: body_components_def)

lemma body_components_trim [simp]: "body_components (trim_segs xs) = body_components xs"
  by (simp add: body_components_def trim_segs_def filter_drop_last_while)

lemma body_components_empty [simp]: "body_components [[]] = []" "body_components [] = []"
  by (simp_all add: body_components_def is_body_def)

lemma trim_segs_last: "trim_segs xs \<noteq> [] \<Longrightarrow> is_body (last (trim_segs xs))"
  unfolding trim_segs_def using drop_last_while_last by fastforce

lemma trim_segs_Nil_iff: "trim_segs xs = [] \<longleftrightarrow> body_components xs = []"
  by (auto simp: trim_segs_def drop_last_while_eq_Nil body_components_def filter_empty_conv)

lemma body_components_butlast_trim:
  assumes "trim_segs xs \<noteq> []"
  shows "body_components (butlast (trim_segs xs)) = butlast (body_components xs)"
proof -
  from assms obtain ys y where t: "trim_segs xs = ys @ [y]" by (cases rule: rev_cases) auto
  with trim_segs_last [OF assms] have y: "is_body y" by simp
  have "body_components xs = body_components (ys @ [y])"
    using body_components_trim [of xs] t by simp
  with y have "body_components xs = body_components ys @ [body_component y]"
    by (simp add: body_components_def)
  then show ?thesis using t by simp
qed

text \<open>Trimming keeps a prefix of the segments, and a prefix of segments is a prefix of bytes.\<close>

lemma trim_segs_prefix: "\<exists>ys. xs = trim_segs xs @ ys"
  unfolding trim_segs_def using drop_last_while_split by metis

lemma parent_segs_prefix: "\<exists>y ys. trim_segs xs \<noteq> [] \<longrightarrow> xs = trim_segs (butlast (trim_segs xs)) @ y # ys"
proof (cases "trim_segs xs" rule: rev_cases)
  case (snoc zs z)
  obtain a where a: "xs = trim_segs xs @ a" using trim_segs_prefix by blast
  obtain b where b: "zs = trim_segs zs @ b" using trim_segs_prefix by blast
  from a snoc have "xs = zs @ z # a" by simp
  also have "\<dots> = trim_segs zs @ b @ z # a" using b by simp
  finally show ?thesis using snoc by (cases b) auto
qed simp

lemma join_with_prefix:
  "xs = as @ y # ys \<Longrightarrow> as \<noteq> [] \<Longrightarrow> \<exists>t. join_with d xs = join_with d as @ d # t"
  by (auto simp: join_with_append)

lemma split_join_trim:
  "body_components (split_on (CHR ''/'') (join_with (CHR ''/'') (trim_segs (butlast (trim_segs (split_on (CHR ''/'') s))))))
     = body_components (butlast (trim_segs (split_on (CHR ''/'') s)))"
proof (cases "trim_segs (butlast (trim_segs (split_on (CHR ''/'') s))) = []")
  case True
  then have "body_components (butlast (trim_segs (split_on (CHR ''/'') s))) = []"
    by (simp add: trim_segs_Nil_iff)
  with True show ?thesis by simp
next
  case False
  have "x \<in> set (trim_segs ys) \<Longrightarrow> x \<in> set ys" for x ys
    by (metis Un_iff set_append trim_segs_prefix)
  then have "\<forall>x \<in> set (trim_segs (butlast (trim_segs (split_on (CHR ''/'') s)))). CHR ''/'' \<notin> set x"
    by (metis in_set_butlastD split_on_free)
  with False show ?thesis by (simp add: split_join_with)
qed

section \<open>Absolute paths\<close>

lemma components_absolute: "is_absolute p \<Longrightarrow> \<exists>cs. components p = RootDir # cs"
  by (auto simp: is_absolute_iff)

lemma components_root [simp]: "components ''/'' = [RootDir]"
  by simp

lemma body_components_no_root: "RootDir \<notin> set (body_components xs)"
  by (auto simp: body_components_def body_component_def split: if_splits)

lemma parent_absolute:
  assumes "is_absolute p" "parent p = Some q"
  shows "is_absolute q \<and> components q = butlast (components p) \<and> components p \<noteq> [RootDir]"
proof -
  obtain s where p: "p = CHR ''/'' # s" using assms(1) by (auto simp: is_absolute_iff)
  let ?segs = "trim_segs (split_on (CHR ''/'') s)"
  from assms(2) p have ne: "?segs \<noteq> []"
    and q: "q = CHR ''/'' # join_with (CHR ''/'') (trim_segs (butlast ?segs))"
    by (auto simp: Let_def split: if_splits)
  have "components q = RootDir # butlast (body_components (split_on (CHR ''/'') s))"
    using q split_join_trim body_components_butlast_trim [OF ne] by simp
  moreover have "body_components (split_on (CHR ''/'') s) \<noteq> []"
    using ne by (simp add: trim_segs_Nil_iff)
  ultimately show ?thesis using p q by (simp add: is_absolute_iff)
qed

lemma parent_None_iff: "is_absolute p \<Longrightarrow> parent p = None \<longleftrightarrow> components p = [RootDir]"
  by (auto simp: is_absolute_iff Let_def trim_segs_Nil_iff split: if_splits)

lemma parent_Some: "is_absolute p \<Longrightarrow> components p \<noteq> [RootDir] \<Longrightarrow> \<exists>q. parent p = Some q"
  using parent_None_iff by fastforce

text \<open>The parent of an absolute path is cut off before a separator, or is the root itself.\<close>

lemma parent_bytes:
  assumes "is_absolute p" "parent p = Some q"
  obtains t where "p = q @ t" "t \<noteq> []" "hd t = CHR ''/'' \<or> q = ''/''"
proof -
  obtain s where p: "p = CHR ''/'' # s" using assms(1) by (auto simp: is_absolute_iff)
  let ?segs = "trim_segs (split_on (CHR ''/'') s)" and ?d = "CHR ''/''"
  from assms(2) p have ne: "?segs \<noteq> []"
    and q: "q = ?d # join_with ?d (trim_segs (butlast ?segs))"
    by (auto simp: Let_def split: if_splits)
  obtain y ys where split: "split_on ?d s = trim_segs (butlast ?segs) @ y # ys"
    using parent_segs_prefix ne by blast
  show ?thesis
  proof (cases "trim_segs (butlast ?segs) = []")
    case True
    have "s \<noteq> []" using ne by (auto simp: trim_segs_Nil_iff)
    with True p q show ?thesis by (intro that [of s]) simp_all
  next
    case False
    obtain t where "join_with ?d (split_on ?d s) = join_with ?d (trim_segs (butlast ?segs)) @ ?d # t"
      using join_with_prefix [OF split False] by blast
    with p q show ?thesis by (intro that [of "?d # t"]) simp_all
  qed
qed

lemma parent_length: "is_absolute p \<Longrightarrow> parent p = Some q \<Longrightarrow> length q < length p"
  by (auto elim: parent_bytes)

lemma parent_relative_length:
  assumes "\<not> is_absolute p" "parent p = Some q" shows "length q < length p"
proof (cases p)
  case (Cons c s)
  let ?d = "CHR ''/''" and ?segs = "split_on (CHR ''/'') p"
  let ?rest = "trim_segs (tl ?segs)"
  from assms Cons have c: "c \<noteq> ?d" by (auto simp: is_absolute_iff)
  show ?thesis
  proof (cases "?rest = []")
    case True
    with assms Cons c show ?thesis by (auto simp: Let_def)
  next
    case False
    with assms Cons c have q: "q = join_with ?d (hd ?segs # trim_segs (butlast ?rest))"
      by (auto simp: Let_def)
    obtain y ys where "tl ?segs = trim_segs (butlast ?rest) @ y # ys"
      using parent_segs_prefix False by blast
    then have "?segs = (hd ?segs # trim_segs (butlast ?rest)) @ y # ys"
      by (metis append_Cons hd_Cons_tl split_on_nonempty)
    from join_with_prefix [OF this] q obtain t where "join_with ?d ?segs = q @ ?d # t" by blast
    then have "p = q @ ?d # t" by simp
    then show ?thesis by simp
  qed
qed (use assms in simp)

lemma parent_shorter: "parent p = Some q \<Longrightarrow> length q < length p"
  using parent_length parent_relative_length by blast

section \<open>Joining a child name\<close>

definition child_name :: "string \<Rightarrow> bool" where
  "child_name n \<longleftrightarrow> n \<noteq> [] \<and> n \<noteq> ''.'' \<and> n \<noteq> ''..'' \<and> CHR ''/'' \<notin> set n"

lemma child_name_component: "child_name n \<Longrightarrow> body_components [n] = [Normal n]"
  by (auto simp: child_name_def body_components_def body_component_def is_body_def)

lemma child_not_absolute: "child_name n \<Longrightarrow> \<not> is_absolute n"
  by (auto simp: child_name_def is_absolute_iff)

lemma path_join_components:
  assumes "is_absolute p" "child_name n"
  shows "is_absolute (path_join p n) \<and> components (path_join p n) = components p @ [Normal n]"
proof -
  let ?d = "CHR ''/''"
  obtain s where p: "p = ?d # s" using assms(1) by (auto simp: is_absolute_iff)
  have n: "?d \<notin> set n" "\<not> is_absolute n" using assms(2) child_not_absolute
    by (auto simp: child_name_def)
  show ?thesis
  proof (cases "last p = ?d")
    case False
    then have "path_join p n = ?d # (s @ ?d # n)" using p n by (simp add: path_join_def)
    with p n assms(2) show ?thesis
      by (simp add: is_absolute_iff split_on_append split_on_no_sep body_components_append
          child_name_component)
  next
    case True
    then have j: "path_join p n = ?d # (s @ n)" using p n by (simp add: path_join_def)
    show ?thesis
    proof (cases "s = []")
      case True
      with j p n assms(2) show ?thesis
        by (simp add: is_absolute_iff split_on_no_sep child_name_component)
    next
      case False
      with True p obtain s' where s: "s = s' @ [?d]" by (cases s rule: rev_cases) auto
      with j p n assms(2) show ?thesis
        by (simp add: is_absolute_iff split_on_append split_on_no_sep body_components_append
            child_name_component)
    qed
  qed
qed

lemma path_join_file_name:
  "is_absolute p \<Longrightarrow> child_name n \<Longrightarrow> file_name (path_join p n) = Some n"
  using path_join_components [of p n] by (simp add: file_name_def Let_def)

lemma path_join_parent:
  assumes "is_absolute p" "child_name n"
  obtains q where "parent (path_join p n) = Some q" "path_eq q p"
proof -
  have j: "is_absolute (path_join p n)" "components (path_join p n) = components p @ [Normal n]"
    using path_join_components [OF assms] by auto
  then have "components (path_join p n) \<noteq> [RootDir]" by (cases "components p") auto
  with j(1) obtain q where q: "parent (path_join p n) = Some q" using parent_Some by blast
  with parent_absolute [OF j(1) q] j(2) show ?thesis by (intro that [of q]) (auto simp: path_eq_def)
qed

lemma path_join_inj:
  assumes "is_absolute p" "child_name m" "child_name n"
  shows "path_eq (path_join p m) (path_join p n) \<longleftrightarrow> m = n"
  using assms path_join_components [of p m] path_join_components [of p n]
  by (auto simp: path_eq_def)

end
