(* ===== verification/Errors.thy ===== *)
theory Errors
  imports Prelude
begin

text \<open>
  The failures of \<open>src/src/client/error.rs\<close>. The errors of \<open>suppaftp\<close> and \<open>remotefs\<close> are data
  here: the kinds and reply codes the source names, with one constructor for all the others.
  A boxed \<open>dyn Error\<close> is \<open>dyn_error\<close>, and \<open>source_of\<close> is its \<open>source()\<close>: foreign errors
  (an \<open>io::Error\<close>, any other error type) carry whatever chain they expose, so nothing is
  assumed about it.
\<close>

section \<open>Data\<close>

datatype remote_error_type =
    KAlreadyConnected | KAlreadyExists | KAuthenticationFailed | KBadAddress | KBadFile
  | KConnectionError | KDirectoryNotEmpty | KInvalidPath | KNoSuchFileOrDirectory
  | KNotConnected | KPermissionDenied | KProtocolError | KUnsupportedFeature
  | KOther nat

datatype status =
    NotAvailable | CannotOpenDataConnection | TransferAborted | NotLoggedIn
  | StoringNeedAccount | BadFilename | FileUnavailable | BadCommand | BadArguments
  | NotImplemented | NotImplementedParameter | AboutToSend | AlreadyOpen
  | OtherStatus nat

datatype response = Response (status: status) (body: string)

datatype io_kind = Interrupted | OtherIo nat

datatype dyn_error =
    DynFtp FtpError
  | DynRemote remote_error
  | DynListCleanupFailure remote_error remote_error
  | DynCleanupFailure remote_error remote_error
  | DynSkipCleanupFailure remote_error remote_error
  | DynWriteCleanupFailure remote_error remote_error
  | DynParse nat
  | DynOther nat "dyn_error option"
and FtpError =
    ConnectionError io_error
  | SecureError string
  | InvalidAddress nat
  | UnexpectedResponse response
  | BadResponse
  | DataConnectionAlreadyOpen
and io_error = IoError io_kind "dyn_error option"
and remote_error = RemoteError remote_error_type "string option" "dyn_error option"

fun kind :: "remote_error \<Rightarrow> remote_error_type" where
  "kind (RemoteError k m s) = k"

fun source :: "remote_error \<Rightarrow> dyn_error option" where
  "source (RemoteError k m s) = s"

fun io_error_kind :: "io_error \<Rightarrow> io_kind" where
  "io_error_kind (IoError k c) = k"

text \<open>\<open>RemoteError::new\<close>, \<open>with_message\<close> and \<open>with_source\<close>.\<close>

definition new_error :: "remote_error_type \<Rightarrow> remote_error" where
  "new_error k = RemoteError k None None"

definition with_message :: "remote_error_type \<Rightarrow> string \<Rightarrow> remote_error" where
  "with_message k m = RemoteError k (Some m) None"

definition with_source :: "remote_error_type \<Rightarrow> dyn_error \<Rightarrow> remote_error" where
  "with_source k e = RemoteError k None (Some e)"

text \<open>
  \<open>Error::source\<close>: the cleanup failures of the clients expose their completion failure; an
  FTP transport error exposes the chain of its \<open>io::Error\<close>.
\<close>

fun source_of :: "dyn_error \<Rightarrow> dyn_error option" where
  "source_of (DynFtp (ConnectionError (IoError k c))) = c"
| "source_of (DynFtp _) = None"
| "source_of (DynRemote (RemoteError k m s)) = s"
| "source_of (DynListCleanupFailure read finish) = Some (DynRemote finish)"
| "source_of (DynCleanupFailure drain finish) = Some (DynRemote finish)"
| "source_of (DynSkipCleanupFailure skip finish) = Some (DynRemote finish)"
| "source_of (DynWriteCleanupFailure flush finish) = Some (DynRemote finish)"
| "source_of (DynParse n) = None"
| "source_of (DynOther n c) = c"

fun downcast_ftp :: "dyn_error \<Rightarrow> FtpError option" where
  "downcast_ftp (DynFtp e) = Some e"
| "downcast_ftp _ = None"

lemma kind_simps [simp]:
  "kind (new_error k) = k" "kind (with_message k m) = k" "kind (with_source k e) = k"
  by (simp_all add: new_error_def with_message_def with_source_def)

lemma source_simps [simp]:
  "source (new_error k) = None" "source (with_message k m) = None"
  "source (with_source k e) = Some e"
  by (simp_all add: new_error_def with_message_def with_source_def)

lemma source_of_remote [simp]: "source_of (DynRemote e) = source e"
  by (cases e) simp

lemma size_remote_error_pos [simp]: "0 < size (e :: remote_error)"
  by (cases e) simp

lemma source_of_smaller: "source_of e = Some d \<Longrightarrow> size d < size e"
  by (cases e rule: source_of.cases) auto

section \<open>Classification\<close>

text \<open>\<open>status_kind\<close>: the kind of a reply code the server used to refuse a command.\<close>

fun status_kind :: "status \<Rightarrow> remote_error_type" where
  "status_kind NotAvailable = KConnectionError"
| "status_kind CannotOpenDataConnection = KConnectionError"
| "status_kind TransferAborted = KConnectionError"
| "status_kind NotLoggedIn = KAuthenticationFailed"
| "status_kind StoringNeedAccount = KPermissionDenied"
| "status_kind BadFilename = KPermissionDenied"
| "status_kind FileUnavailable = KNoSuchFileOrDirectory"
| "status_kind BadCommand = KUnsupportedFeature"
| "status_kind BadArguments = KUnsupportedFeature"
| "status_kind NotImplemented = KUnsupportedFeature"
| "status_kind NotImplementedParameter = KUnsupportedFeature"
| "status_kind _ = KProtocolError"

fun ftp_error :: "FtpError \<Rightarrow> remote_error" where
  "ftp_error (ConnectionError io) = with_source KConnectionError (DynFtp (ConnectionError io))"
| "ftp_error (SecureError m) = with_source KConnectionError (DynFtp (SecureError m))"
| "ftp_error (InvalidAddress a) = with_source KBadAddress (DynFtp (InvalidAddress a))"
| "ftp_error (UnexpectedResponse r) =
     with_source (status_kind (status r)) (DynFtp (UnexpectedResponse r))"
| "ftp_error BadResponse = with_source KProtocolError (DynFtp BadResponse)"
| "ftp_error DataConnectionAlreadyOpen =
     with_source KProtocolError (DynFtp DataConnectionAlreadyOpen)"

fun transfer_setup_requires_reconnect :: "FtpError \<Rightarrow> bool" where
  "transfer_setup_requires_reconnect (ConnectionError _) = True"
| "transfer_setup_requires_reconnect BadResponse = True"
| "transfer_setup_requires_reconnect (SecureError _) = True"
| "transfer_setup_requires_reconnect (UnexpectedResponse r) = (status r = NotAvailable)"
| "transfer_setup_requires_reconnect (InvalidAddress _) = True"
| "transfer_setup_requires_reconnect DataConnectionAlreadyOpen = True"

text \<open>The loop over the error chain: the first \<open>FtpError\<close> decides, else the kind does.\<close>

function reconnect_loop :: "remote_error_type \<Rightarrow> dyn_error option \<Rightarrow> bool" where
  "reconnect_loop k None = (k = KConnectionError)"
| "reconnect_loop k (Some e) =
     (case downcast_ftp e of
        Some f \<Rightarrow> transfer_setup_requires_reconnect f
      | None \<Rightarrow> reconnect_loop k (source_of e))"
  by pat_completeness auto
termination
proof (relation "measure (\<lambda>(k, s). case s of None \<Rightarrow> 0 | Some e \<Rightarrow> Suc (size e))")
  fix k e
  show "((k, source_of e), k, Some e) \<in> measure (\<lambda>(k, s). case s of None \<Rightarrow> 0 | Some e \<Rightarrow> Suc (size e))"
    by (auto split: option.splits dest: source_of_smaller)
qed simp

definition remote_error_requires_reconnect :: "remote_error \<Rightarrow> bool" where
  "remote_error_requires_reconnect err = reconnect_loop (kind err) (source err)"

fun is_file_unavailable :: "FtpError \<Rightarrow> bool" where
  "is_file_unavailable (UnexpectedResponse r) = (status r = FileUnavailable)"
| "is_file_unavailable _ = False"

fun is_creation_refusal :: "FtpError \<Rightarrow> bool" where
  "is_creation_refusal (UnexpectedResponse r) = (status r = FileUnavailable \<or> status r = BadFilename)"
| "is_creation_refusal _ = False"

text \<open>This loop stops only at an FTP reply; other FTP errors on the chain are passed over.\<close>

function ambiguous_loop :: "dyn_error option \<Rightarrow> bool" where
  "ambiguous_loop None = False"
| "ambiguous_loop (Some e) =
     (case downcast_ftp e of
        Some (UnexpectedResponse r) \<Rightarrow> status r = FileUnavailable
      | _ \<Rightarrow> ambiguous_loop (source_of e))"
  by pat_completeness auto
termination
proof (relation "measure (\<lambda>s. case s of None \<Rightarrow> 0 | Some e \<Rightarrow> Suc (size e))")
  show "(source_of e, Some e) \<in> measure (\<lambda>s. case s of None \<Rightarrow> 0 | Some e \<Rightarrow> Suc (size e))" for e
    by (auto split: option.splits dest: source_of_smaller)
qed (auto split: option.splits dest: source_of_smaller)

definition is_ambiguous_path_refusal :: "remote_error \<Rightarrow> bool" where
  "is_ambiguous_path_refusal err = ambiguous_loop (source err)"

definition ambiguous_path_permission :: "remote_error \<Rightarrow> remote_error" where
  "ambiguous_path_permission err = with_source KPermissionDenied (DynRemote err)"

declare reconnect_loop.simps(2) [simp del] ambiguous_loop.simps(2) [simp del]

section \<open>What the loops compute\<close>

text \<open>The chain of an error as a list, and the FTP errors on it.\<close>

function chain :: "dyn_error option \<Rightarrow> dyn_error list" where
  "chain None = []"
| "chain (Some e) = e # chain (source_of e)"
  by pat_completeness auto
termination
proof (relation "measure (\<lambda>s. case s of None \<Rightarrow> 0 | Some e \<Rightarrow> Suc (size e))")
  show "(source_of e, Some e) \<in> measure (\<lambda>s. case s of None \<Rightarrow> 0 | Some e \<Rightarrow> Suc (size e))" for e
    by (auto split: option.splits dest: source_of_smaller)
qed simp

definition ftp_errors :: "remote_error \<Rightarrow> FtpError list" where
  "ftp_errors err = List.map_filter downcast_ftp (chain (source err))"

fun is_reply :: "FtpError \<Rightarrow> bool" where
  "is_reply (UnexpectedResponse r) = True"
| "is_reply _ = False"

lemma reconnect_loop_chain:
  "reconnect_loop k s =
     (case List.map_filter downcast_ftp (chain s) of
        [] \<Rightarrow> k = KConnectionError
      | f # _ \<Rightarrow> transfer_setup_requires_reconnect f)"
  by (induction k s rule: reconnect_loop.induct)
    (auto simp: reconnect_loop.simps(2) List.map_filter_simps split: option.splits)

lemma ambiguous_loop_chain:
  "ambiguous_loop s =
     (case filter is_reply (List.map_filter downcast_ftp (chain s)) of
        [] \<Rightarrow> False
      | f # _ \<Rightarrow> is_file_unavailable f)"
  by (induction s rule: ambiguous_loop.induct)
    (auto simp: ambiguous_loop.simps(2) List.map_filter_simps split: option.splits FtpError.splits)

lemma requires_reconnect_first:
  "remote_error_requires_reconnect err =
     (case ftp_errors err of [] \<Rightarrow> kind err = KConnectionError
      | f # _ \<Rightarrow> transfer_setup_requires_reconnect f)"
  by (simp add: remote_error_requires_reconnect_def ftp_errors_def reconnect_loop_chain)

lemma ambiguous_first:
  "is_ambiguous_path_refusal err =
     (case filter is_reply (ftp_errors err) of [] \<Rightarrow> False | f # _ \<Rightarrow> is_file_unavailable f)"
  by (simp add: is_ambiguous_path_refusal_def ftp_errors_def ambiguous_loop_chain)

lemma ftp_errors_with_source:
  "ftp_errors (with_source k e) =
     (case downcast_ftp e of Some f \<Rightarrow> f # List.map_filter downcast_ftp (chain (source_of e))
      | None \<Rightarrow> List.map_filter downcast_ftp (chain (source_of e)))"
  by (simp add: ftp_errors_def List.map_filter_simps split: option.splits)

lemma ftp_errors_plain [simp]:
  "ftp_errors (new_error k) = []" "ftp_errors (with_message k m) = []"
  "ftp_errors (with_source k (DynRemote e)) = ftp_errors e"
  by (simp_all add: ftp_errors_with_source)
    (simp_all add: ftp_errors_def List.map_filter_simps)

lemma ftp_errors_ftp_error: "\<exists>fs. ftp_errors (ftp_error e) = e # fs"
  by (cases e) (auto simp: ftp_errors_with_source)

lemma source_ftp_error [simp]: "source (ftp_error e) = Some (DynFtp e)"
  by (cases e) simp_all

lemma requires_reconnect_ftp_error [simp]:
  "remote_error_requires_reconnect (ftp_error e) = transfer_setup_requires_reconnect e"
  using ftp_errors_ftp_error [of e] by (auto simp: requires_reconnect_first)

lemma requires_reconnect_with_ftp [simp]:
  "remote_error_requires_reconnect (with_source k (DynFtp e)) = transfer_setup_requires_reconnect e"
  by (simp add: requires_reconnect_first ftp_errors_with_source)

lemma requires_reconnect_message [simp]:
  "remote_error_requires_reconnect (with_message k m) \<longleftrightarrow> k = KConnectionError"
  "remote_error_requires_reconnect (new_error k) \<longleftrightarrow> k = KConnectionError"
  by (simp_all add: requires_reconnect_first)

lemma ambiguous_ftp_reply [simp]:
  "is_ambiguous_path_refusal (with_source k (DynFtp (UnexpectedResponse r))) \<longleftrightarrow>
     status r = FileUnavailable"
  "is_ambiguous_path_refusal (ftp_error (UnexpectedResponse r)) \<longleftrightarrow> status r = FileUnavailable"
  by (simp_all add: ambiguous_first ftp_errors_with_source)

lemma ambiguous_message [simp]:
  "\<not> is_ambiguous_path_refusal (with_message k m)" "\<not> is_ambiguous_path_refusal (new_error k)"
  by (simp_all add: ambiguous_first)

lemma creation_refusal_no_reconnect: "is_creation_refusal e \<Longrightarrow> \<not> transfer_setup_requires_reconnect e"
  by (cases e) auto

lemma file_unavailable_creation: "is_file_unavailable e \<Longrightarrow> is_creation_refusal e"
  by (cases e) auto

section \<open>Two failures of one cleanup\<close>

text \<open>
  Closing a transfer runs two fallible steps (drain or flush or skip or read, then the
  completion reply) and reports one result. Every such routine of the clients keeps this
  contract, whatever kind it prefers: it succeeds when both steps did, a single failure is
  reported as it is, and two failures are wrapped with the completion failure below them.
\<close>

lemma wrapped_failures:
  "k = kind e \<or> k = kind f \<Longrightarrow> downcast_ftp d = None \<Longrightarrow> source_of d = Some (DynRemote f) \<Longrightarrow>
     \<exists>k' d'. with_source k d = with_source k' d' \<and> (k' = kind e \<or> k' = kind f)
       \<and> downcast_ftp d' = None \<and> source_of d' = Some (DynRemote f)"
  by blast

locale cleanup =
  fixes combine :: "remote_error + unit \<Rightarrow> remote_error + unit \<Rightarrow> remote_error + unit"
  assumes combine_ok: "combine (Inr ()) r = r"
    and combine_first: "combine (Inl e) (Inr ()) = Inl e"
    and combine_both: "\<exists>k d. combine (Inl e) (Inl f) = Inl (with_source k d)
      \<and> (k = kind e \<or> k = kind f) \<and> downcast_ftp d = None \<and> source_of d = Some (DynRemote f)"
begin

lemma combine_Inr_iff: "combine a b = Inr () \<longleftrightarrow> a = Inr () \<and> b = Inr ()"
proof (cases a)
  case (Inl e)
  then show ?thesis
    using combine_both [of e] combine_first [of e] by (cases b) (auto, metis Inl_Inr_False)
qed (use combine_ok in simp)

lemma combine_Inl_iff: "(\<exists>e. combine a b = Inl e) \<longleftrightarrow> (\<exists>e. a = Inl e) \<or> (\<exists>e. b = Inl e)"
  using combine_Inr_iff [of a b] by (cases "combine a b"; cases a; cases b) auto

lemma combine_finish_errors:
  "combine a (Inl f) = Inl c \<Longrightarrow> ftp_errors c = ftp_errors f"
proof (cases a)
  case (Inl e)
  assume "combine a (Inl f) = Inl c"
  with Inl combine_both [of e f] obtain k d where "c = with_source k d"
    "downcast_ftp d = None" "source_of d = Some (DynRemote f)" by auto
  then show ?thesis
    by (simp add: ftp_errors_with_source) (simp add: ftp_errors_def List.map_filter_simps)
next
  case (Inr u)
  assume "combine a (Inl f) = Inl c"
  with Inr combine_ok [of "Inl f"] show ?thesis by simp
qed

lemma combine_reconnect:
  "combine a (Inl f) = Inl c \<Longrightarrow> ftp_errors f \<noteq> [] \<Longrightarrow>
     remote_error_requires_reconnect c = remote_error_requires_reconnect f"
  by (simp add: requires_reconnect_first combine_finish_errors split: list.splits)

lemma combine_ambiguous:
  "combine a (Inl f) = Inl c \<Longrightarrow> is_ambiguous_path_refusal c = is_ambiguous_path_refusal f"
  by (simp add: ambiguous_first combine_finish_errors)

lemma combine_kind:
  "combine a b = Inl c \<Longrightarrow> (\<exists>e. a = Inl e \<and> kind c = kind e) \<or> (\<exists>e. b = Inl e \<and> kind c = kind e)"
proof (cases a; cases b)
  fix e f assume "a = Inl e" "b = Inl f" "combine a b = Inl c"
  with combine_both [of e f] show ?thesis by auto
qed (use combine_ok combine_first in auto)

end

end
