(* ===== verification/Remote_Path.thy ===== *)
theory Remote_Path
  imports Rust_Path Errors
begin

text \<open>
  Wire encoding of paths: \<open>src/src/client/path.rs\<close> (the POSIX build) and
  \<open>src/src/utils/path.rs\<close>. \<open>remotefs::path::ensure_absolute\<close> is the parameter \<open>ensure\<close>.
\<close>

section \<open>Definitions\<close>

type_synonym ensure_absolute = "string \<Rightarrow> remote_error + unit"

definition remote_path :: "ensure_absolute \<Rightarrow> string \<Rightarrow> remote_error + string" where
  "remote_path ensure path =
     (case ensure path of
        Inl e \<Rightarrow> Inl e
      | Inr _ \<Rightarrow>
          if \<not> valid_utf8 path
          then Inl (with_message KInvalidPath ''FTP paths must contain valid UTF-8'')
          else if \<not> starts_with ''/'' path
                  \<or> starts_with ''//'' path
                  \<or> list_ex is_ascii_control path
                  \<or> list_ex (\<lambda>c. c = ParentDir) (components path)
          then Inl (with_message KInvalidPath ''FTP paths must use a POSIX absolute root'')
          else Inr path)"

text \<open>On POSIX \<open>resolve\<close> copies the path.\<close>

definition resolve :: "string \<Rightarrow> string" where
  "resolve p = p"

definition absolutize :: "string \<Rightarrow> string \<Rightarrow> string" where
  "absolutize wrkdir target = (if is_absolute target then target else path_join wrkdir target)"

text \<open>What the documentation promises of \<open>ensure_absolute\<close>.\<close>

definition ensure_contract :: "ensure_absolute \<Rightarrow> bool" where
  "ensure_contract ensure \<longleftrightarrow>
     (\<forall>p. is_absolute p \<longrightarrow> ensure p = Inr ()) \<and>
     (\<forall>p. \<not> is_absolute p \<longrightarrow> (\<exists>e. ensure p = Inl e \<and> kind e = KInvalidPath))"

text \<open>A path that can be put on the wire.\<close>

definition wire_path :: "string \<Rightarrow> bool" where
  "wire_path p \<longleftrightarrow> valid_utf8 p \<and> is_absolute p \<and> \<not> starts_with ''//'' p
     \<and> (\<forall>c \<in> set p. \<not> is_ascii_control c) \<and> ParentDir \<notin> set (components p)"

section \<open>Lemmas\<close>

lemma remote_path_Inr_iff:
  "remote_path ensure p = Inr s \<longleftrightarrow> ensure p = Inr () \<and> s = p \<and> wire_path p"
  by (auto simp: remote_path_def wire_path_def list_ex_iff is_absolute_def split: sum.splits if_splits)

lemma remote_path_Inl_cases:
  "remote_path ensure p = Inl e \<Longrightarrow> ensure p = Inl e \<or> (ensure p = Inr () \<and> kind e = KInvalidPath)"
  by (auto simp: remote_path_def split: sum.splits if_splits)

lemma remote_path_wire: "remote_path ensure p = Inr s \<Longrightarrow> wire_path p \<and> s = p"
  by (simp add: remote_path_Inr_iff)

lemma remote_path_contract:
  assumes "ensure_contract ensure"
  shows "remote_path ensure p = Inr s \<longleftrightarrow> s = p \<and> wire_path p"
    and "(\<exists>e. remote_path ensure p = Inl e \<and> kind e = KInvalidPath) \<longleftrightarrow> \<not> wire_path p"
proof -
  show iff: "remote_path ensure p = Inr s \<longleftrightarrow> s = p \<and> wire_path p" for s
    using assms by (auto simp: remote_path_Inr_iff ensure_contract_def wire_path_def)
  show "(\<exists>e. remote_path ensure p = Inl e \<and> kind e = KInvalidPath) \<longleftrightarrow> \<not> wire_path p"
  proof (cases "remote_path ensure p")
    case (Inl e)
    moreover have "kind e = KInvalidPath"
      using remote_path_Inl_cases [OF Inl] assms unfolding ensure_contract_def
      by (metis Inl_Inr_False old.sum.inject(1))
    ultimately show ?thesis using iff [of p] by auto
  next
    case (Inr s)
    with iff [of s] show ?thesis by auto
  qed
qed

lemma starts_with_append: "starts_with p s \<Longrightarrow> starts_with p (s @ t)"
  unfolding starts_with_def by (metis append_take_drop_id same_append_eq append_assoc
      append_eq_conv_conj)

lemma wire_path_absolute: "wire_path p \<Longrightarrow> is_absolute p"
  by (simp add: wire_path_def)

lemma wire_path_root [simp]: "wire_path ''/''"
  by (simp add: wire_path_def is_absolute_def starts_with_def is_ascii_control_def valid_utf8_ascii)

text \<open>The parent of a path that can be sent can be sent.\<close>

lemma wire_path_parent:
  assumes "wire_path p" "parent p = Some q"
  shows "wire_path q"
proof -
  from assms(1) have abs: "is_absolute p" by (rule wire_path_absolute)
  obtain t where t: "p = q @ t" "t \<noteq> []" "hd t = CHR ''/'' \<or> q = ''/''"
    using parent_bytes [OF abs assms(2)] by blast
  have q: "is_absolute q" "components q = butlast (components p)"
    using parent_absolute [OF abs assms(2)] by auto
  have "valid_utf8 q"
  proof (cases "q = ''/''")
    case False
    with t have "is_boundary p (length q)"
      by (simp add: is_boundary_append is_cont_def)
    then show ?thesis using valid_utf8_split(1) [of q t] assms(1) t(1) by (simp add: wire_path_def)
  qed (simp add: valid_utf8_ascii)
  moreover have "\<not> starts_with ''//'' q"
    using assms(1) t(1) starts_with_append by (auto simp: wire_path_def)
  ultimately show ?thesis
    using q assms(1) t(1) by (auto simp: wire_path_def dest: in_set_butlastD)
qed

lemma wire_path_join:
  assumes "wire_path p" "child_name n" "valid_utf8 n" "\<forall>c \<in> set n. \<not> is_ascii_control c"
  shows "wire_path (path_join p n)"
proof -
  have j: "is_absolute (path_join p n)" "components (path_join p n) = components p @ [Normal n]"
    using path_join_components [OF wire_path_absolute [OF assms(1)] assms(2)] by auto
  obtain s where p: "p = CHR ''/'' # s" using wire_path_absolute [OF assms(1)] is_absolute_iff by blast
  have pj: "path_join p n = p @ n \<or> path_join p n = p @ ''/'' @ n"
    using child_not_absolute [OF assms(2)] by (simp add: path_join_def)
  have two: "\<not> starts_with ''//'' (path_join p n)"
  proof (cases s)
    case Nil
    then have "path_join p n = CHR ''/'' # n"
      using p child_not_absolute [OF assms(2)] by (simp add: path_join_def)
    then show ?thesis using assms(2) by (cases n) (auto simp: starts_with_def child_name_def)
  next
    case (Cons c r)
    with assms(1) p pj show ?thesis by (auto simp: starts_with_def wire_path_def)
  qed
  have "valid_utf8 (path_join p n)"
    using pj assms(1,3) valid_utf8_append [of p n] valid_utf8_append [of p "''/'' @ n"]
      valid_utf8_append [of "''/''" n] valid_utf8_ascii [of "''/''"]
    by (auto simp: wire_path_def)
  moreover have "\<forall>c \<in> set (path_join p n). \<not> is_ascii_control c"
    using pj assms(1,4) by (auto simp: wire_path_def is_ascii_control_def)
  ultimately show ?thesis using j two assms(1) by (simp add: wire_path_def)
qed

lemma absolutize_absolute: "is_absolute wrkdir \<Longrightarrow> is_absolute (absolutize wrkdir target)"
  by (auto simp: absolutize_def path_join_def is_absolute_iff)

end
