(* ===== verification/Listing.thy ===== *)
theory Listing
  imports Remote_Path
begin

text \<open>
  Decoding and validation of \<open>LIST\<close> output: the definitions of \<open>src/src/client/list.rs\<close>.
  Every slice of the source that panics off a character boundary is \<open>None\<close> here, so a result
  of the row checks is an \<open>option\<close> (did it panic) of a sum (did it refuse). The row parsers of
  \<open>suppaftp\<close> are a parameter, and a parsed row is what its accessors answer.
\<close>

section \<open>Data\<close>

datatype posix_pex_query = Owner | Group | Others

record ftp_file =
  ff_name :: string
  ff_is_symlink :: bool
  ff_is_directory :: bool
  ff_size :: nat
  ff_modified :: nat
  ff_gid :: "nat option"
  ff_uid :: "nat option"
  ff_symlink :: "string option"
  ff_can_read :: "posix_pex_query \<Rightarrow> bool"
  ff_can_write :: "posix_pex_query \<Rightarrow> bool"
  ff_can_execute :: "posix_pex_query \<Rightarrow> bool"

record list_parser =
  parse_posix :: "string \<Rightarrow> nat + ftp_file"
  parse_dos :: "string \<Rightarrow> nat + ftp_file"

datatype file_type = Directory | RegularFile | Symlink

type_synonym unix_pex_class = "bool \<times> bool \<times> bool"
type_synonym unix_pex = "unix_pex_class \<times> unix_pex_class \<times> unix_pex_class"

record metadata =
  md_file_type :: file_type
  md_size :: nat
  md_modified :: "nat option"
  md_mode :: "unix_pex option"
  md_gid :: "nat option"
  md_uid :: "nat option"
  md_symlink :: "string option"

record remote_file =
  f_path :: string
  f_metadata :: metadata

definition metadata_default :: metadata where
  "metadata_default = \<lparr> md_file_type = RegularFile, md_size = 0, md_modified = None,
     md_mode = None, md_gid = None, md_uid = None, md_symlink = None \<rparr>"

definition is_dir :: "remote_file \<Rightarrow> bool" where
  "is_dir f \<longleftrightarrow> md_file_type (f_metadata f) = Directory"

definition is_file :: "remote_file \<Rightarrow> bool" where
  "is_file f \<longleftrightarrow> md_file_type (f_metadata f) = RegularFile"

definition is_symlink :: "remote_file \<Rightarrow> bool" where
  "is_symlink f \<longleftrightarrow> md_file_type (f_metadata f) = Symlink"

section \<open>Bytes to lines\<close>

definition decode_list_bytes :: "string \<Rightarrow> FtpError + string list" where
  "decode_list_bytes bytes =
     (if valid_utf8 bytes
      then Inr (filter (\<lambda>line. line \<noteq> []) (str_lines bytes))
      else Inl BadResponse)"

section \<open>Fields of a row\<close>

text \<open>The scan of \<open>field_spans\<close>: the byte index, the open field and the bytes left.\<close>

fun spans_from :: "nat \<Rightarrow> nat option \<Rightarrow> string \<Rightarrow> (nat \<times> nat) list" where
  "spans_from i start [] = (case start of Some s \<Rightarrow> [(s, i)] | None \<Rightarrow> [])"
| "spans_from i start (c # cs) =
     (if is_ascii_whitespace c then
        (case start of Some s \<Rightarrow> (s, i) # spans_from (Suc i) None cs
         | None \<Rightarrow> spans_from (Suc i) None cs)
      else spans_from (Suc i) (case start of None \<Rightarrow> Some i | Some s \<Rightarrow> Some s) cs)"

definition field_spans :: "string \<Rightarrow> (nat \<times> nat) list" where
  "field_spans line = spans_from 0 None line"

definition first_in :: "string \<Rightarrow> string \<Rightarrow> bool" where
  "first_in cs line = (case line of [] \<Rightarrow> False | c # _ \<Rightarrow> c \<in> set cs)"

definition is_special :: "string \<Rightarrow> bool" where
  "is_special line = first_in ''bcpsD'' line"

definition is_posix :: "string \<Rightarrow> bool" where
  "is_posix line = first_in ''-ldbcpsD'' line"

definition ends_with_char :: "char \<Rightarrow> string \<Rightarrow> bool" where
  "ends_with_char c s \<longleftrightarrow> s \<noteq> [] \<and> last s = c"

definition normalize_special_posix_line :: "string \<Rightarrow> string option" where
  "normalize_special_posix_line line =
     (let spans = field_spans line in
      if \<not> (length spans > 5 \<and> first_in ''bc'' line) then Some line
      else do {
        major \<leftarrow> slice line (fst (spans ! 4)) (snd (spans ! 4));
        if \<not> (ends_with_char (CHR '','') major
              \<and> list_all is_ascii_digit (trim_end_char (CHR '','') major))
        then Some line
        else do {
          minor \<leftarrow> slice line (fst (spans ! 5)) (snd (spans ! 5));
          if \<not> list_all is_ascii_digit minor then Some line
          else replace_range line (fst (spans ! 4)) (snd (spans ! 5)) ''0''
        }
      })"

section \<open>Ambiguous names\<close>

definition has_unicode_whitespace_after_ascii_padding :: "string \<Rightarrow> bool" where
  "has_unicode_whitespace_after_ascii_padding text =
     (case chars (trim_start_matches ascii_ws_code text) of
        [] \<Rightarrow> False
      | c # _ \<Rightarrow> is_whitespace c)"

definition contains_unicode_whitespace :: "string \<Rightarrow> bool" where
  "contains_unicode_whitespace text = list_ex (\<lambda>c. is_whitespace c \<and> \<not> ascii_ws_code c) (chars text)"

definition protocol_error :: "string \<Rightarrow> remote_error + 'a" where
  "protocol_error m = Inl (with_message KProtocolError m)"

definition reject_ambiguous_posix_name_boundary :: "string \<Rightarrow> (remote_error + unit) option" where
  "reject_ambiguous_posix_name_boundary line = do {
     normalized \<leftarrow> (if is_special line then normalize_special_posix_line line else Some line);
     let spans = field_spans normalized;
     if is_posix line \<and> length spans \<ge> 9 \<and> Suc (snd (spans ! 7)) < fst (spans ! 8)
     then Some (protocol_error ''LIST returned a filename with an ambiguous leading-space boundary'')
     else do {
       metadata_ws \<leftarrow> (if is_posix line \<and> length spans > 7
                      then map_option contains_unicode_whitespace
                             (slice_to normalized (snd (spans ! 7)))
                      else Some False);
       if metadata_ws
       then Some (protocol_error ''LIST returned Unicode whitespace in its POSIX metadata'')
       else do {
         name_suffix \<leftarrow> (if length spans > 7 then slice_from normalized (snd (spans ! 7))
                        else Some []);
         if is_posix line \<and> name_suffix \<noteq> [] \<and> list_all is_whitespace (chars name_suffix)
         then Some (protocol_error ''LIST returned a filename made only of whitespace'')
         else do {
           padded \<leftarrow> (if is_posix line \<and> length spans \<ge> 8
                     then map_option has_unicode_whitespace_after_ascii_padding
                            (slice_from normalized (snd (spans ! 7)))
                     else Some False);
           if padded
           then Some (protocol_error
                  ''LIST returned a filename with an ambiguous Unicode-whitespace boundary'')
           else Some (Inr ())
         }
       }
     }
   }"

definition looks_like_dos_listing :: "string \<Rightarrow> bool" where
  "looks_like_dos_listing line \<longleftrightarrow>
     length line \<ge> 8 \<and> line ! 2 = CHR ''-'' \<and> line ! 5 = CHR ''-''
     \<and> is_ascii_digit (line ! 0) \<and> is_ascii_digit (line ! 1)
     \<and> is_ascii_digit (line ! 3) \<and> is_ascii_digit (line ! 4)
     \<and> is_ascii_digit (line ! 6) \<and> is_ascii_digit (line ! 7)"

definition padded_metadata_column :: nat where
  "padded_metadata_column = 24"

definition padded_name_column :: nat where
  "padded_name_column = 39"

text \<open>The end of the first marker found in the timestamp, \<open>AM\<close> being looked for first.\<close>

definition marker_end :: "nat \<Rightarrow> string \<Rightarrow> nat option" where
  "marker_end time_start timestamp_prefix =
     (case find_str ''AM'' timestamp_prefix of
        Some i \<Rightarrow> Some (time_start + i + length ''AM'')
      | None \<Rightarrow> (case find_str ''PM'' timestamp_prefix of
                   Some i \<Rightarrow> Some (time_start + i + length ''PM'')
                 | None \<Rightarrow> None))"

text \<open>The checks on what follows the timestamp of a DOS row, which ends at \<open>time_end\<close>.\<close>

definition reject_dos_rest :: "nat \<Rightarrow> string \<Rightarrow> (remote_error + unit) option" where
  "reject_dos_rest time_end rest =
     (if (case chars rest of [] \<Rightarrow> False | c # _ \<Rightarrow> is_whitespace c \<and> \<not> ascii_ws_code c)
      then Some (protocol_error
             ''LIST returned a DOS filename with an ambiguous Unicode-whitespace boundary'')
      else case find_char not_ascii_ws rest of
        None \<Rightarrow> Some (Inr ())
      | Some metadata_start \<Rightarrow> do {
          metadata \<leftarrow> slice_from rest metadata_start;
          let metadata_end = (case find_char ascii_ws_code metadata of
                                None \<Rightarrow> length metadata | Some i \<Rightarrow> i);
          metadata_token \<leftarrow> slice_to metadata metadata_end;
          after_metadata \<leftarrow> slice_from metadata metadata_end;
          if list_ex is_whitespace (chars after_metadata)
             \<and> list_all is_whitespace (chars after_metadata)
          then Some (protocol_error ''LIST returned a filename made only of whitespace'')
          else if has_unicode_whitespace_after_ascii_padding after_metadata
          then Some (protocol_error
                 ''LIST returned a filename with an ambiguous Unicode-whitespace boundary'')
          else
            (let separator = length (takeWhile is_ascii_whitespace after_metadata);
                 metadata_column = time_end + metadata_start;
                 name_start = time_end + metadata_start + metadata_end + separator;
                 is_supported_padded_layout =
                   (metadata_token = ''<DIR>'' \<and> metadata_column = padded_metadata_column
                    \<and> name_start = padded_name_column)
             in if separator > 1 \<and> \<not> is_supported_padded_layout
                then Some (protocol_error
                       ''LIST returned a DOS filename with an ambiguous leading-space boundary'')
                else Some (Inr ()))
        })"

definition reject_ambiguous_dos_name_boundary :: "string \<Rightarrow> (remote_error + unit) option" where
  "reject_ambiguous_dos_name_boundary line = do {
     tail \<leftarrow> slice_from line 8;
     (case find_char not_ascii_ws tail of
        None \<Rightarrow> Some (Inr ())
      | Some index \<Rightarrow> do {
          let time_start = index + 8;
          timestamp \<leftarrow> slice_from line time_start;
          let timestamp_prefix_end = (case char_index timestamp 8 of
                                        None \<Rightarrow> length timestamp | Some i \<Rightarrow> i);
          timestamp_prefix \<leftarrow> slice_to timestamp timestamp_prefix_end;
          (case marker_end time_start timestamp_prefix of
             None \<Rightarrow> Some (protocol_error ''LIST returned an unsupported DOS timestamp'')
           | Some time_end \<Rightarrow> do {
               rest \<leftarrow> slice_from line time_end;
               reject_dos_rest time_end rest
             })
        })
   }"

definition reject_ambiguous_list_name :: "string \<Rightarrow> (remote_error + unit) option" where
  "reject_ambiguous_list_name line = do {
     r \<leftarrow> reject_ambiguous_posix_name_boundary line;
     (case r of
        Inl e \<Rightarrow> Some (Inl e)
      | Inr _ \<Rightarrow>
          if starts_with ''l'' line \<and> count_matches '' -> '' line > 1
          then Some (protocol_error
            ''LIST returned a symlink name or target containing multiple ` -> ` separators'')
          else if \<not> starts_with ''-'' line \<and> \<not> starts_with ''l'' line \<and> \<not> starts_with ''d'' line
                  \<and> looks_like_dos_listing line
          then reject_ambiguous_dos_name_boundary line
          else Some (Inr ()))
   }"

section \<open>Rows to entries\<close>

definition parse_list_entry :: "list_parser \<Rightarrow> string \<Rightarrow> (nat + ftp_file) option" where
  "parse_list_entry P line =
     (let or_dos = (\<lambda>r. case r of Inr f \<Rightarrow> Inr f | Inl _ \<Rightarrow> parse_dos P line) in
      if is_special line then do {
        normalized \<leftarrow> normalize_special_posix_line line;
        normalized \<leftarrow> replace_range normalized 0 1 ''-'';
        Some (or_dos (parse_posix P normalized))
      }
      else Some (or_dos (parse_posix P line)))"

definition validate_list_child_name :: "string \<Rightarrow> remote_error + unit" where
  "validate_list_child_name name =
     (let has_path_separator = list_ex (\<lambda>b. b = CHR ''/'') name;
          is_direct_child =
            (name \<noteq> [] \<and> name \<noteq> ''.'' \<and> name \<noteq> ''..''
             \<and> \<not> list_ex is_ascii_control name
             \<and> \<not> has_path_separator
             \<and> length (components name) = 1
             \<and> (case components name of Normal _ # _ \<Rightarrow> True | _ \<Rightarrow> False))
      in if is_direct_child then Inr ()
         else protocol_error (''LIST returned an unsafe child name: '' @ debug_str name))"

definition query_unix_pex :: "ftp_file \<Rightarrow> unix_pex" where
  "query_unix_pex f =
     ((ff_can_read f Owner, ff_can_write f Owner, ff_can_execute f Owner),
      (ff_can_read f Group, ff_can_write f Group, ff_can_execute f Group),
      (ff_can_read f Others, ff_can_write f Others, ff_can_execute f Others))"

definition entry_metadata :: "string \<Rightarrow> ftp_file \<Rightarrow> metadata" where
  "entry_metadata path f =
     \<lparr> md_file_type = (if ff_is_symlink f then Symlink
                       else if ff_is_directory f then Directory else RegularFile),
       md_size = ff_size f,
       md_modified = Some (ff_modified f),
       md_mode = Some (query_unix_pex f),
       md_gid = ff_gid f,
       md_uid = ff_uid f,
       md_symlink = map_option (absolutize path) (ff_symlink f) \<rparr>"

definition parse_row :: "list_parser \<Rightarrow> string \<Rightarrow> string \<Rightarrow> (remote_error + remote_file option) option" where
  "parse_row P path line = do {
     r \<leftarrow> reject_ambiguous_list_name line;
     (case r of
        Inl e \<Rightarrow> Some (Inl e)
      | Inr _ \<Rightarrow> do {
          parsed \<leftarrow> parse_list_entry P line;
          Some (case parsed of
             Inl err \<Rightarrow> Inl (with_source KProtocolError (DynParse err))
           | Inr f \<Rightarrow>
               if ff_name f = ''.'' \<or> ff_name f = ''..'' then Inr None
               else (case validate_list_child_name (ff_name f) of
                  Inl e \<Rightarrow> Inl e
                | Inr _ \<Rightarrow> Inr (Some \<lparr> f_path = path_join path (ff_name f),
                                       f_metadata = entry_metadata path f \<rparr>)))
        })
   }"

text \<open>Collecting into a \<open>Result\<close> stops at the first refused row.\<close>

fun parse_rows ::
  "list_parser \<Rightarrow> string \<Rightarrow> string list \<Rightarrow> (remote_error + remote_file option list) option" where
  "parse_rows P path [] = Some (Inr [])"
| "parse_rows P path (line # lines) = do {
     r \<leftarrow> parse_row P path line;
     (case r of
        Inl e \<Rightarrow> Some (Inl e)
      | Inr entry \<Rightarrow> do {
          rs \<leftarrow> parse_rows P path lines;
          Some (case rs of Inl e \<Rightarrow> Inl e | Inr entries \<Rightarrow> Inr (entry # entries))
        })
   }"

definition is_total_line :: "string \<Rightarrow> bool" where
  "is_total_line line =
     (case strip_prefix ''total '' line of
        None \<Rightarrow> False
      | Some count \<Rightarrow> count \<noteq> [] \<and> list_all is_ascii_digit count)"

definition parse_list_lines ::
  "list_parser \<Rightarrow> string \<Rightarrow> string list \<Rightarrow> (remote_error + remote_file list) option" where
  "parse_list_lines P path lines = do {
     let rows = map snd (filter (\<lambda>(index, line). \<not> (index = 0 \<and> is_total_line line))
                           (List.enumerate 0 lines));
     rs \<leftarrow> parse_rows P path rows;
     Some (case rs of Inl e \<Rightarrow> Inl e | Inr entries \<Rightarrow> Inr (List.map_filter id entries))
   }"

end
