(* ===== verification/Listing_Rows.thy ===== *)
theory Listing_Rows
  imports Listing
begin

text \<open>
  Facts about the rows of a listing: where \<open>field_spans\<close> puts the fields, that every offset the
  checks slice at is a character boundary, and hence that no row, however malformed, makes
  the checks or the parser panic.
\<close>

section \<open>Where the fields are\<close>

text \<open>
  \<open>spans_cover line i sp\<close>: from byte \<open>i\<close> on, the spans are exactly the maximal runs of bytes
  that are not ASCII whitespace.
\<close>

fun spans_cover :: "string \<Rightarrow> nat \<Rightarrow> (nat \<times> nat) list \<Rightarrow> bool" where
  "spans_cover line i [] \<longleftrightarrow> (\<forall>k. i \<le> k \<and> k < length line \<longrightarrow> is_ascii_whitespace (line ! k))"
| "spans_cover line i ((a, b) # sp) \<longleftrightarrow>
     i \<le> a \<and> a < b \<and> b \<le> length line
     \<and> (\<forall>k. i \<le> k \<and> k < a \<longrightarrow> is_ascii_whitespace (line ! k))
     \<and> (\<forall>k. a \<le> k \<and> k < b \<longrightarrow> \<not> is_ascii_whitespace (line ! k))
     \<and> (b < length line \<longrightarrow> is_ascii_whitespace (line ! b))
     \<and> spans_cover line b sp"

lemma spans_cover_skip:
  "spans_cover line (Suc i) sp \<Longrightarrow> is_ascii_whitespace (line ! i) \<Longrightarrow> spans_cover line i sp"
proof (cases sp)
  case Nil
  assume "spans_cover line (Suc i) sp" "is_ascii_whitespace (line ! i)"
  with Nil show ?thesis by (metis Suc_leI le_neq_implies_less spans_cover.simps(1))
next
  case (Cons ab sp')
  assume a: "spans_cover line (Suc i) sp" "is_ascii_whitespace (line ! i)"
  obtain a b where "ab = (a, b)" by fastforce
  with Cons a show ?thesis by simp (metis Suc_leI le_neq_implies_less)
qed

lemma spans_from_cover:
  "spans_cover (pre @ s) (length pre) (spans_from (length pre) None s)"
  "\<exists>b sp. spans_from (length pre) (Some a) s = (a, b) # sp
     \<and> length pre \<le> b \<and> b \<le> length (pre @ s)
     \<and> (\<forall>k. length pre \<le> k \<and> k < b \<longrightarrow> \<not> is_ascii_whitespace ((pre @ s) ! k))
     \<and> (b < length (pre @ s) \<longrightarrow> is_ascii_whitespace ((pre @ s) ! b))
     \<and> spans_cover (pre @ s) b sp"
proof (induction s arbitrary: pre a)
  case Nil
  { case 1 show ?case by auto }
  { case 2 show ?case by auto }
next
  case (Cons c s)
  have app: "pre @ c # s = (pre @ [c]) @ s" "Suc (length pre) = length (pre @ [c])"
    by simp_all
  have nth: "(pre @ c # s) ! length pre = c" by simp
  {
    case 1
    show ?case
    proof (cases "is_ascii_whitespace c")
      case True
      then show ?thesis
        using Cons.IH(1) [of "pre @ [c]"] nth by (auto intro: spans_cover_skip)
    next
      case False
      obtain b sp where b: "spans_from (length (pre @ [c])) (Some (length pre)) s = (length pre, b) # sp"
        "length (pre @ [c]) \<le> b" "b \<le> length (pre @ c # s)"
        "\<forall>k. length (pre @ [c]) \<le> k \<and> k < b \<longrightarrow> \<not> is_ascii_whitespace ((pre @ c # s) ! k)"
        "b < length (pre @ c # s) \<longrightarrow> is_ascii_whitespace ((pre @ c # s) ! b)"
        "spans_cover (pre @ c # s) b sp"
        using Cons.IH(2) [of "pre @ [c]" "length pre"] by auto
      have "\<not> is_ascii_whitespace ((pre @ c # s) ! k)" if "length pre \<le> k \<and> k < b" for k
        using that b(4) False nth by (cases "k = length pre") auto
      with False b show ?thesis by simp
    qed
  }
  {
    case 2
    show ?case
    proof (cases "is_ascii_whitespace c")
      case True
      then show ?thesis
        using Cons.IH(1) [of "pre @ [c]"] nth by (auto intro: spans_cover_skip)
    next
      case False
      obtain b sp where b: "spans_from (length (pre @ [c])) (Some a) s = (a, b) # sp"
        "length (pre @ [c]) \<le> b" "b \<le> length (pre @ c # s)"
        "\<forall>k. length (pre @ [c]) \<le> k \<and> k < b \<longrightarrow> \<not> is_ascii_whitespace ((pre @ c # s) ! k)"
        "b < length (pre @ c # s) \<longrightarrow> is_ascii_whitespace ((pre @ c # s) ! b)"
        "spans_cover (pre @ c # s) b sp"
        using Cons.IH(2) [of "pre @ [c]" a] by auto
      have "\<not> is_ascii_whitespace ((pre @ c # s) ! k)" if "length pre \<le> k \<and> k < b" for k
        using that b(4) False nth by (cases "k = length pre") auto
      with False b show ?thesis by simp
    qed
  }
qed

lemma field_spans_cover: "spans_cover line 0 (field_spans line)"
  using spans_from_cover(1) [of "[]" line] by (simp add: field_spans_def)

text \<open>Consequences for one field and for two neighbours.\<close>

lemma spans_cover_nth:
  "spans_cover line i sp \<Longrightarrow> j < length sp \<Longrightarrow>
     i \<le> fst (sp ! j) \<and> fst (sp ! j) < snd (sp ! j) \<and> snd (sp ! j) \<le> length line
     \<and> (\<forall>k. fst (sp ! j) \<le> k \<and> k < snd (sp ! j) \<longrightarrow> \<not> is_ascii_whitespace (line ! k))
     \<and> (snd (sp ! j) < length line \<longrightarrow> is_ascii_whitespace (line ! snd (sp ! j)))
     \<and> (i < fst (sp ! j) \<longrightarrow> is_ascii_whitespace (line ! (fst (sp ! j) - 1)))"
proof (induction line i sp arbitrary: j rule: spans_cover.induct)
  case (2 line i a b sp)
  show ?case
  proof (cases j)
    case 0
    with "2.prems" show ?thesis by auto
  next
    case (Suc m)
    with "2.prems" have m: "m < length sp" "spans_cover line b sp" by auto
    note IH = "2.IH" [OF m(2,1)]
    have "b \<noteq> fst (sp ! m)"
    proof
      assume eq: "b = fst (sp ! m)"
      with IH have "\<not> is_ascii_whitespace (line ! b)" "b < length line" by auto
      with "2.prems" show False by simp
    qed
    with IH have "b < fst (sp ! m)" by simp
    with IH "2.prems" Suc show ?thesis by auto
  qed
qed simp

lemma spans_cover_gap:
  "spans_cover line i sp \<Longrightarrow> Suc j < length sp \<Longrightarrow>
     snd (sp ! j) < fst (sp ! Suc j)
     \<and> (\<forall>k. snd (sp ! j) \<le> k \<and> k < fst (sp ! Suc j) \<longrightarrow> is_ascii_whitespace (line ! k))"
proof (induction line i sp arbitrary: j rule: spans_cover.induct)
  case (2 line i a b sp)
  show ?case
  proof (cases j)
    case 0
    with "2.prems" obtain c d sp' where sp: "sp = (c, d) # sp'" by (cases sp) auto
    with "2.prems" have "b \<noteq> c" by auto
    with sp 0 "2.prems" show ?thesis by auto
  next
    case (Suc m)
    with "2.prems" "2.IH" [of m] show ?thesis by auto
  qed
qed simp

lemmas field_spans_nth = spans_cover_nth [OF field_spans_cover]
lemmas field_spans_gap = spans_cover_gap [OF field_spans_cover]

text \<open>Fields start and end on character boundaries.\<close>

lemma ascii_ws_byte: "is_ascii_whitespace c \<Longrightarrow> byte c < 128"
  by (auto simp: is_ascii_whitespace_def ascii_ws_code_def)

lemma field_boundary:
  assumes "valid_utf8 line" "j < length (field_spans line)"
  shows "is_boundary line (fst (field_spans line ! j))" "is_boundary line (snd (field_spans line ! j))"
proof -
  let ?a = "fst (field_spans line ! j)" and ?b = "snd (field_spans line ! j)"
  note f = field_spans_nth [OF assms(2)]
  show "is_boundary line ?b"
    using f ascii_ws_byte boundary_at_ascii [of ?b line] by (cases "?b = length line") auto
  show "is_boundary line ?a"
  proof (cases "?a = 0")
    case False
    with f have "is_ascii_whitespace (line ! (?a - 1))" "?a - 1 < length line" by auto
    with boundary_after_ascii [OF assms(1), of "?a - 1"] ascii_ws_byte False show ?thesis by simp
  qed simp
qed

section \<open>No panic\<close>

lemma boundary_take: "is_boundary s n \<Longrightarrow> is_boundary (take n s) i \<Longrightarrow> is_boundary s i"
  by (auto simp: is_boundary_def min_def split: if_splits)

lemma boundary_drop_length [simp]: "is_boundary (drop i s) (length s - i)"
  using boundary_length [of "drop i s"] by simp

lemma slice_from_valid:
  "valid_utf8 s \<Longrightarrow> is_boundary s i \<Longrightarrow> \<exists>t. slice_from s i = Some t \<and> valid_utf8 t \<and> t = drop i s"
  by (simp add: slice_from_def valid_utf8_drop)

lemma slice_to_valid:
  "valid_utf8 s \<Longrightarrow> is_boundary s i \<Longrightarrow> \<exists>t. slice_to s i = Some t \<and> valid_utf8 t \<and> t = take i s"
  by (simp add: slice_to_def valid_utf8_take)

lemma replace_range_valid:
  assumes "valid_utf8 s" "is_boundary s i" "is_boundary s j" "i \<le> j" "valid_utf8 r"
  shows "\<exists>t. replace_range s i j r = Some t \<and> valid_utf8 t \<and> t = take i s @ r @ drop j s"
  using assms by (simp add: replace_range_def valid_utf8_append valid_utf8_take valid_utf8_drop)

text \<open>The two outcomes of normalising a row: unchanged, or fields 4 and 5 become \<open>0\<close>.\<close>

lemma normalize_cases:
  assumes "valid_utf8 line"
  obtains "normalize_special_posix_line line = Some line"
  | "normalize_special_posix_line line =
       Some (take (fst (field_spans line ! 4)) line @ ''0'' @ drop (snd (field_spans line ! 5)) line)"
    "5 < length (field_spans line)" "first_in ''bc'' line"
proof (cases "5 < length (field_spans line) \<and> first_in ''bc'' line")
  case False
  then show ?thesis by (intro that(1)) (auto simp: normalize_special_posix_line_def Let_def)
next
  case True
  then have b: "is_boundary line (fst (field_spans line ! 4))" "is_boundary line (snd (field_spans line ! 4))"
    "is_boundary line (fst (field_spans line ! 5))" "is_boundary line (snd (field_spans line ! 5))"
    using field_boundary [OF assms] by simp_all
  have o: "fst (field_spans line ! 4) < snd (field_spans line ! 4)"
    "snd (field_spans line ! 4) < fst (field_spans line ! 5)"
    "fst (field_spans line ! 5) < snd (field_spans line ! 5)"
    using True field_spans_nth [of 4 line] field_spans_nth [of 5 line] field_spans_gap [of 4 line]
    by simp_all
  have sl: "\<exists>major minor. slice line (fst (field_spans line ! 4)) (snd (field_spans line ! 4)) = Some major
    \<and> slice line (fst (field_spans line ! 5)) (snd (field_spans line ! 5)) = Some minor"
    using b o by (simp add: slice_def)
  have rr: "replace_range line (fst (field_spans line ! 4)) (snd (field_spans line ! 5)) ''0'' =
    Some (take (fst (field_spans line ! 4)) line @ ''0'' @ drop (snd (field_spans line ! 5)) line)"
    using b o by (simp add: replace_range_def)
  from sl True have "normalize_special_posix_line line = Some line \<or>
    normalize_special_posix_line line =
      replace_range line (fst (field_spans line ! 4)) (snd (field_spans line ! 5)) ''0''"
    by (auto simp: normalize_special_posix_line_def Let_def)
  with rr True that show ?thesis by metis
qed

lemma normalize_valid:
  assumes "valid_utf8 line"
  obtains t where "normalize_special_posix_line line = Some t" "valid_utf8 t"
    "line \<noteq> [] \<Longrightarrow> t \<noteq> [] \<and> hd t = hd line"
proof (cases rule: normalize_cases [OF assms])
  case 1
  with assms that show ?thesis by blast
next
  case 2
  then have b: "is_boundary line (fst (field_spans line ! 4))" "is_boundary line (snd (field_spans line ! 5))"
    using field_boundary [OF assms] by simp_all
  have "0 < fst (field_spans line ! 4)"
    using 2(2) field_spans_gap [of 3 line] by simp
  moreover have "valid_utf8 (take (fst (field_spans line ! 4)) line @ ''0'' @ drop (snd (field_spans line ! 5)) line)"
    using assms b
    by (intro valid_utf8_append valid_utf8_take valid_utf8_drop) (simp_all add: valid_utf8_ascii)
  ultimately show ?thesis using 2(1)
    by (intro that [of "take (fst (field_spans line ! 4)) line @ ''0'' @ drop (snd (field_spans line ! 5)) line"])
      simp_all
qed

lemma reject_posix_no_panic:
  assumes "valid_utf8 line"
  shows "reject_ambiguous_posix_name_boundary line \<noteq> None"
proof -
  obtain t where t: "(if is_special line then normalize_special_posix_line line else Some line) = Some t"
    "valid_utf8 t"
    using normalize_valid [OF assms] assms by (metis (full_types))
  have b: "7 < length (field_spans t) \<Longrightarrow> is_boundary t (snd (field_spans t ! 7))"
    using field_boundary(2) [OF t(2)] by blast
  show ?thesis
    unfolding reject_ambiguous_posix_name_boundary_def t(1)
    using b by (auto simp: Let_def slice_to_def slice_from_def)
qed

lemma digit_ascii: "is_ascii_digit c \<Longrightarrow> byte c < 128"
  by (simp add: is_ascii_digit_def)

lemma reject_dos_rest_no_panic:
  assumes "valid_utf8 rest"
  shows "reject_dos_rest time_end rest \<noteq> None"
proof (cases "find_char not_ascii_ws rest")
  case (Some i)
  then have b: "is_boundary rest i" using find_char_boundary [OF assms] by blast
  then have v: "valid_utf8 (drop i rest)" by (rule valid_utf8_drop [OF assms])
  let ?stop = "case find_char ascii_ws_code (drop i rest) of None \<Rightarrow> length (drop i rest) | Some i \<Rightarrow> i"
  have "is_boundary (drop i rest) ?stop"
    using find_char_boundary [OF v] by (auto split: option.splits)
  with Some b show ?thesis
    by (auto simp: reject_dos_rest_def Let_def slice_from_def slice_to_def)
qed (simp add: reject_dos_rest_def)

lemma marker_end_boundary:
  assumes "valid_utf8 pre" "marker_end start pre = Some e"
  shows "\<exists>k. e = start + k \<and> is_boundary pre k"
proof -
  have "find_str m pre = Some i \<Longrightarrow> m = ''AM'' \<or> m = ''PM'' \<Longrightarrow> is_boundary pre (i + length m)" for m i
    using find_str_boundary [OF assms(1), of m i] by auto
  with assms(2) show ?thesis
    by (fastforce simp: marker_end_def split: option.splits)
qed

lemma reject_dos_no_panic:
  assumes "valid_utf8 line" "looks_like_dos_listing line"
  shows "reject_ambiguous_dos_name_boundary line \<noteq> None"
proof -
  from assms have b8: "is_boundary line 8"
    using boundary_after_ascii [OF assms(1), of 7]
    by (auto simp: looks_like_dos_listing_def digit_ascii)
  then have v8: "valid_utf8 (drop 8 line)" by (rule valid_utf8_drop [OF assms(1)])
  show ?thesis
  proof (cases "find_char not_ascii_ws (drop 8 line)")
    case None
    with b8 show ?thesis by (simp add: reject_ambiguous_dos_name_boundary_def slice_from_def)
  next
    case (Some i)
    let ?start = "i + 8" and ?ts = "drop (i + 8) line"
    let ?pe = "case char_index ?ts 8 of None \<Rightarrow> length ?ts | Some i \<Rightarrow> i"
    have bs: "is_boundary line ?start"
      using boundary_trans [OF b8] find_char_boundary [OF v8 Some] by (simp add: add.commute)
    then have vs: "valid_utf8 ?ts" by (rule valid_utf8_drop [OF assms(1)])
    have bp: "is_boundary ?ts ?pe" using char_index_boundary [OF vs] by (auto split: option.splits)
    then have vp: "valid_utf8 (take ?pe ?ts)" by (rule valid_utf8_take [OF vs])
    show ?thesis
    proof (cases "marker_end ?start (take ?pe ?ts)")
      case None
      with Some b8 bs bp show ?thesis
        by (simp add: reject_ambiguous_dos_name_boundary_def slice_from_def slice_to_def Let_def)
    next
      case (Some e)
      with marker_end_boundary [OF vp] obtain k where k: "e = ?start + k"
        "is_boundary (take ?pe ?ts) k" by blast
      then have be: "is_boundary line e"
        using boundary_trans [OF bs] boundary_take [OF bp] by blast
      with reject_dos_rest_no_panic [OF valid_utf8_drop [OF assms(1) be]]
        Some \<open>find_char not_ascii_ws (drop 8 line) = Some i\<close> b8 bs bp
      show ?thesis
        by (simp add: reject_ambiguous_dos_name_boundary_def slice_from_def slice_to_def Let_def)
    qed
  qed
qed

lemma reject_name_no_panic:
  assumes "valid_utf8 line" shows "reject_ambiguous_list_name line \<noteq> None"
  using reject_posix_no_panic [OF assms] reject_dos_no_panic [OF assms]
  by (auto simp: reject_ambiguous_list_name_def split: sum.splits)

lemma parse_entry_no_panic:
  assumes "valid_utf8 line" shows "parse_list_entry P line \<noteq> None"
proof (cases "is_special line")
  case True
  then obtain c s where line: "line = c # s" "byte c < 128"
    by (auto simp: is_special_def first_in_def split: list.splits)
  obtain t where t: "normalize_special_posix_line line = Some t" "valid_utf8 t" "t \<noteq> []" "hd t = c"
    using normalize_valid [OF assms] line(1) by (metis list.distinct(1) list.sel(1))
  then have "is_boundary t 1"
    using boundary_after_ascii [OF t(2), of 0] line(2) by (simp add: hd_conv_nth)
  with True t(1) show ?thesis by (simp add: parse_list_entry_def replace_range_def Let_def)
qed (simp add: parse_list_entry_def)

lemma parse_row_no_panic:
  assumes "valid_utf8 line" shows "parse_row P path line \<noteq> None"
  using reject_name_no_panic [OF assms] parse_entry_no_panic [OF assms, of P]
  by (auto simp: parse_row_def split: sum.splits)

lemma parse_rows_no_panic:
  "\<forall>line \<in> set lines. valid_utf8 line \<Longrightarrow> parse_rows P path lines \<noteq> None"
proof (induction lines)
  case (Cons line lines)
  then show ?case using parse_row_no_panic [of line P path] by (auto split: sum.splits)
qed simp

lemma parse_lines_no_panic:
  assumes "\<forall>line \<in> set lines. valid_utf8 line"
  shows "parse_list_lines P path lines \<noteq> None"
proof -
  let ?rows = "map snd (filter (\<lambda>(index, line). \<not> (index = 0 \<and> is_total_line line)) (List.enumerate 0 lines))"
  have "set ?rows \<subseteq> snd ` set (List.enumerate 0 lines)" by force
  also have "\<dots> = set lines" by (metis map_snd_enumerate set_map)
  finally have "set ?rows \<subseteq> set lines" .
  with assms have "\<forall>line \<in> set ?rows. valid_utf8 line" by blast
  from parse_rows_no_panic [OF this, of P path] show ?thesis
    by (auto simp: parse_list_lines_def Let_def)
qed

end
