(* ===== verification/Listing_Words.thy ===== *)
theory Listing_Words
  imports Listing_Rows
begin

text \<open>
  The fields of a row as text: the scan of \<open>field_spans\<close> agrees with the obvious
  \<open>split_ascii_whitespace\<close>, and the fields before and after a cut at a field are a prefix and
  a suffix of the fields.
\<close>

section \<open>Fields as words\<close>

definition fields :: "string \<Rightarrow> string list" where
  "fields line = map (\<lambda>(a, b). take (b - a) (drop a line)) (field_spans line)"

text \<open>The reference: skip whitespace, take a word, repeat.\<close>

function words :: "string \<Rightarrow> string list" where
  "words s =
     (let t = dropWhile is_ascii_whitespace s in
      if t = [] then []
      else takeWhile (\<lambda>c. \<not> is_ascii_whitespace c) t
           # words (dropWhile (\<lambda>c. \<not> is_ascii_whitespace c) t))"
  by pat_completeness auto
termination
proof (relation "measure length")
  fix s t :: string
  assume t: "t = dropWhile is_ascii_whitespace s" "t \<noteq> []"
  then have "\<not> is_ascii_whitespace (hd t)" by (metis hd_dropWhile)
  with t(2) have "length (dropWhile (\<lambda>c. \<not> is_ascii_whitespace c) t) < length t"
    by (cases t) (auto simp: le_imp_less_Suc length_dropWhile_le)
  also have "\<dots> \<le> length s" using t(1) by (simp add: length_dropWhile_le)
  finally show "(dropWhile (\<lambda>c. \<not> is_ascii_whitespace c) t, s) \<in> measure length" by simp
qed simp

declare words.simps [simp del]

lemma words_Nil [simp]: "words [] = []"
  by (subst words.simps) simp

lemma words_skip: "is_ascii_whitespace c \<Longrightarrow> words (c # s) = words s"
  by (subst (1 2) words.simps) simp

lemma words_skip_all: "\<forall>c \<in> set u. is_ascii_whitespace c \<Longrightarrow> words (u @ s) = words s"
  by (induction u) (auto simp: words_skip)

lemma words_all_ws [simp]: "\<forall>c \<in> set u. is_ascii_whitespace c \<Longrightarrow> words u = []"
  using words_skip_all [of u "[]"] by simp

lemma words_word:
  assumes "w \<noteq> []" "\<forall>c \<in> set w. \<not> is_ascii_whitespace c" "s = [] \<or> is_ascii_whitespace (hd s)"
  shows "words (w @ s) = w # words s"
proof -
  have "dropWhile is_ascii_whitespace (w @ s) = w @ s" using assms(1,2) by (cases w) auto
  moreover have "takeWhile (\<lambda>c. \<not> is_ascii_whitespace c) (w @ s) = w"
    using assms(2,3) by (cases s) (auto simp: takeWhile_append2)
  moreover have "dropWhile (\<lambda>c. \<not> is_ascii_whitespace c) (w @ s) = s"
    using assms(2,3) by (cases s) auto
  ultimately show ?thesis using assms(1) by (subst words.simps) simp
qed

lemma words_append:
  "t = [] \<or> is_ascii_whitespace (hd t) \<Longrightarrow> words (s @ t) = words s @ words t"
proof (induction s rule: words.induct)
  case (1 s)
  let ?ws = is_ascii_whitespace and ?nw = "\<lambda>c. \<not> is_ascii_whitespace c"
  obtain u v where uv: "s = u @ v" "\<forall>c \<in> set u. ?ws c" "v = dropWhile ?ws s"
    by (metis set_takeWhileD takeWhile_dropWhile_id)
  show ?case
  proof (cases "v = []")
    case True
    with uv show ?thesis using words_skip_all [of u t] by simp
  next
    case False
    have hd: "?nw (hd v)" using False uv(3) by (metis hd_dropWhile)
    define w r where w_def: "w = takeWhile ?nw v" and r_def: "r = dropWhile ?nw v"
    then have wr: "v = w @ r" "\<forall>c \<in> set w. ?nw c" "r = dropWhile ?nw v"
      by (auto dest: set_takeWhileD)
    have ne: "w \<noteq> []" using w_def hd False by (cases v) auto
    have r: "r = [] \<or> ?ws (hd r)" using wr(3) hd_dropWhile [of ?nw v] by auto
    have IH: "words (r @ t) = words r @ words t"
      using "1.IH" [OF uv(3) False "1.prems"] unfolding r_def .
    have "words (v @ t) = w # words (r @ t)"
      using words_word [of w "r @ t"] ne wr(1,2) r "1.prems" by (cases r) auto
    also have "\<dots> = words v @ words t"
      using IH words_word [of w r] ne wr(1,2) r by simp
    finally show ?thesis using uv(1,2) words_skip_all by simp
  qed
qed

lemma words_append':
  assumes "s = [] \<or> is_ascii_whitespace (last s)" shows "words (s @ t) = words s @ words t"
proof (cases s rule: rev_cases)
  case (snoc s' c)
  with assms have c: "is_ascii_whitespace c" by simp
  have "words (s' @ c # t) = words s' @ words (c # t)" using c by (intro words_append) simp
  moreover have "words (s' @ [c]) = words s' @ words [c]" using c by (intro words_append) simp
  ultimately show ?thesis using snoc c by (simp add: words_skip)
qed simp

lemma cover_words:
  "spans_cover line i sp \<Longrightarrow>
     words (drop i line) = map (\<lambda>(a, b). take (b - a) (drop a line)) sp"
proof (induction line i sp rule: spans_cover.induct)
  case (1 line i)
  then have "\<forall>c \<in> set (drop i line). is_ascii_whitespace c"
    by (auto simp: in_set_conv_nth)
  then show ?case by simp
next
  case (2 line i a b sp)
  let ?u = "take (a - i) (drop i line)" and ?w = "take (b - a) (drop a line)"
  have d: "drop i line = ?u @ ?w @ drop b line"
    using "2.prems" by (simp add: drop_drop [symmetric] del: drop_drop)
      (metis append_take_drop_id drop_drop le_add_diff_inverse2 less_imp_le)
  have u: "\<forall>c \<in> set ?u. is_ascii_whitespace c"
    using "2.prems" by (auto simp: in_set_conv_nth)
  have w: "?w \<noteq> []" "\<forall>c \<in> set ?w. \<not> is_ascii_whitespace c"
    using "2.prems" by (auto simp: in_set_conv_nth)
  have r: "drop b line = [] \<or> is_ascii_whitespace (hd (drop b line))"
    using "2.prems" by (auto simp: hd_drop_conv_nth)
  from "2.prems" have "words (drop b line) = map (\<lambda>(a, b). take (b - a) (drop a line)) sp"
    by (intro "2.IH") simp
  then have "words (?w @ drop b line) = map (\<lambda>(a, b). take (b - a) (drop a line)) ((a, b) # sp)"
    using words_word [OF w r] by simp
  moreover have "words (drop i line) = words (?w @ drop b line)"
    using words_skip_all [OF u, of "?w @ drop b line"] d by metis
  ultimately show ?case by (simp only:)
qed

lemma fields_words: "fields line = words line"
  using cover_words [OF field_spans_cover [of line]] by (simp add: fields_def)

lemma cover_drop:
  "spans_cover line i sp \<Longrightarrow> j < length sp \<Longrightarrow>
     spans_cover line (fst (sp ! j)) (drop j sp) \<and> spans_cover line (snd (sp ! j)) (drop (Suc j) sp)"
  by (induction line i sp arbitrary: j rule: spans_cover.induct) (auto simp: nth_Cons' drop_Cons' less_Suc_eq_0_disj)

lemma words_from_field:
  assumes "j < length (field_spans line)"
  shows "words (drop (fst (field_spans line ! j)) line) = drop j (words line)"
    and "words (drop (snd (field_spans line ! j)) line) = drop (Suc j) (words line)"
proof -
  note c = cover_drop [OF field_spans_cover assms]
  have f: "words line = map (\<lambda>(a, b). take (b - a) (drop a line)) (field_spans line)"
    using fields_words [of line] by (simp add: fields_def)
  show "words (drop (fst (field_spans line ! j)) line) = drop j (words line)"
    using cover_words [OF conjunct1 [OF c]] f by (simp add: drop_map)
  show "words (drop (snd (field_spans line ! j)) line) = drop (Suc j) (words line)"
    using cover_words [OF conjunct2 [OF c]] f by (simp add: drop_map)
qed

lemma length_words [simp]: "length (words line) = length (field_spans line)"
  by (simp add: fields_words [symmetric] fields_def)

lemma words_before_field:
  assumes "j < length (field_spans line)"
  shows "words (take (fst (field_spans line ! j)) line) = take j (words line)"
proof -
  let ?a = "fst (field_spans line ! j)"
  have "take ?a line = [] \<or> is_ascii_whitespace (last (take ?a line))"
    using field_spans_nth [OF assms] by (cases "?a = 0") (auto simp: last_conv_nth min_def)
  then have "words line = words (take ?a line) @ drop j (words line)"
    using words_append' [of "take ?a line" "drop ?a line"] words_from_field(1) [OF assms] by simp
  then have "words (take ?a line) @ drop j (words line) = take j (words line) @ drop j (words line)"
    by simp
  then show ?thesis by (simp only: append_same_eq)
qed

end
