(* ===== verification/Listing_Facts.thy ===== *)
theory Listing_Facts
  imports Listing_Words
begin

text \<open>
  Facts about whole listings: decoding gives well-formed lines and inverts the server's
  encoding, a row is handled in one of five ways, collecting rows is pointwise with the
  first refusal winning, and every refusal is a protocol error.
\<close>

section \<open>Decoding\<close>

lemma valid_utf8_split_on:
  assumes "byte d < 128"
  shows "valid_utf8 s \<Longrightarrow> x \<in> set (split_on d s) \<Longrightarrow> valid_utf8 x"
proof (induction "split_on d s" arbitrary: s)
  case (Cons y ys)
  show ?case
  proof (cases "ys = []")
    case True
    with Cons.hyps(2) have "s = y" by (metis join_split_on join_with.simps(2))
    with True Cons show ?thesis by (metis list.set_cases list.distinct(1) set_ConsD)
  next
    case False
    then have s: "s = y @ d # join_with d ys"
      using Cons.hyps(2) by (metis join_split_on join_with.simps(3) neq_Nil_conv)
    have "is_boundary s (length y)" using s assms by (intro boundary_at_ascii) auto
    with valid_utf8_split [of y "d # join_with d ys"] Cons.prems(1) s
    have v: "valid_utf8 y" "valid_utf8 (d # join_with d ys)" by auto
    then have "valid_utf8 (join_with d ys)"
      using assms by (auto simp: valid_utf8_def utf8_decode_Cons_ascii)
    moreover have "split_on d (join_with d ys) = ys"
      using False Cons.hyps(2) by (metis list.set_intros(2) split_join_with split_on_free)
    ultimately show ?thesis
      using v(1) Cons.prems(2) Cons.hyps(1) [of "join_with d ys"] by (metis Cons.hyps(2) set_ConsD)
  qed
qed simp

lemma valid_utf8_strip_cr: "valid_utf8 l \<Longrightarrow> valid_utf8 (strip_cr l)"
proof (cases l rule: rev_cases)
  case (snoc l' c)
  assume v: "valid_utf8 l"
  show ?thesis
  proof (cases "c = CHR 0x0D")
    case True
    then have "is_boundary (l' @ [c]) (length l')" by (intro boundary_at_ascii) auto
    with v snoc True show ?thesis by (auto simp: strip_cr_def dest: valid_utf8_split(1))
  qed (use v snoc in \<open>simp add: strip_cr_def\<close>)
qed (simp add: strip_cr_def)

lemma str_lines_valid:
  assumes "valid_utf8 s" "l \<in> set (str_lines s)" shows "valid_utf8 l"
  using assms valid_utf8_split_on [of "CHR 0x0A" s]
  by (fastforce simp: str_lines_def Let_def intro!: valid_utf8_strip_cr dest: in_set_butlastD
      split: if_splits)

lemma decoded_lines_valid: "decode_list_bytes bytes = Inr lines \<Longrightarrow> \<forall>l \<in> set lines. valid_utf8 l"
  by (auto simp: decode_list_bytes_def str_lines_valid split: if_splits)

text \<open>A listing as a server sends it: every line ended by a carriage return and a line feed.\<close>

definition encode_listing :: "string list \<Rightarrow> string" where
  "encode_listing ls = concat (map (\<lambda>l. l @ [CHR 0x0D, CHR 0x0A]) ls)"

text \<open>Lines with their terminators.\<close>

fun terminated :: "string \<times> string \<Rightarrow> bool" where
  "terminated (l, eol) = (CHR 0x0A \<notin> set l
     \<and> (eol = [CHR 0x0D, CHR 0x0A] \<or> eol = [CHR 0x0A] \<and> (l = [] \<or> last l \<noteq> CHR 0x0D)))"

lemma split_terminated:
  "list_all terminated rows \<Longrightarrow> CHR 0x0A \<notin> set tail \<Longrightarrow>
     split_on (CHR 0x0A) (concat (map (\<lambda>(l, eol). l @ eol) rows) @ tail)
       = map (\<lambda>(l, eol). l @ butlast eol) rows @ [tail]"
proof (induction rows)
  case Nil
  then show ?case by (simp add: split_on_no_sep)
next
  case (Cons r rows)
  obtain l eol where r: "r = (l, eol)" by fastforce
  with Cons.prems have e: "l @ eol = (l @ butlast eol) @ [CHR 0x0A]" "CHR 0x0A \<notin> set (l @ butlast eol)" by auto
  then have "split_on (CHR 0x0A) ((l @ butlast eol) @ CHR 0x0A # concat (map (\<lambda>(l, eol). l @ eol) rows) @ tail)
      = (l @ butlast eol) # split_on (CHR 0x0A) (concat (map (\<lambda>(l, eol). l @ eol) rows) @ tail)"
    by (intro split_on_append_sep)
  moreover have "concat (map (\<lambda>(l, eol). l @ eol) (r # rows)) @ tail
      = (l @ butlast eol) @ CHR 0x0A # concat (map (\<lambda>(l, eol). l @ eol) rows) @ tail"
    using r e(1) by simp
  moreover have "split_on (CHR 0x0A) (concat (map (\<lambda>(l, eol). l @ eol) rows) @ tail)
      = map (\<lambda>(l, eol). l @ butlast eol) rows @ [tail]" using Cons by simp
  ultimately show ?case unfolding r by (simp only: list.map prod.case append_Cons)
qed

lemma strip_terminated: "terminated (l, eol) \<Longrightarrow> strip_cr (l @ butlast eol) = l"
  by (auto simp: strip_cr_def)

lemma lines_terminated:
  assumes "list_all terminated rows" "CHR 0x0A \<notin> set tail"
  shows "filter (\<lambda>l. l \<noteq> []) (str_lines (concat (map (\<lambda>(l, eol). l @ eol) rows) @ tail))
    = filter (\<lambda>l. l \<noteq> []) (map fst rows @ [tail])"
proof -
  have "map strip_cr (map (\<lambda>(l, eol). l @ butlast eol) rows) = map fst rows"
    using assms(1) strip_terminated by (auto simp: list_all_iff simp del: terminated.simps)
  then show ?thesis
    unfolding str_lines_def split_terminated [OF assms] by (simp add: Let_def del: map_map)
qed

text \<open>A text is well formed exactly when its pieces around an ASCII byte are.\<close>

lemma valid_utf8_around:
  assumes "byte c < 128"
  shows "valid_utf8 (s @ c # t) \<longleftrightarrow> valid_utf8 s \<and> valid_utf8 t"
proof
  assume v: "valid_utf8 (s @ c # t)"
  have "is_boundary (s @ c # t) (length s)" using assms by (intro boundary_at_ascii) auto
  from valid_utf8_take [OF v this] have "valid_utf8 s" by simp
  moreover have "is_boundary (s @ c # t) (Suc (length s))"
    using assms by (intro boundary_after_ascii [OF v]) auto
  from valid_utf8_drop [OF v this] have "valid_utf8 t" by simp
  ultimately show "valid_utf8 s \<and> valid_utf8 t" by simp
next
  assume "valid_utf8 s \<and> valid_utf8 t"
  with assms valid_utf8_append [of s "[c] @ t"] valid_utf8_append [of "[c]" t] valid_utf8_ascii [of "[c]"]
  show "valid_utf8 (s @ c # t)" by simp
qed

lemma valid_terminated:
  "list_all terminated rows \<Longrightarrow>
     valid_utf8 (concat (map (\<lambda>(l, eol). l @ eol) rows) @ tail) \<longleftrightarrow> list_all valid_utf8 (map fst rows @ [tail])"
proof (induction rows)
  case (Cons r rows)
  obtain l eol where r: "r = (l, eol)" by fastforce
  let ?rest = "concat (map (\<lambda>(l, eol). l @ eol) rows) @ tail"
  have b: "byte (CHR 0x0A) < 128" "byte (CHR 0x0D) < 128" by code_simp+
  have "valid_utf8 (l @ eol @ ?rest) \<longleftrightarrow> valid_utf8 l \<and> valid_utf8 ?rest"
    using Cons.prems r valid_utf8_around [OF b(1), of l ?rest] valid_utf8_around [OF b(2), of l "CHR 0x0A # ?rest"]
      valid_utf8_around [OF b(1), of "[]" ?rest] by auto
  with Cons r show ?case by simp
qed simp


section \<open>Rows and entries\<close>

text \<open>The rows of a listing: a leading block count is not one.\<close>

definition listing_rows :: "string list \<Rightarrow> string list" where
  "listing_rows lines =
     (case lines of [] \<Rightarrow> [] | l # ls \<Rightarrow> if is_total_line l then ls else lines)"

lemma filter_enumerate_Suc:
  "map snd (filter (\<lambda>(i, l). \<not> (i = 0 \<and> Q l)) (List.enumerate (Suc n) ls)) = ls"
proof -
  have "filter (\<lambda>(i, l). \<not> (i = 0 \<and> Q l)) (List.enumerate (Suc n) ls) = List.enumerate (Suc n) ls"
    by (intro filter_True) (auto simp: in_set_enumerate_eq)
  then show ?thesis by simp
qed

lemma parse_list_lines_rows:
  "parse_list_lines P path lines =
     map_option (map_sum id (List.map_filter id)) (parse_rows P path (listing_rows lines))"
proof (cases lines)
  case Nil
  then show ?thesis by (simp add: parse_list_lines_def listing_rows_def List.map_filter_simps)
next
  case (Cons l ls)
  then have "map snd (filter (\<lambda>(index, line). \<not> (index = 0 \<and> is_total_line line))
      (List.enumerate 0 lines)) = listing_rows lines"
    using filter_enumerate_Suc [of is_total_line 0 ls] by (simp add: listing_rows_def)
  then show ?thesis
    by (cases "parse_rows P path (listing_rows lines)")
      (auto simp: parse_list_lines_def split: sum.splits)
qed

lemma parse_rows_Inr:
  "parse_rows P path ls = Some (Inr es) \<longleftrightarrow>
     list_all2 (\<lambda>l e. parse_row P path l = Some (Inr e)) ls es"
proof (induction ls arbitrary: es)
  case (Cons l ls)
  show ?case
  proof (cases "\<exists>f. parse_row P path l = Some (Inr f)")
    case True
    then obtain f where f: "parse_row P path l = Some (Inr f)" by blast
    have "parse_rows P path (l # ls) = Some (Inr es) \<longleftrightarrow>
      (\<exists>gs. parse_rows P path ls = Some (Inr gs) \<and> es = f # gs)"
    proof (cases "parse_rows P path ls")
      case (Some a)
      with f show ?thesis by (cases a) auto
    qed (use f in simp)
    also have "\<dots> \<longleftrightarrow> list_all2 (\<lambda>l e. parse_row P path l = Some (Inr e)) (l # ls) es"
      using f by (auto simp: Cons.IH list_all2_Cons1)
    finally show ?thesis .
  next
    case False
    then show ?thesis
      by (cases "parse_row P path l") (auto simp: list_all2_Cons1 split: sum.splits)
  qed
qed auto

lemma parse_rows_Inl:
  "parse_rows P path ls = Some (Inl e) \<Longrightarrow>
     \<exists>pre l post. ls = pre @ l # post \<and> parse_row P path l = Some (Inl e)
       \<and> (\<forall>k \<in> set pre. \<exists>f. parse_row P path k = Some (Inr f))"
proof (induction ls)
  case (Cons l ls)
  then obtain r where r: "parse_row P path l = Some r" by (cases "parse_row P path l") auto
  show ?case
  proof (cases r)
    case (Inl d)
    with r Cons.prems show ?thesis by (intro exI [of _ "[]"] exI [of _ l] exI [of _ ls]) simp
  next
    case (Inr f)
    with r Cons.prems have "parse_rows P path ls = Some (Inl e)"
      by (cases "parse_rows P path ls") (auto split: sum.splits)
    with Cons.IH obtain pre k post where "ls = pre @ k # post"
      "parse_row P path k = Some (Inl e)" "\<forall>k \<in> set pre. \<exists>f. parse_row P path k = Some (Inr f)"
      by blast
    with r Inr show ?thesis by (intro exI [of _ "l # pre"] exI [of _ k] exI [of _ post]) auto
  qed
qed simp

lemma validate_child_iff:
  "validate_list_child_name name = Inr () \<longleftrightarrow>
     child_name name \<and> (\<forall>c \<in> set name. \<not> is_ascii_control c)"
proof -
  have "components name = [Normal name]" if "child_name name"
  proof -
    obtain c s where name: "name = c # s" using \<open>child_name name\<close> by (cases name) (auto simp: child_name_def)
    have "split_on (CHR ''/'') name = [name]" using that by (simp add: child_name_def split_on_no_sep)
    moreover have "(c = CHR ''/'') = False" using that name by (metis child_name_def list.set_intros(1))
    moreover have "name \<noteq> ''.''" using that by (simp add: child_name_def)
    ultimately show ?thesis
      using child_name_component [OF that] name by (simp only: components.simps Let_def) simp
  qed
  then show ?thesis
    by (auto simp: validate_list_child_name_def protocol_error_def Let_def list_ex_iff child_name_def)
qed

lemma validate_child_cases:
  "validate_list_child_name name = Inr () \<or>
     (\<exists>e. validate_list_child_name name = Inl e \<and> kind e = KProtocolError)"
  by (auto simp: validate_list_child_name_def protocol_error_def Let_def)

text \<open>The ways a row is handled, in the order of the source.\<close>

lemma parse_row_cases:
  assumes "parse_row P path line = Some r"
  obtains (ambiguous) e where "reject_ambiguous_list_name line = Some (Inl e)" "r = Inl e"
  | (unparsed) err where "reject_ambiguous_list_name line = Some (Inr ())"
      "parse_list_entry P line = Some (Inl err)" "r = Inl (with_source KProtocolError (DynParse err))"
  | (dot) g where "reject_ambiguous_list_name line = Some (Inr ())"
      "parse_list_entry P line = Some (Inr g)" "ff_name g = ''.'' \<or> ff_name g = ''..''" "r = Inr None"
  | (unsafe) g e where "reject_ambiguous_list_name line = Some (Inr ())"
      "parse_list_entry P line = Some (Inr g)" "validate_list_child_name (ff_name g) = Inl e" "r = Inl e"
  | (child) g where "reject_ambiguous_list_name line = Some (Inr ())"
      "parse_list_entry P line = Some (Inr g)" "validate_list_child_name (ff_name g) = Inr ()"
      "r = Inr (Some \<lparr> f_path = path_join path (ff_name g), f_metadata = entry_metadata path g \<rparr>)"
proof -
  from assms obtain q where q: "reject_ambiguous_list_name line = Some q"
    by (auto simp: parse_row_def bind_eq_Some_conv)
  show ?thesis
  proof (cases q)
    case (Inl e)
    with assms q show ?thesis by (intro ambiguous [of e]) (auto simp: parse_row_def)
  next
    case (Inr u)
    with assms q obtain p where p: "parse_list_entry P line = Some p"
      by (auto simp: parse_row_def bind_eq_Some_conv)
    show ?thesis
    proof (cases p)
      case (Inl err)
      with assms q Inr p show ?thesis by (intro unparsed) (auto simp: parse_row_def)
    next
      case (Inr g)
      note g = Inr
      show ?thesis
      proof (cases "ff_name g = ''.'' \<or> ff_name g = ''..''")
        case True
        with assms q \<open>q = Inr u\<close> p g show ?thesis by (intro dot) (auto simp: parse_row_def)
      next
        case False
        with assms q \<open>q = Inr u\<close> p g show ?thesis
          by (cases "validate_list_child_name (ff_name g)")
            (auto simp: parse_row_def intro: unsafe child)
      qed
    qed
  qed
qed

lemma parse_row_entry:
  assumes "parse_row P path line = Some (Inr (Some f))"
  obtains g where "child_name (ff_name g)" "\<forall>c \<in> set (ff_name g). \<not> is_ascii_control c"
    "f_path f = path_join path (ff_name g)" "f_metadata f = entry_metadata path g"
    "parse_list_entry P line = Some (Inr g)"
  using assms by (cases rule: parse_row_cases) (auto simp: validate_child_iff)

lemma parse_list_entries:
  assumes "parse_list_lines P path lines = Some (Inr fs)" "f \<in> set fs"
  obtains line where "line \<in> set (listing_rows lines)" "parse_row P path line = Some (Inr (Some f))"
proof -
  from assms(1) obtain es where es: "parse_rows P path (listing_rows lines) = Some (Inr es)"
    "fs = List.map_filter id es"
    by (cases "parse_rows P path (listing_rows lines)")
      (auto simp: parse_list_lines_rows map_sum_def split: sum.splits)
  then have "Some f \<in> set es" using assms(2) by (auto simp: List.map_filter_def)
  then show ?thesis using es(1) that
    by (auto simp: parse_rows_Inr list_all2_conv_all_nth in_set_conv_nth) (metis nth_mem)
qed

text \<open>A check refuses a row with a protocol error only.\<close>

definition protocol_refusal :: "(remote_error + 'a) option \<Rightarrow> bool" where
  "protocol_refusal r \<longleftrightarrow> (\<forall>e. r = Some (Inl e) \<longrightarrow> kind e = KProtocolError)"

lemma protocol_refusal_intros:
  "protocol_refusal (Some (protocol_error m))" "protocol_refusal (Some (Inr x))"
  "(\<And>y. protocol_refusal (f y)) \<Longrightarrow> protocol_refusal (Option.bind v f)"
  "protocol_refusal t \<Longrightarrow> protocol_refusal u \<Longrightarrow> protocol_refusal (if b then t else u)"
  "protocol_refusal t \<Longrightarrow> (\<And>y. protocol_refusal (f y)) \<Longrightarrow>
     protocol_refusal (case v of None \<Rightarrow> t | Some y \<Rightarrow> f y)"
  "(\<And>y. protocol_refusal (f y)) \<Longrightarrow> protocol_refusal (Let w f)"
  by (auto simp: protocol_refusal_def protocol_error_def bind_eq_Some_conv split: option.splits)

lemma reject_dos_kind: "protocol_refusal (reject_ambiguous_dos_name_boundary line)"
  unfolding reject_ambiguous_dos_name_boundary_def reject_dos_rest_def
  by (intro protocol_refusal_intros)

lemma reject_posix_kind: "protocol_refusal (reject_ambiguous_posix_name_boundary line)"
  unfolding reject_ambiguous_posix_name_boundary_def by (intro protocol_refusal_intros)

lemma reject_name_kind: "protocol_refusal (reject_ambiguous_list_name line)"
proof (cases "reject_ambiguous_posix_name_boundary line")
  case (Some q)
  show ?thesis
  proof (cases q)
    case (Inl d)
    with Some reject_posix_kind [of line] show ?thesis
      by (simp add: reject_ambiguous_list_name_def protocol_refusal_def)
  next
    case (Inr u)
    with Some show ?thesis
      by (simp add: reject_ambiguous_list_name_def protocol_refusal_intros reject_dos_kind)
  qed
qed (simp add: reject_ambiguous_list_name_def protocol_refusal_def)

lemma row_error_kind:
  assumes "parse_row P path line = Some (Inl e)" shows "kind e = KProtocolError"
  using assms
proof (cases rule: parse_row_cases)
  case (ambiguous d)
  with reject_name_kind [of line] show ?thesis by (simp add: protocol_refusal_def)
next
  case (unsafe g d)
  with validate_child_cases [of "ff_name g"] show ?thesis by auto
qed simp_all

lemma list_error_kind:
  assumes "parse_list_lines P path lines = Some (Inl e)" shows "kind e = KProtocolError"
proof -
  from assms have "parse_rows P path (listing_rows lines) = Some (Inl e)"
    by (cases "parse_rows P path (listing_rows lines)")
      (auto simp: parse_list_lines_rows map_sum_def split: sum.splits)
  then show ?thesis using parse_rows_Inl row_error_kind by blast
qed

end
