(* ===== verification/Listing_Boundary.thy ===== *)
theory Listing_Boundary
  imports Listing_Facts
begin

text \<open>
  Helper facts on where a row is cut: the fields up to a field, the padding before a name and
  the end of the first token, each at a character boundary.
\<close>

lemma chars_nonempty: "valid_utf8 s \<Longrightarrow> s \<noteq> [] \<Longrightarrow> chars s \<noteq> []"
  using char_list_concat [of s] by (auto simp: chars_def)

lemma words_upto_field:
  assumes "j < length (field_spans line)"
  shows "words (take (snd (field_spans line ! j)) line) = take (Suc j) (words line)"
proof -
  let ?b = "snd (field_spans line ! j)"
  have "drop ?b line = [] \<or> is_ascii_whitespace (hd (drop ?b line))"
    using field_spans_nth [OF assms] by (cases "?b < length line") (auto simp: hd_drop_conv_nth)
  then have "words line = words (take ?b line) @ drop (Suc j) (words line)"
    using words_append [of "drop ?b line" "take ?b line"] words_from_field(2) [OF assms] by simp
  then have "words (take ?b line) @ drop (Suc j) (words line) = take (Suc j) (words line) @ drop (Suc j) (words line)"
    by simp
  then show ?thesis by (simp only: append_same_eq)
qed

lemma padding_check:
  assumes "valid_utf8 s" "\<not> has_unicode_whitespace_after_ascii_padding s"
  shows "dropWhile is_ascii_whitespace s = [] \<or> \<not> is_whitespace (hd (chars (dropWhile is_ascii_whitespace s)))"
proof -
  have "valid_utf8 (dropWhile is_ascii_whitespace s)"
    using valid_utf8_drop [OF assms(1) dropWhile_ws_boundary [OF assms(1)]]
    by (simp add: drop_takeWhile_length)
  with chars_nonempty [OF this] assms(2) trim_start_ascii_ws [OF assms(1)] show ?thesis
    by (auto simp: has_unicode_whitespace_after_ascii_padding_def split: list.splits)
qed

lemma takeWhile_not_ws_concat:
  "\<forall>c \<in> set cs. is_enc c \<Longrightarrow>
     takeWhile (\<lambda>c. \<not> is_ascii_whitespace c) (concat (map snd cs))
       = concat (map snd (takeWhile (\<lambda>c. \<not> ascii_ws_code (fst c)) cs))"
proof (induction cs)
  case (Cons c cs)
  obtain n e where c: "c = (n, e)" by fastforce
  with Cons.prems have enc: "is_enc (n, e)" by simp
  obtain a r where e: "e = a # r" "\<forall>c \<in> set r. is_cont c" using is_enc_bytes [OF enc] by (cases e) auto
  show ?case
  proof (cases "ascii_ws_code n")
    case True
    with c e enc_ascii_ws [OF enc] show ?thesis by simp
  next
    case False
    have "\<forall>c \<in> set e. \<not> is_ascii_whitespace c"
      using e enc_ascii_ws [OF enc] False ascii_ws_not_cont by auto
    with False Cons c show ?thesis by (simp add: takeWhile_append2)
  qed
qed simp

lemma find_ascii_ws:
  assumes "valid_utf8 s"
  shows "(case find_char ascii_ws_code s of None \<Rightarrow> length s | Some i \<Rightarrow> i)
     = length (takeWhile (\<lambda>c. \<not> is_ascii_whitespace c) s)"
proof -
  let ?cs = "char_list s" and ?P = "\<lambda>c :: nat \<times> string. \<not> ascii_ws_code (fst c)"
  have s: "concat (map snd ?cs) = s" using char_list_concat [OF assms] by simp
  have tw: "takeWhile (\<lambda>c. \<not> is_ascii_whitespace c) s = concat (map snd (takeWhile ?P ?cs))"
    using takeWhile_not_ws_concat [OF char_list_enc [of s]] s by simp
  show ?thesis
  proof (cases "\<exists>c \<in> set ?cs. ascii_ws_code (fst c)")
    case False
    then have "takeWhile ?P ?cs = ?cs" by (simp add: takeWhile_eq_all_conv)
    with tw s have "length (takeWhile (\<lambda>c. \<not> is_ascii_whitespace c) s) = length s" by metis
    with False show ?thesis by (simp add: find_char_def find_in_eq)
  qed (use tw in \<open>simp add: find_char_def find_in_eq\<close>)
qed

section \<open>DOS rows\<close>

lemma find_str_first:
  "find_str p (a @ p @ b) = Some (length a) \<Longrightarrow> find_str p (a @ p) = Some (length a)"
proof (induction a)
  case Nil
  then show ?case by (cases p) (simp_all add: starts_with_def)
next
  case (Cons c a)
  have "take (length p) ((c # a @ p) @ b) = take (length p) (c # a @ p)" by (subst take_append) simp
  then have "starts_with p (c # a @ p) \<Longrightarrow> starts_with p (c # a @ p @ b)" by (simp add: starts_with_def)
  with Cons show ?case by (auto split: if_splits)
qed

lemma name_determined:
  assumes "pad @ token @ sep @ name = pad' @ token' @ sep' @ name'"
    and "list_all is_ascii_whitespace (pad @ sep)" "\<not> list_ex is_ascii_whitespace token"
    and "list_all is_ascii_whitespace (pad' @ sep')" "\<not> list_ex is_ascii_whitespace token'" "token' \<noteq> []" "sep' \<noteq> []"
    and "length sep \<le> 1" "token = [] \<longrightarrow> sep @ name = []" "sep = [] \<longrightarrow> name = []"
    and "name = [] \<or> \<not> is_ascii_whitespace (hd name)"
  shows "name' = name"
proof -
  let ?ws = is_ascii_whitespace and ?nw = "\<lambda>c. \<not> is_ascii_whitespace c"
  have tw: "takeWhile ?ws (p @ t @ x) = p" if "list_all ?ws p" "t @ x = [] \<or> t \<noteq> [] \<and> \<not> list_ex ?ws t" for p t x
    using that by (cases t) (auto simp: list_all_iff takeWhile_append2)
  have "takeWhile ?ws (pad @ token @ sep @ name) = pad" using assms(2,3,9) by (intro tw) auto
  moreover have "takeWhile ?ws (pad' @ token' @ sep' @ name') = pad'" using assms(4-6) by (intro tw) auto
  ultimately have t: "token @ sep @ name = token' @ sep' @ name'" using assms(1) by simp
  have w: "takeWhile ?nw (t @ x) = t" if "\<not> list_ex ?ws t" "x = [] \<or> ?ws (hd x)" for t x
    using that by (cases x) (auto simp: list_ex_iff takeWhile_append2)
  have "?ws (hd (sep @ name))" if "sep @ name \<noteq> []" using assms(2,10) that by (cases sep) auto
  then have "takeWhile ?nw (token @ sep @ name) = token" by (intro w assms(3)) auto
  moreover have "takeWhile ?nw (token' @ sep' @ name') = token'"
    using assms(4,7) by (intro w assms(5)) (cases sep'; simp)
  ultimately have "sep @ name = sep' @ name'" using t by simp
  with assms(7,8,10) obtain x r where s: "sep = [x]" "sep' = x # r" "name = r @ name'"
    by (cases sep; cases sep') auto
  with assms(4,11) show ?thesis by (cases r) auto
qed

lemma dos_rest_boundary:
  assumes v: "valid_utf8 rest" and acc: "reject_dos_rest time_end rest = Some (Inr ())"
  obtains pad token sep name where "rest = pad @ token @ sep @ name"
    "list_all is_ascii_whitespace (pad @ sep)" "\<not> list_ex is_ascii_whitespace token"
    "token = [] \<longrightarrow> sep @ name = []" "sep = [] \<longrightarrow> name = []"
    "name = [] \<or> \<not> is_ascii_whitespace (hd name) \<and> \<not> is_whitespace (hd (chars name))"
    "length sep \<le> 1 \<or> token = ''<DIR>'' \<and> time_end + length pad = padded_metadata_column
       \<and> time_end + length (pad @ token @ sep) = padded_name_column"
proof (cases "list_all is_ascii_whitespace rest")
  case True
  then show ?thesis by (intro that [of rest "[]" "[]" "[]"]) auto
next
  case ne: False
  let ?ws = is_ascii_whitespace and ?nw = "\<lambda>c. \<not> is_ascii_whitespace c"
  define pad md where pm: "pad = takeWhile ?ws rest" "md = dropWhile ?ws rest"
  define token after where ta: "token = takeWhile ?nw md" "after = dropWhile ?nw md"
  define sep name where sn: "sep = takeWhile ?ws after" "name = dropWhile ?ws after"
  have md: "md \<noteq> []" using ne pm by (auto simp: list_all_iff dropWhile_eq_Nil_conv)
  then have "length pad < length rest"
    using pm by (metis length_append length_greater_0_conv less_add_same_cancel1 takeWhile_dropWhile_id)
  then have i: "find_char not_ascii_ws rest = Some (length pad)"
    using find_not_ascii_ws [OF v] pm by (simp add: Let_def)
  then have b: "is_boundary rest (length pad)" using find_char_boundary [OF v] by blast
  have dm: "drop (length pad) rest = md" using pm by (simp add: drop_takeWhile_length)
  have vm: "valid_utf8 md" using valid_utf8_drop [OF v b] dm by simp
  have e: "(case find_char ascii_ws_code md of None \<Rightarrow> length md | Some i \<Rightarrow> i) = length token"
    using find_ascii_ws [OF vm] ta by simp
  have be: "is_boundary md (length token)"
    using find_char_boundary [OF vm] e by (metis boundary_length option.case_eq_if option.collapse)
  have da: "drop (length token) md = after" "take (length token) md = token"
    using ta by (simp_all add: drop_takeWhile_length take_takeWhile_length)
  have va: "valid_utf8 after" using valid_utf8_drop [OF vm be] da by simp
  have acc': "\<not> has_unicode_whitespace_after_ascii_padding after"
    "length sep \<le> 1 \<or> token = ''<DIR>'' \<and> time_end + length pad = padded_metadata_column
       \<and> time_end + length pad + length token + length sep = padded_name_column"
    using acc i b be e dm da sn
    by (auto simp: reject_dos_rest_def protocol_error_def slice_from_def slice_to_def Let_def
        split: if_splits)
  have "\<not> ?ws (hd md)" using md pm by (metis hd_dropWhile)
  then have t: "token \<noteq> []" using md ta by (cases md) auto
  have r: "rest = pad @ token @ sep @ name" using pm ta sn by (metis takeWhile_dropWhile_id)
  have w: "list_all ?ws (pad @ sep)" "\<not> list_ex ?ws token"
    using pm ta sn by (auto simp: list_all_iff list_ex_iff dest: set_takeWhileD)
  have h: "name = [] \<or> \<not> ?ws (hd name) \<and> \<not> is_whitespace (hd (chars name))"
    using padding_check [OF va acc'(1)] sn by (metis hd_dropWhile)
  have "after = [] \<or> ?ws (hd after)" using ta by (metis hd_dropWhile)
  then have "sep = [] \<longrightarrow> name = []" using sn by (cases after) auto
  with that [OF r w] t h acc'(2) show ?thesis by (simp add: add.assoc)
qed

text \<open>Where the timestamp of an accepted row ends.\<close>

lemma dos_timestamp:
  assumes v: "valid_utf8 line" and l: "looks_like_dos_listing line"
    and acc: "reject_ambiguous_dos_name_boundary line = Some (Inr ())"
    and ne: "\<not> list_all is_ascii_whitespace (drop 8 line)"
  obtains date gap clock marker rest where "line = date @ gap @ clock @ marker @ rest" "length date = 8"
    "list_all is_ascii_whitespace gap" "\<not> is_ascii_whitespace (hd (clock @ marker))"
    "marker \<in> {''AM'', ''PM''}" "find_str marker (clock @ marker) = Some (length clock)"
    "valid_utf8 rest" "reject_dos_rest (length (date @ gap @ clock @ marker)) rest = Some (Inr ())"
proof -
  let ?ws = is_ascii_whitespace
  define tail gap where tg: "tail = drop 8 line" "gap = takeWhile ?ws tail"
  have b8: "is_boundary line 8"
    using l boundary_after_ascii [OF v, of 7] by (auto simp: looks_like_dos_listing_def digit_ascii)
  then have v8: "valid_utf8 tail" unfolding tg by (rule valid_utf8_drop [OF v])
  have l8: "8 \<le> length line" using l by (simp add: looks_like_dos_listing_def)
  have ts: "dropWhile ?ws tail \<noteq> []" using ne tg by (auto simp: list_all_iff dropWhile_eq_Nil_conv)
  then have "length gap < length tail"
    using tg by (metis length_append length_greater_0_conv less_add_same_cancel1 takeWhile_dropWhile_id)
  then have i: "find_char not_ascii_ws tail = Some (length gap)"
    using find_not_ascii_ws [OF v8] tg by (simp add: Let_def)
  define stamp where stamp: "stamp = drop (length gap + 8) line"
  have dg: "drop (length gap) tail = stamp" using tg stamp by (simp add: add.commute)
  have sw: "stamp = dropWhile ?ws tail" using dg tg(2) by (simp add: drop_takeWhile_length)
  have bs: "is_boundary line (length gap + 8)"
    using boundary_trans [OF b8] find_char_boundary [OF v8 i] tg(1) by (simp add: add.commute)
  then have vs: "valid_utf8 stamp" unfolding stamp by (rule valid_utf8_drop [OF v])
  define pe where pe: "pe = (case char_index stamp 8 of None \<Rightarrow> length stamp | Some i \<Rightarrow> i)"
  have bp: "is_boundary stamp pe" using char_index_boundary [OF vs] pe by (auto split: option.splits)
  then have vp: "valid_utf8 (take pe stamp)" by (rule valid_utf8_take [OF vs])
  have sl: "slice_from line 8 = Some tail" "slice_from line (length gap + 8) = Some stamp"
    "slice_to stamp pe = Some (take pe stamp)"
    using b8 bs bp tg(1) stamp by (simp_all add: slice_from_def slice_to_def)
  have acc1: "(case marker_end (length gap + 8) (take pe stamp) of
      None \<Rightarrow> Some (protocol_error ''LIST returned an unsupported DOS timestamp'')
    | Some time_end \<Rightarrow> do { rest \<leftarrow> slice_from line time_end; reject_dos_rest time_end rest }) = Some (Inr ())"
    using acc i sl by (simp add: reject_ambiguous_dos_name_boundary_def Let_def pe [symmetric])
  then obtain e where e: "marker_end (length gap + 8) (take pe stamp) = Some e"
    "do { rest \<leftarrow> slice_from line e; reject_dos_rest e rest } = Some (Inr ())"
    by (auto simp: protocol_error_def split: option.splits)
  from e(1) obtain marker where m: "marker \<in> {''AM'', ''PM''}"
    "find_str marker (take pe stamp) = Some (e - (length gap + 8) - 2)" "length gap + 10 \<le> e"
    by (auto simp: marker_end_def split: option.splits intro: that [of "''AM''"] that [of "''PM''"])
  from find_str_Some [OF m(2)] obtain clock b where
    c: "take pe stamp = clock @ marker @ b" "length clock = e - (length gap + 8) - 2" by metis
  have first: "find_str marker (clock @ marker) = Some (length clock)"
    using m(2) c by (intro find_str_first) simp
  have len: "length marker = 2" using m(1) by auto
  have ee: "e = length (take 8 line @ gap @ clock @ marker)" using c(2) m(3) len l8 by simp
  have line: "line = take 8 line @ gap @ clock @ marker @ b @ drop pe stamp"
    using tg sw c(1) by (metis append.assoc append_take_drop_id takeWhile_dropWhile_id)
  have rest: "drop e line = b @ drop pe stamp" by (subst line) (simp add: ee len l8)
  have be: "is_boundary line e"
    using e(2) by (auto simp: slice_from_def split: if_splits)
  have "hd stamp = hd (clock @ marker)" using c(1) len
    by (metis append_Nil2 append_assoc append_eq_append_conv_if append_take_drop_id hd_append2 len list.size(3) zero_neq_numeral append_is_Nil_conv)
  moreover have "\<not> ?ws (hd stamp)" using sw ts by (metis hd_dropWhile)
  ultimately have h: "\<not> ?ws (hd (clock @ marker))" by simp
  have gw: "list_all ?ws gap" using tg(2) by (auto simp: list_all_iff dest: set_takeWhileD)
  show ?thesis
  proof (rule that [OF line _ gw h m(1) first])
    show "length (take 8 line) = 8" using l8 by simp
    show "valid_utf8 (b @ drop pe stamp)" using valid_utf8_drop [OF v be] rest by simp
    show "reject_dos_rest (length (take 8 line @ gap @ clock @ marker)) (b @ drop pe stamp) = Some (Inr ())"
      using e(2) be rest ee by (simp add: slice_from_def)
  qed
qed

lemma accepted_dos_row:
  assumes "looks_like_dos_listing line" "parse_row P path line = Some (Inr r)"
  shows "reject_ambiguous_dos_name_boundary line = Some (Inr ())"
proof -
  from assms(2) have a: "reject_ambiguous_list_name line = Some (Inr ())"
    by (cases "reject_ambiguous_list_name line") (auto simp: parse_row_def split: sum.splits)
  from assms(1) have "line \<noteq> []" "is_ascii_digit (line ! 0)" by (auto simp: looks_like_dos_listing_def)
  then have "\<not> starts_with ''-'' line" "\<not> starts_with ''l'' line" "\<not> starts_with ''d'' line"
    by (cases line; auto simp: starts_with_def is_ascii_digit_def)+
  with a assms(1) show ?thesis
    by (auto simp: reject_ambiguous_list_name_def split: sum.splits Option.bind_splits if_splits)
qed

end
