(* ===== verification/Listing_Props.thy ===== *)
theory Listing_Props
  imports Listing_Boundary
begin

text \<open>
  The properties of \<open>LIST\<close> decoding: no listing panics the client, entries are direct children
  of the listed directory, rows are all or nothing, and an accepted row has one reading.
\<close>

section \<open>A concrete row parser\<close>

text \<open>Used by the witnesses only: the ninth field is the name, as in a POSIX row.\<close>

definition demo_entry :: "string \<Rightarrow> ftp_file" where
  "demo_entry name = \<lparr> ff_name = name, ff_is_symlink = False, ff_is_directory = False, ff_size = 4,
     ff_modified = 0, ff_gid = None, ff_uid = None, ff_symlink = None,
     ff_can_read = (\<lambda>_. True), ff_can_write = (\<lambda>q. q = Owner), ff_can_execute = (\<lambda>_. False) \<rparr>"

definition demo_parser :: list_parser where
  "demo_parser = \<lparr>
     parse_posix = (\<lambda>line. let ws = fields line in
        if length ws \<ge> 9 then Inr (demo_entry (ws ! 8)) else Inl 0),
     parse_dos = (\<lambda>line. Inl 1) \<rparr>"

lemma demo_parse:
  "parse_list_lines demo_parser ''/dir''
     [''total 12'', ''-rw-r--r-- 1 1000 1000 4 Nov 5 2024 a.txt''] =
   Some (Inr [\<lparr> f_path = ''/dir/a.txt'', f_metadata = entry_metadata ''/dir'' (demo_entry ''a.txt'') \<rparr>])"
  by code_simp

section \<open>Properties\<close>

text \<open>
  No byte string a server can send as a listing makes the decoding and parsing panic:
  whatever the rows contain, every slice the row checks and the normalisation take is at a
  character boundary.
\<close>

theorem listing_never_panics:
  assumes "decode_list_bytes bytes = Inr lines"
  shows "parse_list_lines P path lines \<noteq> None"
  using parse_lines_no_panic decoded_lines_valid [OF assms] by blast

definition demo_bytes :: string where
  "demo_bytes = encode_listing
     [''brw-rw---- 1 root disk 8, 0 Nov 5 2024 b'' @ [CHR 0xC3, CHR 0xA9],
      [CHR 0xC2, CHR 0xA0] @ ''10-19-20 03:19PM 4 x'']"

theorem listing_never_panics_witness:
  "\<exists>lines. decode_list_bytes demo_bytes = Inr lines \<and> length lines = 2
     \<and> parse_list_lines demo_parser ''/dir'' lines \<noteq> None"
proof -
  have d: "decode_list_bytes demo_bytes = Inr
     [''brw-rw---- 1 root disk 8, 0 Nov 5 2024 b'' @ [CHR 0xC3, CHR 0xA9],
      [CHR 0xC2, CHR 0xA0] @ ''10-19-20 03:19PM 4 x'']" by code_simp
  from listing_never_panics [OF d] d show ?thesis by auto
qed

text \<open>
  C3: Every entry of an accepted listing is a direct child of the listed directory: its path
  is the directory joined with one name that is not empty, not \<open>.\<close> or \<open>..\<close>, and holds no
  separator and no control byte. This is so for every row parser, so a server cannot name a
  file outside the directory.
\<close>

theorem listed_entries_are_children:
  assumes "is_absolute path" "parse_list_lines P path lines = Some (Inr fs)" "f \<in> set fs"
  shows "\<exists>n. child_name n \<and> (\<forall>c \<in> set n. \<not> is_ascii_control c) \<and> f_path f = path_join path n
     \<and> components (f_path f) = components path @ [Normal n]"
proof -
  obtain line where "parse_row P path line = Some (Inr (Some f))"
    using parse_list_entries [OF assms(2,3)] by blast
  then show ?thesis
  proof (rule parse_row_entry)
    fix g
    assume "child_name (ff_name g)" "\<forall>c \<in> set (ff_name g). \<not> is_ascii_control c"
      "f_path f = path_join path (ff_name g)"
    with path_join_components [OF assms(1)] show ?thesis by auto
  qed
qed

theorem listed_entries_are_children_witness:
  "\<exists>n. child_name n \<and> components ''/dir/a.txt'' = components ''/dir'' @ [Normal n]"
proof -
  have abs: "is_absolute ''/dir''" by code_simp
  from listed_entries_are_children [OF abs demo_parse,
      of "\<lparr> f_path = ''/dir/a.txt'', f_metadata = entry_metadata ''/dir'' (demo_entry ''a.txt'') \<rparr>"]
  show ?thesis by auto
qed

text \<open>
  A listing is all or nothing. It is accepted exactly when every row is (a leading block
  count is not a row), with the entries in the order of the rows; otherwise the error is the
  protocol error of the first row refused.
\<close>

theorem listing_is_all_or_nothing:
  "(parse_list_lines P path lines = Some (Inr fs) \<longleftrightarrow>
     (\<exists>es. list_all2 (\<lambda>l e. parse_row P path l = Some (Inr e)) (listing_rows lines) es
        \<and> fs = List.map_filter id es)) \<and>
   (parse_list_lines P path lines = Some (Inl e) \<longrightarrow>
     kind e = KProtocolError \<and>
     (\<exists>pre l post. listing_rows lines = pre @ l # post \<and> parse_row P path l = Some (Inl e)
        \<and> (\<forall>k \<in> set pre. \<exists>f. parse_row P path k = Some (Inr f))))"
proof (intro conjI impI)
  show "parse_list_lines P path lines = Some (Inr fs) \<longleftrightarrow>
     (\<exists>es. list_all2 (\<lambda>l e. parse_row P path l = Some (Inr e)) (listing_rows lines) es
        \<and> fs = List.map_filter id es)"
    by (cases "parse_rows P path (listing_rows lines)")
      (auto simp: parse_list_lines_rows map_sum_def parse_rows_Inr [symmetric] split: sum.splits)
next
  assume e: "parse_list_lines P path lines = Some (Inl e)"
  then show "kind e = KProtocolError" by (rule list_error_kind)
  from e have "parse_rows P path (listing_rows lines) = Some (Inl e)"
    by (cases "parse_rows P path (listing_rows lines)")
      (auto simp: parse_list_lines_rows map_sum_def split: sum.splits)
  then show "\<exists>pre l post. listing_rows lines = pre @ l # post \<and> parse_row P path l = Some (Inl e)
        \<and> (\<forall>k \<in> set pre. \<exists>f. parse_row P path k = Some (Inr f))" by (rule parse_rows_Inl)
qed

theorem listing_is_all_or_nothing_witness:
  "\<exists>e. parse_list_lines demo_parser ''/dir'' [''total 0'', ''total 0''] = Some (Inl e)
     \<and> kind e = KProtocolError"
proof -
  have "parse_list_lines demo_parser ''/dir'' [''total 0'', ''total 0''] =
    Some (Inl (with_source KProtocolError (DynParse 1)))" by code_simp
  with listing_is_all_or_nothing [of demo_parser "''/dir''" "[''total 0'', ''total 0'']" "[]"
      "with_source KProtocolError (DynParse 1)"]
  show ?thesis by auto
qed

text \<open>
  C26: Decoding keeps every line and invents none. A listing of lines that end in CRLF or in a bare
  line feed, with an unterminated rest after them, comes back as these lines and that rest, without
  their terminators and without the blank ones. When any of them is not well-formed UTF-8 the whole
  listing is refused as a bad response, and nothing of it is replaced or dropped.
\<close>

theorem decoding_keeps_the_lines:
  assumes "list_all terminated rows" "CHR 0x0A \<notin> set tail"
  shows "decode_list_bytes (concat (map (\<lambda>(l, eol). l @ eol) rows) @ tail) =
     (if list_all valid_utf8 (map fst rows @ [tail])
      then Inr (filter (\<lambda>l. l \<noteq> []) (map fst rows @ [tail])) else Inl BadResponse)"
  unfolding decode_list_bytes_def lines_terminated [OF assms] valid_terminated [OF assms(1)] ..

theorem decoding_keeps_the_lines_witness:
  "decode_list_bytes (''total 1'' @ [CHR 0x0D, CHR 0x0A] @ [CHR 0x0A] @ ''a'' @ [CHR 0xC3, CHR 0xA9] @ [CHR 0x0A] @ ''b'')
     = Inr [''total 1'', ''a'' @ [CHR 0xC3, CHR 0xA9], ''b'']
   \<and> decode_list_bytes (''a'' @ [CHR 0x0D, CHR 0x0A] @ [CHR 0xC3]) = Inl BadResponse"
proof -
  have a: "list_all terminated [(''total 1'', [CHR 0x0D, CHR 0x0A]), ([], [CHR 0x0A]), (''a'' @ [CHR 0xC3, CHR 0xA9], [CHR 0x0A])]"
    "CHR 0x0A \<notin> set ''b''" "list_all terminated [(''a'', [CHR 0x0D, CHR 0x0A])]" "CHR 0x0A \<notin> set [CHR 0xC3]"
    by simp_all
  have v: "list_all valid_utf8 (map fst [(''total 1'', [CHR 0x0D, CHR 0x0A]), ([], [CHR 0x0A]), (''a'' @ [CHR 0xC3, CHR 0xA9], [CHR 0x0A])] @ [''b''])"
    "\<not> list_all valid_utf8 (map fst [(''a'', [CHR 0x0D, CHR 0x0A])] @ [[CHR 0xC3]])"
    by code_simp+
  from decoding_keeps_the_lines [OF a(1,2)] decoding_keeps_the_lines [OF a(3,4)] v show ?thesis by simp
qed

text \<open>
  C24: An accepted POSIX row has one reading: exactly one separator byte stands between the
  eight metadata fields and the name, the name does not start with any Unicode whitespace,
  and no Unicode whitespace hides in the metadata.
\<close>

theorem posix_row_boundary:
  assumes v: "valid_utf8 line"
    and acc: "reject_ambiguous_posix_name_boundary line = Some (Inr ())"
    and px: "is_posix line"
    and t: "(if is_special line then normalize_special_posix_line line else Some line) = Some t"
    and n: "9 \<le> length (field_spans t)"
  shows "\<exists>meta sep name. t = meta @ sep # name \<and> is_ascii_whitespace sep \<and> words meta = take 8 (words t)
     \<and> name \<noteq> [] \<and> \<not> is_whitespace (hd (chars name)) \<and> \<not> contains_unicode_whitespace meta"
proof -
  let ?sp = "field_spans t" let ?b = "snd (?sp ! 7)" and ?a = "fst (?sp ! 8)"
  have vt: "valid_utf8 t" using normalize_valid [OF v] t v by (metis option.inject)
  have bb: "is_boundary t ?b" using field_boundary(2) [OF vt, of 7] n by simp
  have g: "?b < ?a" "\<forall>k. ?b \<le> k \<and> k < ?a \<longrightarrow> is_ascii_whitespace (t ! k)"
    using field_spans_gap [of 7 t] n by simp_all
  have f8: "?a < length t" "\<not> is_ascii_whitespace (t ! ?a)"
    using field_spans_nth [of 8 t] n by auto
  have acc': "\<not> Suc ?b < ?a" "\<not> contains_unicode_whitespace (take ?b t)"
    "\<not> has_unicode_whitespace_after_ascii_padding (drop ?b t)"
    using acc px n bb unfolding reject_ambiguous_posix_name_boundary_def t
    by (auto simp: protocol_error_def Let_def slice_to_def slice_from_def split: if_splits)
  with g have a: "?a = Suc ?b" by simp
  then have d: "drop ?b t = t ! ?b # drop ?a t" using f8 by (simp add: Cons_nth_drop_Suc)
  have dw: "dropWhile is_ascii_whitespace (drop ?b t) = drop ?a t"
    using d g f8 a Cons_nth_drop_Suc [OF f8(1)] by (metis dropWhile.simps(2) lessI order_refl)
  have w: "words (take ?b t) = take 8 (words t)" using words_upto_field [of 7 t] n by simp
  have "t = take ?b t @ t ! ?b # drop ?a t" using d by (metis append_take_drop_id)
  moreover have "\<not> is_whitespace (hd (chars (drop ?a t)))"
    using padding_check [OF valid_utf8_drop [OF vt bb] acc'(3)] dw f8 by simp
  ultimately show ?thesis using w g a f8 acc'(2) by (metis drop_eq_Nil leD lessI order_refl)
qed

theorem posix_row_boundary_witness:
  "\<exists>meta sep name. ''-rw-r--r-- 1 1000 1000 4 Nov 5 2024 a b'' = meta @ sep # name
     \<and> is_ascii_whitespace sep \<and> words meta = take 8 (words ''-rw-r--r-- 1 1000 1000 4 Nov 5 2024 a b'')
     \<and> name \<noteq> [] \<and> \<not> is_whitespace (hd (chars name)) \<and> \<not> contains_unicode_whitespace meta"
  by (rule posix_row_boundary [where line = "''-rw-r--r-- 1 1000 1000 4 Nov 5 2024 a b''"]) code_simp+

text \<open>
  C25: An accepted DOS row that has more than its date has one reading. After the date, its blanks and the time, which ends with
  its first \<open>AM\<close> or its first \<open>PM\<close>, come padding, one token and at most one separator byte before the name,
  and every way to take the rest of the row as padding, token, separators and name gives this name;
  or the row is the padded directory layout, whose name starts at its fixed column. The name does not
  start with whitespace of any kind.
\<close>

theorem dos_row_boundary:
  assumes v: "valid_utf8 line" and l: "looks_like_dos_listing line"
    and acc: "parse_row P path line = Some (Inr r)" and ne: "\<not> list_all is_ascii_whitespace (drop 8 line)"
  shows "\<exists>date gap clock marker pad token sep name.
     line = date @ gap @ clock @ marker @ pad @ token @ sep @ name
     \<and> length date = 8 \<and> list_all is_ascii_whitespace gap \<and> \<not> is_ascii_whitespace (hd (clock @ marker))
     \<and> marker \<in> {''AM'', ''PM''} \<and> find_str marker (clock @ marker) = Some (length clock)
     \<and> list_all is_ascii_whitespace (pad @ sep) \<and> \<not> list_ex is_ascii_whitespace token
     \<and> (name = [] \<or> \<not> is_whitespace (hd (chars name)))
     \<and> (length sep \<le> 1
          \<and> (\<forall>pad' token' sep' name'. pad' @ token' @ sep' @ name' = pad @ token @ sep @ name \<longrightarrow>
               list_all is_ascii_whitespace (pad' @ sep') \<longrightarrow> \<not> list_ex is_ascii_whitespace token' \<longrightarrow>
               token' \<noteq> [] \<longrightarrow> sep' \<noteq> [] \<longrightarrow> name' = name)
        \<or> token = ''<DIR>'' \<and> length (date @ gap @ clock @ marker @ pad) = padded_metadata_column
          \<and> length (date @ gap @ clock @ marker @ pad @ token @ sep) = padded_name_column)"
proof -
  obtain date gap clock marker rest where s: "line = date @ gap @ clock @ marker @ rest" "length date = 8"
    "list_all is_ascii_whitespace gap" "\<not> is_ascii_whitespace (hd (clock @ marker))"
    "marker \<in> {''AM'', ''PM''}" "find_str marker (clock @ marker) = Some (length clock)"
    "valid_utf8 rest" "reject_dos_rest (length (date @ gap @ clock @ marker)) rest = Some (Inr ())"
    using dos_timestamp [OF v l accepted_dos_row [OF l acc] ne] by blast
  obtain pad token sep name where n: "rest = pad @ token @ sep @ name"
    "list_all is_ascii_whitespace (pad @ sep)" "\<not> list_ex is_ascii_whitespace token"
    "token = [] \<longrightarrow> sep @ name = []" "sep = [] \<longrightarrow> name = []"
    "name = [] \<or> \<not> is_ascii_whitespace (hd name) \<and> \<not> is_whitespace (hd (chars name))"
    "length sep \<le> 1 \<or> token = ''<DIR>'' \<and> length (date @ gap @ clock @ marker) + length pad = padded_metadata_column
       \<and> length (date @ gap @ clock @ marker) + length (pad @ token @ sep) = padded_name_column"
    using dos_rest_boundary [OF s(7,8)] by blast
  have u: "name' = name" if "length sep \<le> 1" "pad' @ token' @ sep' @ name' = pad @ token @ sep @ name"
    "list_all is_ascii_whitespace (pad' @ sep')" "\<not> list_ex is_ascii_whitespace token'" "token' \<noteq> []" "sep' \<noteq> []"
    for pad' token' sep' name'
    using name_determined [OF that(2) [symmetric] n(2,3) that(3-6,1) n(4,5)] n(6) by blast
  have line: "line = date @ gap @ clock @ marker @ pad @ token @ sep @ name" using s(1) n(1) by simp
  from n(7) show ?thesis
  proof
    assume "length sep \<le> 1"
    with line s n(2,3,6) u show ?thesis by blast
  next
    assume "token = ''<DIR>'' \<and> length (date @ gap @ clock @ marker) + length pad = padded_metadata_column
       \<and> length (date @ gap @ clock @ marker) + length (pad @ token @ sep) = padded_name_column"
    then have "token = ''<DIR>'' \<and> length (date @ gap @ clock @ marker @ pad) = padded_metadata_column
       \<and> length (date @ gap @ clock @ marker @ pad @ token @ sep) = padded_name_column" by auto
    with line s n(2,3,6) show ?thesis by blast
  qed
qed


theorem dos_row_boundary_witness:
  "\<exists>date gap clock marker pad token sep name.
     ''10-19-20  03:19PM               403 my file.txt'' = date @ gap @ clock @ marker @ pad @ token @ sep @ name
     \<and> length date = 8 \<and> marker \<in> {''AM'', ''PM''} \<and> find_str marker (clock @ marker) = Some (length clock)
     \<and> list_all is_ascii_whitespace (pad @ sep)
     \<and> (length sep \<le> 1
        \<or> token = ''<DIR>'' \<and> length (date @ gap @ clock @ marker @ pad) = padded_metadata_column)"
proof -
  let ?line = "''10-19-20  03:19PM               403 my file.txt''"
  define P where "P = demo_parser\<lparr>parse_dos := \<lambda>line. Inr (demo_entry ''my file.txt'')\<rparr>"
  define r where "r = projr (the (parse_row P ''/dir'' ?line))"
  have p: "parse_row P ''/dir'' ?line = Some (Inr r)" unfolding r_def P_def demo_parser_def by code_simp
  have d: "valid_utf8 ?line" "looks_like_dos_listing ?line" "\<not> list_all is_ascii_whitespace (drop 8 ?line)" by code_simp+
  from dos_row_boundary [OF d(1,2) p d(3)] show ?thesis
    by (elim exE conjE) (intro exI conjI, assumption+, erule disj_forward; simp)
qed

text \<open>
  Normalising a device row replaces its major and minor fields by one size field \<open>0\<close> and
  keeps every other field, so the name stays the field after the timestamp.
\<close>

theorem device_row_words:
  assumes v: "valid_utf8 line" and n: "normalize_special_posix_line line = Some t" "t \<noteq> line"
  shows "words t = take 4 (words line) @ ''0'' # drop 6 (words line)"
proof -
  let ?sp = "field_spans line" let ?a = "fst (?sp ! 4)" and ?b = "snd (?sp ! 5)"
  from normalize_cases [OF v] n have t: "t = take ?a line @ ''0'' @ drop ?b line"
    and l: "5 < length ?sp" by (metis option.inject)+
  have "take ?a line = [] \<or> is_ascii_whitespace (last (take ?a line))"
    using field_spans_nth [of 4 line] l by (cases "?a = 0") (auto simp: last_conv_nth min_def)
  moreover have r: "drop ?b line = [] \<or> is_ascii_whitespace (hd (drop ?b line))"
    using field_spans_nth [of 5 line] l by (cases "?b < length line") (auto simp: hd_drop_conv_nth)
  moreover have "words (''0'' @ drop ?b line) = ''0'' # words (drop ?b line)"
    using r by (intro words_word) (auto simp: is_ascii_whitespace_def ascii_ws_code_def)
  ultimately have "words t = words (take ?a line) @ ''0'' # words (drop ?b line)"
    using words_append' [of "take ?a line"] t by simp
  then show ?thesis using words_before_field [of 4 line] words_from_field(2) [of 5 line] l by simp
qed

theorem device_row_words_witness:
  "words ''brw-rw---- 1 root disk 0 Nov 5 2024 block'' =
     take 4 (words ''brw-rw---- 1 root disk 8, 0 Nov 5 2024 block'') @ ''0''
       # drop 6 (words ''brw-rw---- 1 root disk 8, 0 Nov 5 2024 block'')"
  by (rule device_row_words) code_simp+

text \<open>
  A row whose name and target are joined by two separators that share a blank is accepted:
  the count of separators does not count overlapping ones, so \<open>link -> -> target\<close> can be read
  as the link \<open>link\<close> to \<open>-> target\<close> or as the link \<open>link ->\<close> to \<open>target\<close>.
\<close>

theorem overlapping_separators_accepted:
  "reject_ambiguous_list_name ''lrwxrwxrwx 1 1000 1000 9 Nov 5 2024 link -> -> target'' = Some (Inr ())"
  by code_simp

end
