(* ===== verification/Ftp_Lib.thy ===== *)
theory Ftp_Lib
  imports Listing
begin

text \<open>
  What the clients use of code that is not in the repository: \<open>suppaftp\<close>, \<open>remotefs\<close> and the
  TLS stack. It is one record of functions, an argument \<open>F\<close> of every definition that calls it,
  about which nothing is assumed here. Its state (the server, the network, the control
  connections) is \<open>'s\<close>, a control stream is a handle \<open>'c\<close>, a data transfer a handle \<open>'t\<close>.

  The data half of a transfer is the sequence of read results the socket is going to give: a
  download is any finite list of chunks and errors, then end of file.
\<close>

section \<open>Vocabulary\<close>

datatype mode = Active | Passive

datatype suppa_file_type = Binary | OtherType nat

datatype read_event = Chunk string | ReadErr io_error

type_synonym script = "read_event list"

record 't transfer =
  tr_handle :: 't
  tr_events :: script

datatype capability = STREAM_READ | STREAM_WRITE | APPEND | RANGE_READ | EXEC
  | SET_METADATA | COPY | SYMLINK

record exec_output =
  eo_status :: nat
  eo_output :: string

record read_options =
  ro_offset :: "64 word option"
  ro_length :: "64 word option"

record write_options =
  wo_size_hint :: "64 word option"

type_synonym 'a outcome = "FtpError + 'a"

section \<open>The interface\<close>

text \<open>
  A data command also reports whether a passive stream builder was called and failed while the
  command ran: the clients hook that event.
\<close>

record ('s, 'c, 't) ftp_lib =
  lib_ensure :: "string \<Rightarrow> remote_error + unit"
  lib_rows :: list_parser
  lib_from_io :: "io_error \<Rightarrow> remote_error"
  lib_entry_name :: "remote_file \<Rightarrow> string"
  lib_status_code :: "status \<Rightarrow> nat"
  lib_usize_max :: nat
  lib_connect :: "string \<Rightarrow> 's \<Rightarrow> 'c outcome \<times> 's"
  lib_set_builder :: "'c \<Rightarrow> nat \<Rightarrow> 's \<Rightarrow> 's"
  lib_set_mode :: "'c \<Rightarrow> mode \<Rightarrow> 's \<Rightarrow> 's"
  lib_tls_build :: "bool \<Rightarrow> bool \<Rightarrow> dyn_error + nat"
  lib_tls_connector :: "bool \<Rightarrow> bool \<Rightarrow> nat"
  lib_into_secure :: "'c \<Rightarrow> nat \<Rightarrow> string \<Rightarrow> 's \<Rightarrow> 'c outcome \<times> 's"
  lib_login :: "'c \<Rightarrow> string \<Rightarrow> string \<Rightarrow> 's \<Rightarrow> unit outcome \<times> 's"
  lib_transfer_type :: "'c \<Rightarrow> suppa_file_type \<Rightarrow> 's \<Rightarrow> unit outcome \<times> 's"
  lib_welcome :: "'c \<Rightarrow> 's \<Rightarrow> string option"
  lib_quit :: "'c \<Rightarrow> 's \<Rightarrow> unit outcome \<times> 's"
  lib_close :: "'c \<Rightarrow> 's \<Rightarrow> 's"
  lib_mkdir :: "'c \<Rightarrow> string \<Rightarrow> 's \<Rightarrow> unit outcome \<times> 's"
  lib_rm :: "'c \<Rightarrow> string \<Rightarrow> 's \<Rightarrow> unit outcome \<times> 's"
  lib_rmdir :: "'c \<Rightarrow> string \<Rightarrow> 's \<Rightarrow> unit outcome \<times> 's"
  lib_rename :: "'c \<Rightarrow> string \<Rightarrow> string \<Rightarrow> 's \<Rightarrow> unit outcome \<times> 's"
  lib_site :: "'c \<Rightarrow> string \<Rightarrow> 's \<Rightarrow> response outcome \<times> 's"
  lib_resume_transfer :: "'c \<Rightarrow> nat \<Rightarrow> 's \<Rightarrow> unit outcome \<times> 's"
  lib_retr :: "'c \<Rightarrow> string \<Rightarrow> 's \<Rightarrow> ('t transfer outcome \<times> bool) \<times> 's"
  lib_put :: "'c \<Rightarrow> string \<Rightarrow> 's \<Rightarrow> ('t outcome \<times> bool) \<times> 's"
  lib_append :: "'c \<Rightarrow> string \<Rightarrow> 's \<Rightarrow> ('t outcome \<times> bool) \<times> 's"
  lib_custom :: "'c \<Rightarrow> string \<Rightarrow> status list \<Rightarrow> 's
     \<Rightarrow> ((response \<times> 't transfer) outcome \<times> bool) \<times> 's"
  lib_write :: "'t \<Rightarrow> string \<Rightarrow> 's \<Rightarrow> (io_error + nat) \<times> 's"
  lib_flush :: "'t \<Rightarrow> 's \<Rightarrow> (io_error + unit) \<times> 's"
  lib_shutdown :: "'t \<Rightarrow> 's \<Rightarrow> (io_error + unit) \<times> 's"
  lib_finish_read :: "'t transfer \<Rightarrow> 's \<Rightarrow> unit outcome \<times> 's"
  lib_finish_write :: "'t \<Rightarrow> 's \<Rightarrow> unit outcome \<times> 's"
  lib_abandon_read :: "'t transfer \<Rightarrow> 's \<Rightarrow> 's"
  lib_abandon_write :: "'t \<Rightarrow> 's \<Rightarrow> 's"
  lib_copy :: "nat option \<Rightarrow> script \<Rightarrow> (io_error + nat) \<times> script"
  lib_read_to_end :: "script \<Rightarrow> (io_error + string) \<times> script"

text \<open>
  The last two are \<open>tokio::io::copy\<close> into a sink (of at most so many bytes) and
  \<open>AsyncReadExt::read_to_end\<close>, which only the asynchronous client uses, as it does
  \<open>lib_tls_connector\<close>: its TLS connector is built without a way to fail.
\<close>

section \<open>Text of the standard library\<close>

text \<open>\<open>format!("{}")\<close> of an unsigned integer.\<close>

fun decimal :: "nat \<Rightarrow> string" where
  "decimal n =
     (if n < 10 then [char_of (48 + n)] else decimal (n div 10) @ [char_of (48 + n mod 10)])"

declare decimal.simps [simp del]

end
