(* ===== verification/Guard.thy ===== *)
theory Guard
  imports Ftp_Lib
begin

text \<open>
  The two atomics a client shares with its transfer streams (\<open>src/src/client/guard.rs\<close>), with
  the state of the code outside the repository. Both clients extend this record, so an
  operation of a transfer stream acts on the state of either.
\<close>

record 's conn =
  transfer_active :: bool
  connection_usable :: bool
  world :: 's

text \<open>A call into code outside the repository.\<close>

definition on_world :: "('s \<Rightarrow> 'a \<times> 's) \<Rightarrow> (('s, 'z) conn_scheme, 'a) act" where
  "on_world f = (\<lambda>s. case f (world s) of (x, w) \<Rightarrow> Some (x, s\<lparr>world := w\<rparr>))"

text \<open>\<open>TransferGuard::invalidate\<close>, and its \<open>Drop\<close>.\<close>

definition guard_invalidate :: "(('s, 'z) conn_scheme, unit) act" where
  "guard_invalidate = update (\<lambda>s. s\<lparr>connection_usable := False\<rparr>)"

definition guard_drop :: "(('s, 'z) conn_scheme, unit) act" where
  "guard_drop = update (\<lambda>s. s\<lparr>transfer_active := False\<rparr>)"

lemma run_on_world [run_simps]:
  "on_world f s = (case f (world s) of (x, w) \<Rightarrow> Some (x, s\<lparr>world := w\<rparr>))"
  by (simp add: on_world_def)

lemma run_guard [simp, run_simps]:
  "guard_invalidate s = Some ((), s\<lparr>connection_usable := False\<rparr>)"
  "guard_drop s = Some ((), s\<lparr>transfer_active := False\<rparr>)"
  by (simp_all add: guard_invalidate_def guard_drop_def)

end
