(* ===== verification/Byte_Reader.thy ===== *)
theory Byte_Reader
  imports Ftp_Lib
begin

text \<open>
  Reading from a socket with the standard library: one \<open>read\<close>, \<open>io::copy\<close> into a sink with or
  without \<open>Read::take\<close>, and \<open>read_to_end\<close>. The last two retry a read that was interrupted and
  stop at any other error.
\<close>

section \<open>Definitions\<close>

text \<open>
  One \<open>read\<close> into a buffer of \<open>n\<close> bytes: at most \<open>n\<close> bytes, nothing exactly at end of file
  or when the buffer is empty. An empty chunk stands for nothing.
\<close>

fun script_read :: "nat \<Rightarrow> script \<Rightarrow> (io_error + string) \<times> script" where
  "script_read n [] = (Inr [], [])"
| "script_read n (ReadErr e # es) = (if n = 0 then (Inr [], ReadErr e # es) else (Inl e, es))"
| "script_read n (Chunk bs # es) =
     (if n = 0 then (Inr [], Chunk bs # es)
      else if bs = [] then script_read n es
      else (Inr (take n bs), if length bs \<le> n then es else Chunk (drop n bs) # es))"

fun event_size :: "read_event \<Rightarrow> nat" where
  "event_size (Chunk bs) = Suc (length bs)"
| "event_size (ReadErr e) = 1"

definition script_size :: "script \<Rightarrow> nat" where
  "script_size es = sum_list (map event_size es)"

lemma script_size_simps [simp]:
  "script_size [] = 0" "script_size (e # es) = event_size e + script_size es"
  by (simp_all add: script_size_def)

lemma script_read_size:
  "script_read n es = (Inr bs, es') \<Longrightarrow> bs \<noteq> [] \<Longrightarrow> script_size es' < script_size es"
  "script_read n es = (Inl e, es') \<Longrightarrow> script_size es' < script_size es"
  by (induction n es rule: script_read.induct) (auto split: if_splits)

definition copy_buffer :: nat where
  "copy_buffer = 8192"

text \<open>\<open>io::copy\<close> into a sink: the bytes go nowhere, their number is the answer.\<close>

function io_copy :: "nat option \<Rightarrow> script \<Rightarrow> (io_error + nat) \<times> script" where
  "io_copy limit es =
     (let n = (case limit of None \<Rightarrow> copy_buffer | Some l \<Rightarrow> min l copy_buffer) in
      if n = 0 then (Inr 0, es)
      else case script_read n es of
        (Inl e, es') \<Rightarrow> if io_error_kind e = Interrupted then io_copy limit es' else (Inl e, es')
      | (Inr bs, es') \<Rightarrow>
          if bs = [] then (Inr 0, es')
          else (case io_copy (map_option (\<lambda>l. l - length bs) limit) es' of
                  (Inl e, es'') \<Rightarrow> (Inl e, es'')
                | (Inr k, es'') \<Rightarrow> (Inr (length bs + k), es'')))"
  by pat_completeness auto
termination
  by (relation "measure (\<lambda>(l, es). script_size es)") (auto dest: script_read_size [OF sym])

function read_to_end :: "script \<Rightarrow> (io_error + string) \<times> script" where
  "read_to_end es =
     (case script_read copy_buffer es of
        (Inl e, es') \<Rightarrow> if io_error_kind e = Interrupted then read_to_end es' else (Inl e, es')
      | (Inr bs, es') \<Rightarrow>
          if bs = [] then (Inr [], es')
          else (case read_to_end es' of
                  (Inl e, es'') \<Rightarrow> (Inl e, es'')
                | (Inr cs, es'') \<Rightarrow> (Inr (bs @ cs), es'')))"
  by pat_completeness auto
termination
  by (relation "measure script_size") (auto dest: script_read_size [OF sym])

declare io_copy.simps [simp del] read_to_end.simps [simp del]

section \<open>What reading gives\<close>

text \<open>The bytes a script delivers before its first lasting error.\<close>

fun delivered :: "script \<Rightarrow> string" where
  "delivered [] = []"
| "delivered (Chunk bs # es) = bs @ delivered es"
| "delivered (ReadErr e # es) = (if io_error_kind e = Interrupted then delivered es else [])"

fun failure :: "script \<Rightarrow> io_error option" where
  "failure [] = None"
| "failure (Chunk bs # es) = failure es"
| "failure (ReadErr e # es) = (if io_error_kind e = Interrupted then failure es else Some e)"

fun after_failure :: "script \<Rightarrow> script" where
  "after_failure [] = []"
| "after_failure (Chunk bs # es) = after_failure es"
| "after_failure (ReadErr e # es) = (if io_error_kind e = Interrupted then after_failure es else es)"

lemma script_read_chunk:
  assumes "script_read n es = (Inr bs, es')" "bs \<noteq> []"
  shows "delivered es = bs @ delivered es'" "failure es = failure es'"
    "after_failure es = after_failure es'" "length bs \<le> n"
  using assms by (induction n es rule: script_read.induct) (auto split: if_splits)

lemma script_read_eof:
  assumes "script_read n es = (Inr [], es')" "0 < n"
  shows "delivered es = []" "failure es = None" "after_failure es = []" "es' = []"
  using assms by (induction n es rule: script_read.induct) (auto split: if_splits)

lemma script_read_error:
  assumes "script_read n es = (Inl e, es')"
  shows "delivered es = (if io_error_kind e = Interrupted then delivered es' else [])"
    "failure es = (if io_error_kind e = Interrupted then failure es' else Some e)"
    "after_failure es = (if io_error_kind e = Interrupted then after_failure es' else es')"
  using assms by (induction n es rule: script_read.induct) (auto split: if_splits)

lemma io_copy_all:
  "io_copy None es = (case failure es of None \<Rightarrow> Inr (length (delivered es)) | Some e \<Rightarrow> Inl e,
                      after_failure es)"
proof (induction "script_size es" arbitrary: es rule: less_induct)
  case less
  obtain r es' where r: "script_read copy_buffer es = (r, es')" by force
  have pos: "0 < copy_buffer" by (simp add: copy_buffer_def)
  show ?case
  proof (cases r)
    case (Inl e)
    with r less script_read_error [of copy_buffer es e es'] script_read_size(2) [of copy_buffer es e es']
    show ?thesis using pos by (subst io_copy.simps) (auto split: option.splits)
  next
    case (Inr bs)
    show ?thesis
    proof (cases "bs = []")
      case True
      with r Inr script_read_eof [of copy_buffer es es'] show ?thesis
        using pos by (subst io_copy.simps) auto
    next
      case False
      with r Inr less(1) [of es'] script_read_chunk [of copy_buffer es bs es']
        script_read_size(1) [of copy_buffer es bs es']
      show ?thesis using pos by (subst io_copy.simps) (auto split: option.splits)
    qed
  qed
qed

lemma read_to_end_all:
  "read_to_end es = (case failure es of None \<Rightarrow> Inr (delivered es) | Some e \<Rightarrow> Inl e,
                     after_failure es)"
proof (induction "script_size es" arbitrary: es rule: less_induct)
  case less
  obtain r es' where r: "script_read copy_buffer es = (r, es')" by force
  have pos: "0 < copy_buffer" by (simp add: copy_buffer_def)
  show ?case
  proof (cases r)
    case (Inl e)
    with r less script_read_error [of copy_buffer es e es'] script_read_size(2) [of copy_buffer es e es']
    show ?thesis using pos by (subst read_to_end.simps) (auto split: option.splits)
  next
    case (Inr bs)
    show ?thesis
    proof (cases "bs = []")
      case True
      with r Inr script_read_eof [of copy_buffer es es'] show ?thesis
        using pos by (subst read_to_end.simps) auto
    next
      case False
      with r Inr less(1) [of es'] script_read_chunk [of copy_buffer es bs es']
        script_read_size(1) [of copy_buffer es bs es']
      show ?thesis using pos by (subst read_to_end.simps) (auto split: option.splits)
    qed
  qed
qed

text \<open>
  Copying at most \<open>k\<close> bytes takes the first \<open>k\<close> delivered bytes off, or all of them when there
  are fewer; it fails only when the failure comes before the limit.
\<close>

lemma io_copy_take:
  "(\<exists>es'. io_copy (Some k) es = (Inr k, es') \<and> k \<le> length (delivered es)
      \<and> delivered es' = drop k (delivered es) \<and> failure es' = failure es)
   \<or> (io_copy (Some k) es = (Inr (length (delivered es)), []) \<and> length (delivered es) < k
      \<and> failure es = None)
   \<or> (\<exists>e. io_copy (Some k) es = (Inl e, after_failure es) \<and> length (delivered es) < k
      \<and> failure es = Some e)"
proof (induction "script_size es" arbitrary: es k rule: less_induct)
  case less
  show ?case
  proof (cases "k = 0")
    case True
    then show ?thesis by (subst io_copy.simps) (auto intro!: exI [of _ es])
  next
    case False
    define n where "n = min k copy_buffer"
    have n: "0 < n" "n \<le> k" using False by (auto simp: n_def copy_buffer_def)
    obtain r es' where r: "script_read n es = (r, es')" by force
    show ?thesis
    proof (cases r)
      case (Inl e)
      with r have "script_size es' < script_size es" by (simp add: script_read_size)
      from less [OF this, of k] show ?thesis
        using r Inl n script_read_error [of n es e es'] False
        by (subst (1 2 3) io_copy.simps) (auto simp: n_def [symmetric])
    next
      case (Inr bs)
      show ?thesis
      proof (cases "bs = []")
        case True
        with r Inr n script_read_eof [of n es es'] False show ?thesis
          by (subst (1 2 3) io_copy.simps) (auto simp: n_def [symmetric])
      next
        case bs: False
        with r Inr have "script_size es' < script_size es" by (simp add: script_read_size)
        note IH = less [OF this, of "k - length bs"]
        have c: "delivered es = bs @ delivered es'" "failure es = failure es'"
          "after_failure es = after_failure es'" "length bs \<le> n"
          using script_read_chunk [of n es bs es'] r Inr bs by auto
        have step: "io_copy (Some k) es = (case io_copy (Some (k - length bs)) es' of
            (Inl e, x) \<Rightarrow> (Inl e, x) | (Inr j, x) \<Rightarrow> (Inr (length bs + j), x))"
          using r Inr n bs by (subst io_copy.simps) (simp add: n_def [symmetric])
        from IH c n show ?thesis unfolding step by (auto simp: drop_all)
      qed
    qed
  qed
qed

end
