(* ===== verification/Sync_Stream.thy ===== *)
theory Sync_Stream
  imports Guard Byte_Reader
begin

text \<open>
  The owned streams of the blocking client (\<open>src/src/client/sync/stream.rs\<close>): the definitions.
  A stream is the transfer it still holds (\<open>None\<close> once finished) and what it counts; its guard is
  the pair of flags of the client's state. An \<open>expect\<close> on a finished stream, and a budget that
  would go below zero, is a panic.
\<close>

section \<open>Reading within a budget\<close>

definition usize_try_from :: "('s, 'c, 't) ftp_lib \<Rightarrow> 64 word \<Rightarrow> nat option" where
  "usize_try_from F n = (if unat n \<le> lib_usize_max F then Some (unat n) else None)"

definition read_limit :: "('s, 'c, 't) ftp_lib \<Rightarrow> 64 word \<Rightarrow> nat \<Rightarrow> nat" where
  "read_limit F budget buf =
     min (case usize_try_from F budget of None \<Rightarrow> lib_usize_max F | Some n \<Rightarrow> n) buf"

definition read_limited ::
  "('s, 'c, 't) ftp_lib \<Rightarrow> script \<Rightarrow> 64 word option \<Rightarrow> nat
     \<Rightarrow> ((io_error + string) \<times> script \<times> 64 word option) option" where
  "read_limited F inner remaining buf =
     (case remaining of
        None \<Rightarrow> (case script_read buf inner of (r, inner') \<Rightarrow> Some (r, inner', None))
      | Some budget \<Rightarrow>
          if budget = 0 then Some (Inr [], inner, Some budget)
          else (case script_read (read_limit F budget buf) inner of
                  (Inl e, inner') \<Rightarrow> Some (Inl e, inner', Some budget)
                | (Inr bytes, inner') \<Rightarrow>
                    if unat budget < length bytes then None
                    else Some (Inr bytes, inner', Some (budget - of_nat (length bytes)))))"

section \<open>Closing a download\<close>

definition finish_read_result :: "remote_error + unit \<Rightarrow> remote_error + unit \<Rightarrow> remote_error + unit" where
  "finish_read_result drained finished =
     (case (drained, finished) of
        (Inr _, Inr _) \<Rightarrow> Inr ()
      | (Inl error, Inr _) \<Rightarrow> Inl error
      | (Inr _, Inl error) \<Rightarrow> Inl error
      | (Inl drain, Inl finish) \<Rightarrow>
          Inl (with_source (kind drain) (DynCleanupFailure drain finish)))"

definition drain :: "('s, 'c, 't) ftp_lib \<Rightarrow> script \<Rightarrow> bool \<Rightarrow> (remote_error + unit) \<times> script" where
  "drain F events at_eof =
     (if \<not> at_eof
      then (case io_copy None events of
              (r, rest) \<Rightarrow> (map_err (lib_from_io F) (map_sum id (\<lambda>_. ()) r), rest))
      else (Inr (), events))"

definition finish_read ::
  "('s, 'c, 't) ftp_lib \<Rightarrow> 't transfer \<Rightarrow> bool \<Rightarrow> (('s, 'z) conn_scheme, remote_error + unit) act" where
  "finish_read F inner at_eof =
     (case drain F (tr_events inner) at_eof of
        (drained, rest) \<Rightarrow>
          seq (on_world (lib_finish_read F (inner\<lparr>tr_events := rest\<rparr>))) (\<lambda>r.
          ret (finish_read_result drained (map_err ftp_error r))))"

section \<open>Download streams\<close>

record 't read_stream =
  rd_inner :: "'t transfer option"
  rd_remaining :: "64 word option"
  rd_at_eof :: bool

definition new_read_stream :: "'t transfer \<Rightarrow> 64 word option \<Rightarrow> 't read_stream" where
  "new_read_stream inner len = \<lparr> rd_inner = Some inner, rd_remaining = len, rd_at_eof = False \<rparr>"

text \<open>Skipping copies the prefix into a sink without touching the budget.\<close>

definition skip_prefix ::
  "('s, 'c, 't) ftp_lib \<Rightarrow> 't read_stream \<Rightarrow> 64 word \<Rightarrow> ('z, (remote_error + unit) \<times> 't read_stream) act" where
  "skip_prefix F rd offset =
     seq (expect (rd_inner rd)) (\<lambda>inner.
     case io_copy (Some (unat offset)) (tr_events inner) of
       (r, rest) \<Rightarrow>
         let rd' = rd\<lparr>rd_inner := Some (inner\<lparr>tr_events := rest\<rparr>)\<rparr> in
         (case r of
            Inl e \<Rightarrow> ret (Inl (lib_from_io F e), rd')
          | Inr skipped \<Rightarrow>
              ret (Inr (), if skipped < unat offset then rd'\<lparr>rd_at_eof := True\<rparr> else rd')))"

definition finish_inner ::
  "('s, 'c, 't) ftp_lib \<Rightarrow> 't read_stream
     \<Rightarrow> (('s, 'z) conn_scheme, (remote_error + unit) \<times> 't read_stream) act" where
  "finish_inner F rd =
     seq (expect (rd_inner rd)) (\<lambda>inner.
     seq (finish_read F inner (rd_at_eof rd)) (\<lambda>result.
     seq (case result of Inl _ \<Rightarrow> guard_invalidate | Inr _ \<Rightarrow> ret ()) (\<lambda>_.
     ret (result, rd\<lparr>rd_inner := None\<rparr>))))"

text \<open>Dropping a stream runs its \<open>Drop\<close> and then drops its guard.\<close>

definition drop_read_stream ::
  "('s, 'c, 't) ftp_lib \<Rightarrow> 't read_stream \<Rightarrow> (('s, 'z) conn_scheme, unit) act" where
  "drop_read_stream F rd =
     seq (case rd_inner rd of
            None \<Rightarrow> ret ()
          | Some inner \<Rightarrow>
              seq (finish_read F inner (rd_at_eof rd)) (\<lambda>result.
              case result of Inl _ \<Rightarrow> guard_invalidate | Inr _ \<Rightarrow> ret ()))
     (\<lambda>_. guard_drop)"

definition skip_result :: "remote_error \<Rightarrow> remote_error + unit \<Rightarrow> remote_error" where
  "skip_result skip finished =
     (case finished of
        Inr _ \<Rightarrow> skip
      | Inl finish \<Rightarrow> with_source (kind skip) (DynSkipCleanupFailure skip finish))"

definition finish_after_skip ::
  "('s, 'c, 't) ftp_lib \<Rightarrow> 't read_stream \<Rightarrow> remote_error \<Rightarrow> (('s, 'z) conn_scheme, remote_error) act" where
  "finish_after_skip F rd skip =
     seq (finish_inner F rd) (\<lambda>(finished, rd').
     seq (drop_read_stream F rd') (\<lambda>_.
     ret (skip_result skip finished)))"

definition read_stream_finish ::
  "('s, 'c, 't) ftp_lib \<Rightarrow> 't read_stream \<Rightarrow> (('s, 'z) conn_scheme, remote_error + unit) act" where
  "read_stream_finish F rd =
     seq (finish_inner F rd) (\<lambda>(result, rd').
     seq (drop_read_stream F rd') (\<lambda>_.
     ret result))"

text \<open>\<open>Read::read\<close> with a buffer of \<open>buf\<close> bytes: the bytes read and the stream after.\<close>

definition read_stream_read ::
  "('s, 'c, 't) ftp_lib \<Rightarrow> 't read_stream \<Rightarrow> nat \<Rightarrow> ((io_error + string) \<times> 't read_stream) option" where
  "read_stream_read F rd buf =
     (if buf = 0 then Some (Inr [], rd)
      else do {
        inner \<leftarrow> rd_inner rd;
        (r, rest, remaining) \<leftarrow> read_limited F (tr_events inner) (rd_remaining rd) buf;
        let rd' = rd\<lparr>rd_inner := Some (inner\<lparr>tr_events := rest\<rparr>), rd_remaining := remaining\<rparr>;
        Some (case r of
           Inl e \<Rightarrow> (Inl e, rd')
         | Inr bytes \<Rightarrow>
             (Inr bytes, if bytes = [] \<and> remaining \<noteq> Some 0 then rd'\<lparr>rd_at_eof := True\<rparr> else rd'))
      })"

section \<open>Upload streams\<close>

record 't write_stream =
  wr_inner :: "'t option"

definition new_write_stream :: "'t \<Rightarrow> 't write_stream" where
  "new_write_stream inner = \<lparr> wr_inner = Some inner \<rparr>"

definition write_stream_write ::
  "('s, 'c, 't) ftp_lib \<Rightarrow> 't write_stream \<Rightarrow> string \<Rightarrow> (('s, 'z) conn_scheme, io_error + nat) act" where
  "write_stream_write F wr buf =
     seq (expect (wr_inner wr)) (\<lambda>inner. on_world (lib_write F inner buf))"

definition write_stream_flush ::
  "('s, 'c, 't) ftp_lib \<Rightarrow> 't write_stream \<Rightarrow> (('s, 'z) conn_scheme, io_error + unit) act" where
  "write_stream_flush F wr = seq (expect (wr_inner wr)) (\<lambda>inner. on_world (lib_flush F inner))"

definition finish_write_result :: "remote_error + unit \<Rightarrow> remote_error + unit \<Rightarrow> remote_error + unit" where
  "finish_write_result flushed finished =
     (case (flushed, finished) of
        (Inr _, Inr _) \<Rightarrow> Inr ()
      | (Inl flush, Inr _) \<Rightarrow> Inl flush
      | (Inr _, Inl flush) \<Rightarrow> Inl flush
      | (Inl flush, Inl finish) \<Rightarrow>
          Inl (with_source (kind finish) (DynWriteCleanupFailure flush finish)))"

definition finish_write ::
  "('s, 'c, 't) ftp_lib \<Rightarrow> 't \<Rightarrow> (('s, 'z) conn_scheme, remote_error + unit) act" where
  "finish_write F inner =
     seq (on_world (lib_flush F inner)) (\<lambda>flush.
     seq (on_world (lib_finish_write F inner)) (\<lambda>finish.
     ret (finish_write_result (map_err (lib_from_io F) flush) (map_err ftp_error finish))))"

definition drop_write_stream ::
  "('s, 'c, 't) ftp_lib \<Rightarrow> 't write_stream \<Rightarrow> (('s, 'z) conn_scheme, unit) act" where
  "drop_write_stream F wr =
     seq (case wr_inner wr of
            None \<Rightarrow> ret ()
          | Some inner \<Rightarrow>
              seq (finish_write F inner) (\<lambda>result.
              case result of Inl _ \<Rightarrow> guard_invalidate | Inr _ \<Rightarrow> ret ()))
     (\<lambda>_. guard_drop)"

definition write_stream_finish ::
  "('s, 'c, 't) ftp_lib \<Rightarrow> 't write_stream \<Rightarrow> (('s, 'z) conn_scheme, remote_error + unit) act" where
  "write_stream_finish F wr =
     seq (expect (wr_inner wr)) (\<lambda>inner.
     seq (finish_write F inner) (\<lambda>result.
     seq (case result of Inl _ \<Rightarrow> guard_invalidate | Inr _ \<Rightarrow> ret ()) (\<lambda>_.
     seq (drop_write_stream F (wr\<lparr>wr_inner := None\<rparr>)) (\<lambda>_.
     ret result))))"

end
