(* ===== verification/Sync_Client.thy ===== *)
theory Sync_Client
  imports Sync_Stream Remote_Path
begin

text \<open>
  The blocking client's state, its builder methods, and how it guards and keeps its control
  connection (the first half of \<open>src/src/client/sync.rs\<close>, built with \<open>native-tls\<close>). The mutex
  around the control stream is the field \<open>fs_locked\<close>: locking it twice is a panic, since the
  thread would wait for itself. A guard that goes out of scope is \<open>with_lock\<close>.
\<close>

section \<open>State\<close>

text \<open>A control stream, and whether the client hooked a passive stream builder into it.\<close>

record 'c control =
  ctl_handle :: 'c
  ctl_hooked :: bool

record ('s, 'c) ftp_fs = "'s conn" +
  fs_locked :: bool
  fs_stream :: "'c control option"
  fs_hostname :: string
  fs_port :: "16 word"
  fs_username :: string
  fs_password :: "string option"
  fs_builder :: "nat option"
  fs_mode :: mode
  fs_secure :: bool
  fs_accept_invalid_certs :: bool
  fs_accept_invalid_hostnames :: bool

definition new :: "string \<Rightarrow> 16 word \<Rightarrow> 's \<Rightarrow> ('s, 'c) ftp_fs" where
  "new hostname port w = \<lparr>
     transfer_active = False, connection_usable = True, world = w,
     fs_locked = False, fs_stream = None, fs_hostname = hostname, fs_port = port,
     fs_username = ''anonymous'', fs_password = None, fs_builder = None, fs_mode = Passive,
     fs_secure = False, fs_accept_invalid_certs = False, fs_accept_invalid_hostnames = False \<rparr>"

definition username :: "string \<Rightarrow> ('s, 'c) ftp_fs \<Rightarrow> ('s, 'c) ftp_fs" where
  "username u s = s\<lparr>fs_username := u\<rparr>"

definition password :: "string \<Rightarrow> ('s, 'c) ftp_fs \<Rightarrow> ('s, 'c) ftp_fs" where
  "password p s = s\<lparr>fs_password := Some p\<rparr>"

definition active_mode :: "('s, 'c) ftp_fs \<Rightarrow> ('s, 'c) ftp_fs" where
  "active_mode s = s\<lparr>fs_mode := Active\<rparr>"

definition passive_mode :: "('s, 'c) ftp_fs \<Rightarrow> ('s, 'c) ftp_fs" where
  "passive_mode s = s\<lparr>fs_mode := Passive\<rparr>"

definition secure :: "bool \<Rightarrow> bool \<Rightarrow> ('s, 'c) ftp_fs \<Rightarrow> ('s, 'c) ftp_fs" where
  "secure certs hostnames s =
     s\<lparr>fs_secure := True, fs_accept_invalid_certs := certs, fs_accept_invalid_hostnames := hostnames\<rparr>"

definition passive_stream_builder :: "nat \<Rightarrow> ('s, 'c) ftp_fs \<Rightarrow> ('s, 'c) ftp_fs" where
  "passive_stream_builder builder s = s\<lparr>fs_builder := Some builder\<rparr>"

text \<open>The accessor for raw commands: \<open>None\<close> during a transfer and on an unusable connection.\<close>

definition stream :: "('s, 'c) ftp_fs \<Rightarrow> 'c control option" where
  "stream s = (if transfer_active s \<or> \<not> connection_usable s then None else fs_stream s)"

section \<open>The mutex and the flags\<close>

definition lock :: "(('s, 'c) ftp_fs, unit) act" where
  "lock = (\<lambda>s. if fs_locked s then None else Some ((), s\<lparr>fs_locked := True\<rparr>))"

definition with_lock :: "(('s, 'c) ftp_fs, 'a) act \<Rightarrow> (('s, 'c) ftp_fs, 'a) act" where
  "with_lock m =
     seq lock (\<lambda>_. seq m (\<lambda>r. seq (update (\<lambda>s. s\<lparr>fs_locked := False\<rparr>)) (\<lambda>_. ret r)))"

definition mark_connection_unusable :: "(('s, 'z) conn_scheme, unit) act" where
  "mark_connection_unusable = update (\<lambda>s. s\<lparr>connection_usable := False\<rparr>)"

definition busy_error :: remote_error where
  "busy_error = with_message KProtocolError
     ''a data transfer is in progress; finish or drop its stream first''"

definition unusable_error :: remote_error where
  "unusable_error = with_message KConnectionError
     ''the control connection is unusable; reconnect before retrying''"

definition check_operation_state :: "(('s, 'z) conn_scheme, remote_error + unit) act" where
  "check_operation_state =
     seq (gets transfer_active) (\<lambda>active.
     if active then raise busy_error
     else seq (gets connection_usable) (\<lambda>usable.
     if \<not> usable then raise unusable_error
     else ok ()))"

definition record_ftp_error :: "FtpError \<Rightarrow> (('s, 'z) conn_scheme, unit) act" where
  "record_ftp_error err =
     (if transfer_setup_requires_reconnect err then mark_connection_unusable else ret ())"

definition record_remote_error :: "remote_error \<Rightarrow> (('s, 'z) conn_scheme, unit) act" where
  "record_remote_error err =
     (if remote_error_requires_reconnect err then mark_connection_unusable else ret ())"

text \<open>\<open>if let Err(error) = &result\<close> followed by a recording.\<close>

definition on_error :: "('e \<Rightarrow> ('s, unit) act) \<Rightarrow> 'e + 'a \<Rightarrow> ('s, unit) act" where
  "on_error f r = (case r of Inl e \<Rightarrow> f e | Inr _ \<Rightarrow> ret ())"

text \<open>
  Raising the transfer flag; the guard is the pair of flags, so it needs no value.
\<close>

definition start_transfer :: "(('s, 'z) conn_scheme, unit) act" where
  "start_transfer = update (\<lambda>s. s\<lparr>transfer_active := True\<rparr>)"

section \<open>Commands\<close>

text \<open>
  A command on the control stream, and a data command, which may call the passive stream
  builder: the closure that \<open>connect\<close> installs clears the flag when the builder fails.
\<close>

definition command ::
  "('c \<Rightarrow> 's \<Rightarrow> 'a \<times> 's) \<Rightarrow> 'c control \<Rightarrow> (('s, 'z) conn_scheme, 'a) act" where
  "command op c = on_world (op (ctl_handle c))"

definition data_command ::
  "('c \<Rightarrow> 's \<Rightarrow> ('a \<times> bool) \<times> 's) \<Rightarrow> 'c control \<Rightarrow> (('s, 'z) conn_scheme, 'a) act" where
  "data_command op c =
     seq (on_world (op (ctl_handle c))) (\<lambda>(r, builder_failed).
     seq (if ctl_hooked c \<and> builder_failed then mark_connection_unusable else ret ()) (\<lambda>_.
     ret r))"

definition with_stream ::
  "('c control \<Rightarrow> (('s, 'c) ftp_fs, remote_error + 'a) act) \<Rightarrow> (('s, 'c) ftp_fs, remote_error + 'a) act" where
  "with_stream f =
     with_lock (
       attempt check_operation_state (\<lambda>_.
       seq (gets fs_stream) (\<lambda>guard.
       case guard of
         None \<Rightarrow> raise (new_error KNotConnected)
       | Some c \<Rightarrow>
           seq (f c) (\<lambda>result.
           seq (on_error record_remote_error result) (\<lambda>_.
           ret result)))))"

text \<open>The \<open>Drop\<close> of \<open>ExclusiveStream\<close> puts the stream back and lowers the flag.\<close>

definition drop_exclusive :: "'c control option \<Rightarrow> (('s, 'c) ftp_fs, unit) act" where
  "drop_exclusive owned =
     seq (case owned of
            None \<Rightarrow> ret ()
          | Some c \<Rightarrow> with_lock (update (\<lambda>s. s\<lparr>fs_stream := Some c\<rparr>)))
     (\<lambda>_. update (\<lambda>s. s\<lparr>transfer_active := False\<rparr>))"

definition with_exclusive_stream ::
  "('c control \<Rightarrow> (('s, 'c) ftp_fs, remote_error + 'a) act) \<Rightarrow> (('s, 'c) ftp_fs, remote_error + 'a) act" where
  "with_exclusive_stream f =
     attempt (with_lock (
       attempt check_operation_state (\<lambda>_.
       seq (gets fs_stream) (\<lambda>guard.
       case guard of
         None \<Rightarrow> raise (new_error KNotConnected)
       | Some c \<Rightarrow>
           seq (update (\<lambda>s. s\<lparr>fs_stream := None, transfer_active := True\<rparr>)) (\<lambda>_.
           ok c))))) (\<lambda>c.
     seq (f c) (\<lambda>result.
     seq (on_error record_remote_error result) (\<lambda>_.
     seq (drop_exclusive (Some c)) (\<lambda>_.
     ret result))))"

definition welcome_message :: "('s, 'c, 't) ftp_lib \<Rightarrow> (('s, 'c) ftp_fs, string option) act" where
  "welcome_message F =
     with_lock (gets (\<lambda>s.
       case fs_stream s of None \<Rightarrow> None | Some c \<Rightarrow> lib_welcome F (ctl_handle c) (world s)))"

section \<open>Connecting\<close>

definition setup_tls_connector :: "('s, 'c, 't) ftp_lib \<Rightarrow> ('s, 'c) ftp_fs \<Rightarrow> remote_error + nat" where
  "setup_tls_connector F s =
     map_err (with_source KConnectionError)
       (lib_tls_build F (fs_accept_invalid_certs s) (fs_accept_invalid_hostnames s))"

text \<open>A stream that goes out of scope is closed.\<close>

definition drop_stream :: "('s, 'c, 't) ftp_lib \<Rightarrow> 'c \<Rightarrow> (('s, 'z) conn_scheme, unit) act" where
  "drop_stream F c = update (\<lambda>s. s\<lparr>world := lib_close F c (world s)\<rparr>)"

definition or_drop ::
  "('s, 'c, 't) ftp_lib \<Rightarrow> 'c \<Rightarrow> (('s, 'z) conn_scheme, 'e + 'a) act \<Rightarrow> (('s, 'z) conn_scheme, 'e + 'a) act" where
  "or_drop F c m =
     seq m (\<lambda>r. case r of Inl e \<Rightarrow> seq (drop_stream F c) (\<lambda>_. raise e) | Inr x \<Rightarrow> ok x)"

definition address :: "string \<Rightarrow> 16 word \<Rightarrow> string" where
  "address hostname port = hostname @ '':'' @ decimal (unat port)"

definition secure_stream ::
  "('s, 'c, 't) ftp_lib \<Rightarrow> 'c \<Rightarrow> (('s, 'c) ftp_fs, remote_error + 'c) act" where
  "secure_stream F c =
     seq (gets fs_secure) (\<lambda>secure.
     if \<not> secure then ok c
     else
       attempt (or_drop F c (seq (gets (setup_tls_connector F)) ret)) (\<lambda>connector.
       seq (gets fs_hostname) (\<lambda>hostname.
       seq (on_world (lib_into_secure F c connector hostname)) (\<lambda>r.
       ret (map_err (\<lambda>e. with_source KConnectionError (DynFtp e)) r)))))"

definition install_builder :: "('s, 'c, 't) ftp_lib \<Rightarrow> 'c \<Rightarrow> (('s, 'c) ftp_fs, bool) act" where
  "install_builder F c =
     seq (gets fs_builder) (\<lambda>builder.
     case builder of
       None \<Rightarrow> ret False
     | Some b \<Rightarrow> seq (update (\<lambda>s. s\<lparr>world := lib_set_builder F c b (world s)\<rparr>)) (\<lambda>_. ret True))"

definition log_in :: "('s, 'c, 't) ftp_lib \<Rightarrow> 'c \<Rightarrow> (('s, 'c) ftp_fs, remote_error + unit) act" where
  "log_in F c =
     seq (gets fs_username) (\<lambda>user.
     seq (gets (\<lambda>s. case fs_password s of None \<Rightarrow> [] | Some p \<Rightarrow> p)) (\<lambda>pass.
     seq (on_world (lib_login F c user pass)) (\<lambda>r.
     ret (map_err ftp_error r))))"

text \<open>From the first byte on the network to a stream ready for use, in the order of the source.\<close>

definition open_control :: "('s, 'c, 't) ftp_lib \<Rightarrow> (('s, 'c) ftp_fs, remote_error + 'c control) act" where
  "open_control F =
     seq (gets (\<lambda>s. address (fs_hostname s) (fs_port s))) (\<lambda>addr.
     attempt (seq (on_world (lib_connect F addr)) (\<lambda>r. ret (map_err ftp_error r))) (\<lambda>c.
     seq (install_builder F c) (\<lambda>hooked.
     seq (gets fs_mode) (\<lambda>mode.
     seq (update (\<lambda>s. s\<lparr>world := lib_set_mode F c mode (world s)\<rparr>)) (\<lambda>_.
     attempt (secure_stream F c) (\<lambda>c.
     attempt (or_drop F c (log_in F c)) (\<lambda>_.
     attempt (or_drop F c
       (seq (on_world (lib_transfer_type F c Binary)) (\<lambda>r. ret (map_err ftp_error r)))) (\<lambda>_.
     ok \<lparr> ctl_handle = c, ctl_hooked = hooked \<rparr>))))))))"

text \<open>Dropping the stream of an unusable connection, before the next one is opened.\<close>

definition forget_unusable :: "('s, 'c, 't) ftp_lib \<Rightarrow> (('s, 'c) ftp_fs, unit) act" where
  "forget_unusable F =
     seq (gets connection_usable) (\<lambda>usable.
     if \<not> usable then
       seq (with_lock (
         seq (gets fs_stream) (\<lambda>old.
         seq (update (\<lambda>s. s\<lparr>fs_stream := None\<rparr>)) (\<lambda>_.
         case old of None \<Rightarrow> ret () | Some c \<Rightarrow> drop_stream F (ctl_handle c))))) (\<lambda>_.
       update (\<lambda>s. s\<lparr>connection_usable := True\<rparr>))
     else ret ())"

definition connect :: "('s, 'c, 't) ftp_lib \<Rightarrow> (('s, 'c) ftp_fs, remote_error + unit) act" where
  "connect F =
     seq (gets transfer_active) (\<lambda>active.
     if active then raise busy_error
     else
       seq (gets connection_usable) (\<lambda>usable.
       seq (if usable then with_lock (gets (\<lambda>s. fs_stream s \<noteq> None)) else ret False) (\<lambda>connected.
       if connected then raise (new_error KAlreadyConnected)
       else
         seq (forget_unusable F) (\<lambda>_.
         attempt (open_control F) (\<lambda>c.
         seq (with_lock (update (\<lambda>s. s\<lparr>fs_stream := Some c\<rparr>))) (\<lambda>_.
         ok ()))))))"

definition closed_error :: remote_error where
  "closed_error = with_message KConnectionError ''the control connection was unusable and has been closed''"

definition disconnect :: "('s, 'c, 't) ftp_lib \<Rightarrow> (('s, 'c) ftp_fs, remote_error + unit) act" where
  "disconnect F =
     seq (gets transfer_active) (\<lambda>active.
     if active then raise busy_error
     else
       seq (gets connection_usable) (\<lambda>usable.
       seq (with_lock (
         seq (gets fs_stream) (\<lambda>taken.
         seq (update (\<lambda>s. s\<lparr>fs_stream := None\<rparr>)) (\<lambda>_. ret taken)))) (\<lambda>taken.
       case taken of
         None \<Rightarrow> raise (new_error KNotConnected)
       | Some c \<Rightarrow>
           seq (update (\<lambda>s. s\<lparr>connection_usable := True\<rparr>)) (\<lambda>_.
           if \<not> usable then seq (drop_stream F (ctl_handle c)) (\<lambda>_. raise closed_error)
           else
             seq (on_world (lib_quit F (ctl_handle c))) (\<lambda>r.
             let result = map_err ftp_error r in
             seq (on_error record_remote_error result) (\<lambda>_.
             seq (drop_stream F (ctl_handle c)) (\<lambda>_.
             ret result)))))))"

definition is_connected :: "(('s, 'c) ftp_fs, bool) act" where
  "is_connected =
     seq (gets connection_usable) (\<lambda>usable.
     if \<not> usable then ret False
     else
       seq (with_lock (gets (\<lambda>s. fs_stream s \<noteq> None))) (\<lambda>some.
       if some then ret True else gets transfer_active))"

definition capabilities :: "capability set" where
  "capabilities = {STREAM_READ, STREAM_WRITE, APPEND, RANGE_READ, EXEC}"

end
