(* ===== verification/Sync_Ops.thy ===== *)
theory Sync_Ops
  imports Sync_Probe
begin

text \<open>
  The filesystem operations of the blocking client: the rest of \<open>impl RemoteFs for FtpFs\<close> in
  \<open>src/src/client/sync.rs\<close>. Every operation validates its paths first, sends its command under
  the lock, and classifies a refusal after the lock is released.
\<close>

section \<open>Commands\<close>

text \<open>Running one command and keeping its FTP result: the closure of every such operation.\<close>

definition recorded ::
  "(('s, 'z) conn_scheme, FtpError + 'a) act \<Rightarrow> (('s, 'z) conn_scheme, remote_error + (FtpError + 'a)) act" where
  "recorded m = seq m (\<lambda>result. seq (on_error record_ftp_error result) (\<lambda>_. ok result))"

definition set_metadata :: "('s, 'c, 't) ftp_lib \<Rightarrow> string \<Rightarrow> metadata \<Rightarrow> (('s, 'c) ftp_fs, remote_error + unit) act" where
  "set_metadata F path md =
     attempt (ret (remote_path (lib_ensure F) path)) (\<lambda>_. raise (new_error KUnsupportedFeature))"

definition create_dir ::
  "('s, 'c, 't) ftp_lib \<Rightarrow> string \<Rightarrow> unix_pex option \<Rightarrow> (('s, 'c) ftp_fs, remote_error + unit) act" where
  "create_dir F path mode =
     attempt (ret (remote_path (lib_ensure F) path)) (\<lambda>remote.
     attempt (with_stream (\<lambda>c. recorded (command (\<lambda>h. lib_mkdir F h remote) c))) (\<lambda>result.
     case result of
       Inr _ \<Rightarrow> ok ()
     | Inl e \<Rightarrow>
         if is_creation_refusal e then seq (classify_create_dir_refusal F path e) raise
         else raise (ftp_error e)))"

definition remove_file :: "('s, 'c, 't) ftp_lib \<Rightarrow> string \<Rightarrow> (('s, 'c) ftp_fs, remote_error + unit) act" where
  "remove_file F path =
     attempt (ret (remote_path (lib_ensure F) path)) (\<lambda>remote.
     attempt (with_stream (\<lambda>c. recorded (command (\<lambda>h. lib_rm F h remote) c))) (\<lambda>result.
     case result of
       Inr _ \<Rightarrow> ok ()
     | Inl err \<Rightarrow> seq (classify_file_refusal F path err) raise))"

definition remove_dir :: "('s, 'c, 't) ftp_lib \<Rightarrow> string \<Rightarrow> (('s, 'c) ftp_fs, remote_error + unit) act" where
  "remove_dir F path =
     attempt (ret (remote_path (lib_ensure F) path)) (\<lambda>remote.
     attempt (with_stream (\<lambda>c. recorded (command (\<lambda>h. lib_rmdir F h remote) c))) (\<lambda>result.
     case result of
       Inr _ \<Rightarrow> ok ()
     | Inl err \<Rightarrow>
         seq (record_ftp_error err) (\<lambda>_.
         seq (classify_remove_dir_refusal F path err) raise)))"

definition rename ::
  "('s, 'c, 't) ftp_lib \<Rightarrow> string \<Rightarrow> string \<Rightarrow> (('s, 'c) ftp_fs, remote_error + unit) act" where
  "rename F src dest =
     attempt (ret (remote_path (lib_ensure F) src)) (\<lambda>remote_src.
     attempt (ret (remote_path (lib_ensure F) dest)) (\<lambda>remote_dest.
     attempt (with_stream (\<lambda>c. recorded (command (\<lambda>h. lib_rename F h remote_src remote_dest) c))) (\<lambda>result.
     case result of
       Inr _ \<Rightarrow> ok ()
     | Inl err \<Rightarrow> seq (classify_rename_refusal F src dest err) raise)))"

definition copy ::
  "('s, 'c, 't) ftp_lib \<Rightarrow> string \<Rightarrow> string \<Rightarrow> (('s, 'c) ftp_fs, remote_error + unit) act" where
  "copy F src dest =
     attempt (ret (remote_path (lib_ensure F) src)) (\<lambda>_.
     attempt (ret (remote_path (lib_ensure F) dest)) (\<lambda>_.
     raise (new_error KUnsupportedFeature)))"

definition symlink ::
  "('s, 'c, 't) ftp_lib \<Rightarrow> string \<Rightarrow> string \<Rightarrow> (('s, 'c) ftp_fs, remote_error + unit) act" where
  "symlink F path target =
     attempt (ret (remote_path (lib_ensure F) path)) (\<lambda>_.
     attempt (ret (remote_path (lib_ensure F) target)) (\<lambda>_.
     raise (new_error KUnsupportedFeature)))"

definition exec :: "('s, 'c, 't) ftp_lib \<Rightarrow> string \<Rightarrow> (('s, 'c) ftp_fs, remote_error + exec_output) act" where
  "exec F cmd =
     attempt (with_stream (\<lambda>c.
       seq (command (\<lambda>h. lib_site F h cmd) c) (\<lambda>r. ret (map_err ftp_error r)))) (\<lambda>response.
     ok \<lparr> eo_status = lib_status_code F (status response),
          eo_output = from_utf8_lossy (body response) \<rparr>)"

section \<open>Transfers\<close>

text \<open>
  A restart marker is requested first; a server that refuses it (but stays available) makes the
  client skip the prefix locally.
\<close>

definition request_offset ::
  "('s, 'c, 't) ftp_lib \<Rightarrow> 'c control \<Rightarrow> 64 word \<Rightarrow> (('s, 'z) conn_scheme, remote_error + bool) act" where
  "request_offset F c offset =
     (case usize_try_from F offset of
        None \<Rightarrow> ok False
      | Some n \<Rightarrow>
          seq (command (\<lambda>h. lib_resume_transfer F h n) c) (\<lambda>r.
          case r of
            Inr _ \<Rightarrow> ok True
          | Inl (UnexpectedResponse response) \<Rightarrow>
              if status response \<noteq> NotAvailable then ok False
              else raise (ftp_error (UnexpectedResponse response))
          | Inl error \<Rightarrow> raise (ftp_error error)))"

text \<open>
  After a refused \<open>RETR\<close> with a marker set, the marker is reset and the transfer tried again
  from the start.
\<close>

definition retry_from_start ::
  "('s, 'c, 't) ftp_lib \<Rightarrow> 'c control \<Rightarrow> string \<Rightarrow> bool \<Rightarrow> 't transfer outcome
     \<Rightarrow> (('s, 'z) conn_scheme, remote_error + (bool \<times> 't transfer outcome)) act" where
  "retry_from_start F c remote resumed result =
     (case result of
        Inr _ \<Rightarrow> ok (resumed, result)
      | Inl _ \<Rightarrow>
          if \<not> resumed then ok (resumed, result)
          else
            seq (command (\<lambda>h. lib_resume_transfer F h 0) c) (\<lambda>r.
            case r of
              Inr _ \<Rightarrow>
                seq (data_command (\<lambda>h. lib_retr F h remote) c) (\<lambda>result'.
                ok (False, result'))
            | Inl error \<Rightarrow>
                seq mark_connection_unusable (\<lambda>_. raise (ftp_error error))))"

definition offset_of :: "read_options \<Rightarrow> 64 word" where
  "offset_of opts = (case ro_offset opts of None \<Rightarrow> 0 | Some n \<Rightarrow> n)"

definition start_download ::
  "('s, 'c, 't) ftp_lib \<Rightarrow> string \<Rightarrow> 64 word \<Rightarrow> 'c control
     \<Rightarrow> (('s, 'z) conn_scheme, remote_error + ('t transfer \<times> bool) outcome) act" where
  "start_download F remote offset c =
     attempt (if offset > 0 then request_offset F c offset else ok False) (\<lambda>resumed.
     seq (data_command (\<lambda>h. lib_retr F h remote) c) (\<lambda>result.
     attempt (retry_from_start F c remote resumed result) (\<lambda>(resumed, result).
     seq (on_error record_ftp_error result) (\<lambda>_.
     case result of
       Inl err \<Rightarrow> ok (Inl err)
     | Inr transfer \<Rightarrow> seq start_transfer (\<lambda>_. ok (Inr (transfer, resumed)))))))"

definition open_file ::
  "('s, 'c, 't) ftp_lib \<Rightarrow> string \<Rightarrow> read_options \<Rightarrow> (('s, 'c) ftp_fs, remote_error + 't read_stream) act" where
  "open_file F path opts =
     attempt (ret (remote_path (lib_ensure F) path)) (\<lambda>remote.
     let offset = offset_of opts in
     attempt (with_stream (start_download F remote offset)) (\<lambda>transfer_result.
     case transfer_result of
       Inl err \<Rightarrow> seq (classify_file_refusal F path err) raise
     | Inr (transfer, resumed) \<Rightarrow>
         let reader = new_read_stream transfer (ro_length opts) in
         if offset > 0 \<and> \<not> resumed then
           seq (skip_prefix F reader offset) (\<lambda>(r, reader).
           case r of
             Inl skip \<Rightarrow> seq (finish_after_skip F reader skip) raise
           | Inr _ \<Rightarrow> ok reader)
         else ok reader))"

definition start_upload ::
  "('c \<Rightarrow> 's \<Rightarrow> ('t outcome \<times> bool) \<times> 's) \<Rightarrow> 'c control
     \<Rightarrow> (('s, 'z) conn_scheme, remote_error + 't outcome) act" where
  "start_upload op c =
     seq (data_command op c) (\<lambda>result.
     seq (on_error record_ftp_error result) (\<lambda>_.
     case result of
       Inl err \<Rightarrow> ok (Inl err)
     | Inr transfer \<Rightarrow> seq start_transfer (\<lambda>_. ok (Inr transfer))))"

definition create_file ::
  "('s, 'c, 't) ftp_lib \<Rightarrow> string \<Rightarrow> write_options \<Rightarrow> (('s, 'c) ftp_fs, remote_error + 't write_stream) act" where
  "create_file F path opts =
     attempt (ret (remote_path (lib_ensure F) path)) (\<lambda>remote.
     attempt (with_stream (start_upload (\<lambda>h. lib_put F h remote))) (\<lambda>transfer_result.
     case transfer_result of
       Inl err \<Rightarrow> seq (classify_create_refusal F path err) raise
     | Inr transfer \<Rightarrow> ok (new_write_stream transfer)))"

definition append_file ::
  "('s, 'c, 't) ftp_lib \<Rightarrow> string \<Rightarrow> write_options \<Rightarrow> (('s, 'c) ftp_fs, remote_error + 't write_stream) act" where
  "append_file F path opts =
     attempt (ret (remote_path (lib_ensure F) path)) (\<lambda>remote.
     attempt (with_stream (start_upload (\<lambda>h. lib_append F h remote))) (\<lambda>transfer_result.
     case transfer_result of
       Inl err \<Rightarrow> seq (classify_create_refusal F path err) raise
     | Inr transfer \<Rightarrow> ok (new_write_stream transfer)))"

end
