(* ===== verification/Stream_Facts.thy ===== *)
theory Stream_Facts
  imports Sync_Stream
begin

text \<open>
  Facts about transfer streams. The locale \<open>budget_reader\<close> is what a bounded reader promises its
  caller, whichever client it belongs to; the error combinations are instances of \<open>cleanup\<close>.
\<close>

section \<open>Bounded readers\<close>

text \<open>
  A caller that reads with the given buffer sizes, retries interruptions and stops at the first
  lasting error: what it got, that error, and the stream after.
\<close>

fun read_many ::
  "('rd \<Rightarrow> nat \<Rightarrow> ((io_error + string) \<times> 'rd) option) \<Rightarrow> 'rd \<Rightarrow> nat list
     \<Rightarrow> (string \<times> io_error option \<times> 'rd) option" where
  "read_many read rd [] = Some ([], None, rd)"
| "read_many read rd (n # ns) =
     (case read rd n of
        None \<Rightarrow> None
      | Some (Inl e, rd') \<Rightarrow>
          if io_error_kind e = Interrupted then read_many read rd' ns else Some ([], Some e, rd')
      | Some (Inr bs, rd') \<Rightarrow>
          map_option (\<lambda>(out, err, rd''). (bs @ out, err, rd'')) (read_many read rd' ns))"

locale budget_reader =
  fixes read :: "'rd \<Rightarrow> nat \<Rightarrow> ((io_error + string) \<times> 'rd) option"
    and good :: "'rd \<Rightarrow> bool"
    and left :: "'rd \<Rightarrow> string"
  assumes read_good: "good rd \<Longrightarrow> \<exists>r rd'. read rd n = Some (r, rd') \<and> good rd'"
    and read_left: "good rd \<Longrightarrow> read rd n = Some (Inr bs, rd') \<Longrightarrow> left rd = bs @ left rd'"
    and read_buffer: "good rd \<Longrightarrow> read rd n = Some (Inr bs, rd') \<Longrightarrow> length bs \<le> n"
    and read_eof: "good rd \<Longrightarrow> read rd n = Some (Inr [], rd') \<Longrightarrow> 0 < n \<Longrightarrow> left rd = []"
    and read_interrupted: "good rd \<Longrightarrow> read rd n = Some (Inl e, rd') \<Longrightarrow>
      io_error_kind e = Interrupted \<Longrightarrow> left rd' = left rd"
begin

lemma read_many_total:
  "good rd \<Longrightarrow> \<exists>out err rd'. read_many read rd ns = Some (out, err, rd') \<and> good rd'"
proof (induction ns arbitrary: rd)
  case (Cons n ns)
  from read_good [OF Cons.prems] obtain r rd' where r: "read rd n = Some (r, rd')" "good rd'" by blast
  from Cons.IH [OF r(2)] r show ?case by (cases r) auto
qed simp

lemma read_many_prefix:
  "good rd \<Longrightarrow> read_many read rd ns = Some (out, err, rd') \<Longrightarrow>
     \<exists>rest. left rd = out @ rest \<and> (err = None \<longrightarrow> rest = left rd')"
proof (induction ns arbitrary: rd out)
  case (Cons n ns)
  from read_good [OF Cons.prems(1)] obtain r mid where r: "read rd n = Some (r, mid)" "good mid" by blast
  show ?case
  proof (cases r)
    case (Inl e)
    then show ?thesis
      using Cons.prems Cons.IH [of mid out] r read_interrupted [of rd n e mid]
      by (auto split: if_splits)
  next
    case (Inr bs)
    with Cons.prems(2) r(1) obtain more where more: "read_many read mid ns = Some (more, err, rd')"
      "out = bs @ more" by auto
    from Cons.IH [OF r(2) more(1)] obtain rest where
      "left mid = more @ rest" "err = None \<longrightarrow> rest = left rd'" by blast
    with read_left [OF Cons.prems(1), of n bs mid] r(1) Inr more(2) show ?thesis by auto
  qed
qed auto

text \<open>A caller that reads until a read gives nothing has read exactly what was left.\<close>

lemma read_many_complete:
  assumes "good rd" "read_many read rd ns = Some (out, None, mid)"
    and "read mid n = Some (Inr [], rd')" "0 < n"
  shows "out = left rd"
proof -
  from read_many_total [OF assms(1), of ns] assms(2) have "good mid" by auto
  from read_eof [OF this assms(3,4)] have "left mid = []" .
  with read_many_prefix [OF assms(1,2)] show ?thesis by auto
qed

end

text \<open>
  A reader that gets somewhere: every read that gives bytes or is interrupted leaves less to come, and
  a lasting error comes when nothing is left. Enough reads then receive everything, whatever the sizes
  of their buffers.
\<close>

locale finite_reader = budget_reader +
  fixes pending :: "'a \<Rightarrow> nat"
  assumes read_moves: "good rd \<Longrightarrow> read rd n = Some (Inr bs, rd') \<Longrightarrow> bs \<noteq> [] \<Longrightarrow> pending rd' < pending rd"
    and read_retries: "good rd \<Longrightarrow> read rd n = Some (Inl e, rd') \<Longrightarrow> io_error_kind e = Interrupted \<Longrightarrow>
      pending rd' < pending rd"
    and read_fails: "good rd \<Longrightarrow> read rd n = Some (Inl e, rd') \<Longrightarrow> io_error_kind e \<noteq> Interrupted \<Longrightarrow> left rd = []"
begin

lemma read_many_all:
  "good rd \<Longrightarrow> pending rd < length ns \<Longrightarrow> \<forall>n \<in> set ns. 0 < n \<Longrightarrow>
     \<exists>err rd'. read_many read rd ns = Some (left rd, err, rd') \<and> good rd'"
proof (induction ns arbitrary: rd)
  case (Cons n ns)
  from read_good [OF Cons.prems(1)] obtain r mid where r: "read rd n = Some (r, mid)" "good mid" by blast
  have more: ?case if "pending mid < pending rd" "left rd = bs @ left mid"
    "read_many read rd (n # ns) = map_option (\<lambda>(out, err, rd''). (bs @ out, err, rd'')) (read_many read mid ns)" for bs
    using Cons.IH [OF r(2)] Cons.prems that by auto
  show ?case
  proof (cases r)
    case (Inl e)
    show ?thesis
    proof (cases "io_error_kind e = Interrupted")
      case True
      with Inl r Cons.prems(1) read_retries [of rd n e mid] read_interrupted [of rd n e mid]
      show ?thesis by (intro more [of "[]"]) (simp_all add: option.map_id)
    next
      case False
      with Inl r Cons.prems(1) read_fails [of rd n e mid] show ?thesis by simp
    qed
  next
    case (Inr bs)
    note l = read_left [OF Cons.prems(1), of n bs mid]
    show ?thesis
    proof (cases "bs = []")
      case True
      with Inr r Cons.prems(1,3) have e: "left rd = []" using read_eof [of rd n mid] by simp
      from read_many_total [OF Cons.prems(1), of "n # ns"] obtain out err rd' where
        m: "read_many read rd (n # ns) = Some (out, err, rd')" "good rd'" by blast
      from read_many_prefix [OF Cons.prems(1) m(1)] e have "out = []" by simp
      with m e show ?thesis by auto
    next
      case False
      with Inr r Cons.prems(1) l read_moves [of rd n bs mid] show ?thesis by (intro more [of bs]) simp_all
    qed
  qed
qed simp

end

section \<open>The blocking reader\<close>

fun within :: "64 word option \<Rightarrow> string \<Rightarrow> string" where
  "within None s = s"
| "within (Some n) s = take (unat n) s"

lemma within_Nil [simp]: "within r [] = []" "within (Some 0) s = []"
  by (cases r) simp_all

definition stream_left :: "'t read_stream \<Rightarrow> string" where
  "stream_left rd =
     (case rd_inner rd of None \<Rightarrow> [] | Some tr \<Rightarrow> within (rd_remaining rd) (delivered (tr_events tr)))"

definition unfinished :: "('s, 'c, 't) ftp_lib \<Rightarrow> 't read_stream \<Rightarrow> bool" where
  "unfinished F rd \<longleftrightarrow> rd_inner rd \<noteq> None \<and> 0 < lib_usize_max F"

text \<open>A stream that saw the end of the data has nothing left to drain.\<close>

definition eof_seen :: "'t read_stream \<Rightarrow> bool" where
  "eof_seen rd \<longleftrightarrow> (\<forall>tr. rd_at_eof rd \<longrightarrow> rd_inner rd = Some tr \<longrightarrow> tr_events tr = [])"

lemma unat_sub_of_nat:
  fixes b :: "64 word"
  assumes "k \<le> unat b" shows "unat (b - of_nat k) = unat b - k"
proof -
  have "k < 2 ^ 64" using assms unsigned_less [of b, where ?'a = nat] by simp
  then have "unat (of_nat k :: 64 word) = k" by (simp add: unsigned_of_nat take_bit_nat_eq_self)
  moreover from this assms have "of_nat k \<le> b" by (simp add: word_le_nat_alt)
  ultimately show ?thesis by (simp add: unat_sub)
qed

lemma read_limit_le: "read_limit F budget buf \<le> unat budget" "read_limit F budget buf \<le> buf"
  by (auto simp: read_limit_def usize_try_from_def)

lemma read_limit_pos: "0 < lib_usize_max F \<Longrightarrow> budget \<noteq> 0 \<Longrightarrow> 0 < buf \<Longrightarrow> 0 < read_limit F budget buf"
  by (auto simp: read_limit_def usize_try_from_def unat_gt_0)

lemma script_read_length: "script_read n es = (Inr bs, es') \<Longrightarrow> length bs \<le> n"
  by (cases "bs = []") (auto dest: script_read_chunk)

lemma script_read_split:
  "script_read n es = (Inr bs, es') \<Longrightarrow> delivered es = bs @ delivered es'"
proof (cases "bs = []")
  case True
  assume "script_read n es = (Inr bs, es')"
  with True show ?thesis by (induction n es rule: script_read.induct) (auto split: if_splits)
qed (rule script_read_chunk)

lemma read_limited_total:
  "\<exists>r inner' remaining'. read_limited F inner remaining buf = Some (r, inner', remaining')"
proof (cases remaining)
  case (Some budget)
  obtain q inner' where q: "script_read (read_limit F budget buf) inner = (q, inner')" by force
  show ?thesis
  proof (cases q)
    case (Inr bs)
    with q script_read_length [of "read_limit F budget buf" inner bs inner'] read_limit_le(1) [of F budget buf]
    have "\<not> unat budget < length bs" by simp
    with q Inr Some show ?thesis by (simp add: read_limited_def)
  qed (use q Some in \<open>simp add: read_limited_def\<close>)
qed (simp add: read_limited_def split: prod.splits)

lemma read_limited_left:
  assumes "read_limited F inner remaining buf = Some (Inr bs, inner', remaining')"
  shows "within remaining (delivered inner) = bs @ within remaining' (delivered inner')"
    and "length bs \<le> buf"
proof -
  have *: "within remaining (delivered inner) = bs @ within remaining' (delivered inner') \<and> length bs \<le> buf"
  proof (cases remaining)
    case None
    with assms show ?thesis
      by (auto simp: read_limited_def script_read_split script_read_length split: prod.splits)
  next
    case (Some budget)
    show ?thesis
    proof (cases "budget = 0")
      case False
      with Some assms have r: "script_read (read_limit F budget buf) inner = (Inr bs, inner')"
        "length bs \<le> unat budget" "remaining' = Some (budget - of_nat (length bs))"
        by (auto simp: read_limited_def split: prod.splits sum.splits if_splits)
      from unat_sub_of_nat [OF r(2)] r script_read_split [OF r(1)] script_read_length [OF r(1)] read_limit_le(2) [of F budget buf] Some
      show ?thesis by simp
    qed (use Some assms in \<open>auto simp: read_limited_def\<close>)
  qed
  from * show "within remaining (delivered inner) = bs @ within remaining' (delivered inner')"
    "length bs \<le> buf" by simp_all
qed

text \<open>What one read does, on every branch.\<close>

lemma read_stream_read_cases:
  assumes "rd_inner rd = Some inner" "0 < buf"
  obtains r rest remaining where
    "read_limited F (tr_events inner) (rd_remaining rd) buf = Some (r, rest, remaining)"
    "read_stream_read F rd buf = Some (r,
       (let rd' = rd\<lparr>rd_inner := Some (inner\<lparr>tr_events := rest\<rparr>), rd_remaining := remaining\<rparr> in
        if r = Inr [] \<and> remaining \<noteq> Some 0 then rd'\<lparr>rd_at_eof := True\<rparr> else rd'))"
proof -
  obtain r rest remaining where
    r: "read_limited F (tr_events inner) (rd_remaining rd) buf = Some (r, rest, remaining)"
    using read_limited_total by blast
  with assms that [OF r] show ?thesis by (cases r) (simp_all add: read_stream_read_def Let_def)
qed

lemma read_limited_error:
  assumes "read_limited F inner remaining buf = Some (Inl e, inner', remaining')"
  shows "remaining' = remaining"
    "io_error_kind e = Interrupted \<Longrightarrow> delivered inner' = delivered inner"
    "delivered inner' = delivered inner \<or> delivered inner = []"
  using assms script_read_error
  by (auto simp: read_limited_def split: option.splits prod.splits if_splits sum.splits dest!: script_read_error(1))

lemma read_limited_interrupted:
  assumes "read_limited F inner remaining buf = Some (Inl e, inner', remaining')"
    "io_error_kind e = Interrupted"
  shows "within remaining' (delivered inner') = within remaining (delivered inner)"
  using read_limited_error(1,2) [OF assms(1)] assms(2) by simp

lemma read_limited_empty:
  assumes "read_limited F inner remaining buf = Some (Inr [], inner', remaining')"
    "0 < buf" "0 < lib_usize_max F"
  shows "remaining' = remaining" "remaining = Some 0 \<and> inner' = inner \<or> inner' = [] \<and> delivered inner = []"
  using assms
  by (auto simp: read_limited_def read_limit_pos split: option.splits prod.splits if_splits sum.splits
      dest: script_read_eof)

interpretation sync_reader: budget_reader "read_stream_read F" "unfinished F" stream_left for F
proof
  fix rd :: "'c read_stream" and n
  assume g: "unfinished F rd"
  then obtain inner where i: "rd_inner rd = Some inner" and u: "0 < lib_usize_max F"
    by (auto simp: unfinished_def)
  show "\<exists>r rd'. read_stream_read F rd n = Some (r, rd') \<and> unfinished F rd'"
  proof (cases "n = 0")
    case False
    then have "0 < n" by simp
    from i this show ?thesis
      by (rule read_stream_read_cases [where F = F]) (use u in \<open>auto simp: unfinished_def Let_def\<close>)
  qed (use g in \<open>simp add: read_stream_read_def\<close>)
  fix bs rd'
  assume r: "read_stream_read F rd n = Some (Inr bs, rd')"
  have "stream_left rd = bs @ stream_left rd' \<and> length bs \<le> n"
  proof (cases "n = 0")
    case False
    then have "0 < n" by simp
    from i this show ?thesis
      by (rule read_stream_read_cases [where F = F])
        (use r i in \<open>auto simp: Let_def stream_left_def dest: read_limited_left split: if_splits\<close>)
  qed (use r in \<open>simp add: read_stream_read_def\<close>)
  then show "stream_left rd = bs @ stream_left rd'" "length bs \<le> n" by simp_all
next
  fix rd rd' :: "'c read_stream" and n
  assume g: "unfinished F rd" and r: "read_stream_read F rd n = Some (Inr [], rd')" and n: "0 < n"
  from g obtain inner where i: "rd_inner rd = Some inner" and u: "0 < lib_usize_max F"
    by (auto simp: unfinished_def)
  from i n show "stream_left rd = []"
    by (rule read_stream_read_cases [where F = F])
      (use r i n u in \<open>auto simp: stream_left_def dest: read_limited_empty(2)\<close>)
next
  fix rd rd' :: "'c read_stream" and n e
  assume g: "unfinished F rd" and r: "read_stream_read F rd n = Some (Inl e, rd')"
    and e: "io_error_kind e = Interrupted"
  from g obtain inner where i: "rd_inner rd = Some inner" by (auto simp: unfinished_def)
  from r have n: "0 < n" by (cases n) (auto simp: read_stream_read_def)
  from i n show "stream_left rd' = stream_left rd"
    by (rule read_stream_read_cases [where F = F])
      (use r i e in \<open>auto simp: Let_def stream_left_def dest: read_limited_interrupted\<close>)
qed

definition stream_size :: "'t read_stream \<Rightarrow> nat" where
  "stream_size rd = (case rd_inner rd of None \<Rightarrow> 0 | Some tr \<Rightarrow> script_size (tr_events tr))"

lemma read_limited_shrinks:
  assumes "read_limited F inner remaining buf = Some (r, inner', remaining')" "r \<noteq> Inr []"
  shows "script_size inner' < script_size inner"
  using assms
  by (cases r) (auto simp: read_limited_def split: option.splits prod.splits if_splits sum.splits
      dest: script_read_size)

lemma read_limited_fails:
  assumes "read_limited F inner remaining buf = Some (Inl e, inner', remaining')" "io_error_kind e \<noteq> Interrupted"
  shows "delivered inner = []"
  using assms script_read_error(1)
  by (fastforce simp: read_limited_def split: option.splits prod.splits if_splits sum.splits)

lemma read_stream_shrinks:
  assumes "unfinished F rd" "read_stream_read F rd n = Some (r, rd')" "r \<noteq> Inr []"
  shows "stream_size rd' < stream_size rd"
    "r = Inl e \<Longrightarrow> io_error_kind e \<noteq> Interrupted \<Longrightarrow> stream_left rd = []"
proof -
  from assms(1) obtain inner where i: "rd_inner rd = Some inner" by (auto simp: unfinished_def)
  from assms(2,3) have n: "0 < n" by (cases n) (auto simp: read_stream_read_def)
  from i n obtain q rest remaining where
    q: "read_limited F (tr_events inner) (rd_remaining rd) n = Some (q, rest, remaining)"
    "read_stream_read F rd n = Some (q,
       (let rd' = rd\<lparr>rd_inner := Some (inner\<lparr>tr_events := rest\<rparr>), rd_remaining := remaining\<rparr> in
        if q = Inr [] \<and> remaining \<noteq> Some 0 then rd'\<lparr>rd_at_eof := True\<rparr> else rd'))"
    by (rule read_stream_read_cases [where F = F])
  with assms(2,3) read_limited_shrinks [OF q(1)] i show "stream_size rd' < stream_size rd"
    by (auto simp: stream_size_def Let_def)
  show "stream_left rd = []" if "r = Inl e" "io_error_kind e \<noteq> Interrupted"
    using that q assms(2) read_limited_fails [of F "tr_events inner" "rd_remaining rd" n e rest remaining] i
    by (auto simp: stream_left_def)
qed

interpretation sync_finite: finite_reader "read_stream_read F" "unfinished F" stream_left stream_size for F
  by unfold_locales (use read_stream_shrinks in blast)+

lemma read_stream_eof_seen:
  assumes "unfinished F rd" "eof_seen rd" "read_stream_read F rd n = Some (r, rd')"
  shows "eof_seen rd'"
proof (cases "n = 0")
  case False
  then have n: "0 < n" by simp
  from assms(1) obtain inner where i: "rd_inner rd = Some inner" and u: "0 < lib_usize_max F"
    by (auto simp: unfinished_def)
  from i n show ?thesis
  proof (rule read_stream_read_cases [where F = F])
    fix q rest remaining
    assume l: "read_limited F (tr_events inner) (rd_remaining rd) n = Some (q, rest, remaining)"
      and e: "read_stream_read F rd n = Some (q,
       (let rd' = rd\<lparr>rd_inner := Some (inner\<lparr>tr_events := rest\<rparr>), rd_remaining := remaining\<rparr> in
        if q = Inr [] \<and> remaining \<noteq> Some 0 then rd'\<lparr>rd_at_eof := True\<rparr> else rd'))"
    have "rest = []" if "rd_at_eof rd"
    proof -
      from that assms(2) i have "tr_events inner = []" by (simp add: eof_seen_def)
      with l show ?thesis
        by (auto simp: read_limited_def split: option.splits if_splits)
    qed
    moreover have "rest = []" if "q = Inr []" "remaining \<noteq> Some 0"
      using read_limited_empty [of F "tr_events inner" "rd_remaining rd" n rest remaining] l that n u by auto
    ultimately show ?thesis using assms(3) e by (auto simp: eof_seen_def Let_def split: if_splits)
  qed
qed (use assms in \<open>simp add: read_stream_read_def\<close>)

section \<open>Two failures of one cleanup\<close>

interpretation finish_read: cleanup finish_read_result
  by unfold_locales (auto simp: finish_read_result_def intro: wrapped_failures split: sum.splits)

interpretation finish_write: cleanup finish_write_result
  by unfold_locales (auto simp: finish_write_result_def intro: wrapped_failures split: sum.splits)

interpretation skip_failure: cleanup
  "\<lambda>skip finished. case skip of Inl e \<Rightarrow> Inl (skip_result e finished) | Inr _ \<Rightarrow> finished"
  by unfold_locales (auto simp: skip_result_def intro: wrapped_failures split: sum.splits)

section \<open>Closing\<close>

lemma drain_eof_seen:
  assumes "rd_inner rd = Some inner" "eof_seen rd"
  shows "drain F (tr_events inner) (rd_at_eof rd) =
     (case failure (tr_events inner) of None \<Rightarrow> Inr () | Some e \<Rightarrow> Inl (lib_from_io F e),
      after_failure (tr_events inner))"
  using assms
  by (auto simp: drain_def io_copy_all eof_seen_def split: option.splits)

lemma after_failure_none: "failure es = None \<Longrightarrow> after_failure es = []"
  by (induction es rule: failure.induct) (auto split: if_splits)

fun is_ok :: "'e + 'a \<Rightarrow> bool" where
  "is_ok (Inl _) = False"
| "is_ok (Inr _) = True"

text \<open>The state a closed transfer leaves: the guard released, the failure recorded.\<close>

definition closed :: "'e + 'a \<Rightarrow> 's \<Rightarrow> ('s, 'z) conn_scheme \<Rightarrow> ('s, 'z) conn_scheme" where
  "closed result w s = s\<lparr>transfer_active := False,
     connection_usable := (connection_usable s \<and> is_ok result), world := w\<rparr>"

lemma run_finish_read [run_simps]:
  "finish_read F inner at_eof s =
     (case drain F (tr_events inner) at_eof of (drained, rest) \<Rightarrow>
      case lib_finish_read F (inner\<lparr>tr_events := rest\<rparr>) (world s) of (r, w) \<Rightarrow>
        Some (finish_read_result drained (map_err ftp_error r), s\<lparr>world := w\<rparr>))"
  by (simp add: finish_read_def seq_def run_on_world split: prod.splits)

text \<open>The result of closing a download and what the server is left with.\<close>

definition completion ::
  "('s, 'c, 't) ftp_lib \<Rightarrow> 't transfer \<Rightarrow> bool \<Rightarrow> 's \<Rightarrow> (remote_error + unit) \<times> 's" where
  "completion F inner at_eof w =
     (case drain F (tr_events inner) at_eof of (drained, rest) \<Rightarrow>
      case lib_finish_read F (inner\<lparr>tr_events := rest\<rparr>) w of (r, w') \<Rightarrow>
        (finish_read_result drained (map_err ftp_error r), w'))"

definition upload_completion ::
  "('s, 'c, 't) ftp_lib \<Rightarrow> 't \<Rightarrow> 's \<Rightarrow> (remote_error + unit) \<times> 's" where
  "upload_completion F inner w =
     (case lib_flush F inner w of (flush, w') \<Rightarrow>
      case lib_finish_write F inner w' of (finish, w'') \<Rightarrow>
        (finish_write_result (map_err (lib_from_io F) flush) (map_err ftp_error finish), w''))"

lemma finish_read_completion:
  "completion F inner at_eof (world s) = (result, w) \<Longrightarrow>
     finish_read F inner at_eof s = Some (result, s\<lparr>world := w\<rparr>)"
  by (auto simp: completion_def run_finish_read split: prod.splits)

lemma finish_write_completion:
  "upload_completion F inner (world s) = (result, w) \<Longrightarrow>
     finish_write F inner s = Some (result, s\<lparr>world := w\<rparr>)"
  by (auto simp: upload_completion_def finish_write_def seq_def run_on_world split: prod.splits)

lemma closing_read:
  assumes "rd_inner rd = Some inner" "completion F inner (rd_at_eof rd) (world s) = (result, w)"
  shows "read_stream_finish F rd s = Some (result, closed result w s)"
    and "drop_read_stream F rd s = Some ((), closed result w s)"
    and "finish_after_skip F rd skip s = Some (skip_result skip result, closed result w s)"
  using assms finish_read_completion [of F inner "rd_at_eof rd" s result w]
  by (cases result; simp add: read_stream_finish_def drop_read_stream_def finish_after_skip_def
      finish_inner_def seq_def closed_def)+

lemma closing_write:
  assumes "wr_inner wr = Some inner" "upload_completion F inner (world s) = (result, w)"
  shows "write_stream_finish F wr s = Some (result, closed result w s)"
    and "drop_write_stream F wr s = Some ((), closed result w s)"
  using assms finish_write_completion [of F inner s result w]
  by (cases result; simp add: write_stream_finish_def drop_write_stream_def seq_def closed_def)+

lemma closed_simps [simp]:
  "transfer_active (closed r w s) = False" "world (closed r w s) = w"
  "connection_usable (closed r w s) = (connection_usable s \<and> is_ok r)"
  by (simp_all add: closed_def)

lemma is_ok_iff: "is_ok r \<longleftrightarrow> (\<exists>x. r = Inr x)"
  by (cases r) auto

text \<open>Skipping a prefix.\<close>

lemma skip_prefix_total:
  "rd_inner rd = Some inner \<Longrightarrow>
     \<exists>r rest at_eof. skip_prefix F rd offset s =
       Some ((r, rd\<lparr>rd_inner := Some (inner\<lparr>tr_events := rest\<rparr>), rd_at_eof := at_eof\<rparr>), s)"
  by (cases rd; cases "io_copy (Some (unat offset)) (tr_events inner)"; cases "fst (io_copy (Some (unat offset)) (tr_events inner))")
    (auto simp: skip_prefix_def run_simps Let_def)

lemma skip_prefix_left:
  assumes "rd_inner rd = Some inner" "skip_prefix F rd offset s = Some ((Inr (), rd'), s')"
  obtains rest at_eof where "s' = s"
    "rd' = rd\<lparr>rd_inner := Some (inner\<lparr>tr_events := rest\<rparr>), rd_at_eof := at_eof\<rparr>"
    "delivered rest = drop (unat offset) (delivered (tr_events inner))"
    "at_eof \<longrightarrow> rd_at_eof rd \<or> rest = []"
proof -
  obtain r rest where c: "io_copy (Some (unat offset)) (tr_events inner) = (r, rest)" by force
  with assms obtain k where k: "r = Inr k" by (cases r) (auto simp: skip_prefix_def run_simps)
  from c k io_copy_take [of "unat offset" "tr_events inner"]
  consider "k = unat offset" "delivered rest = drop (unat offset) (delivered (tr_events inner))"
    | "rest = []" "k < unat offset" "length (delivered (tr_events inner)) < unat offset" by auto
  then show thesis
  proof cases
    case 1
    with assms c k show ?thesis
      by (intro that [where rest = rest and at_eof = "rd_at_eof rd"]) (auto simp: skip_prefix_def run_simps Let_def)
  next
    case 2
    with assms c k show ?thesis
      by (intro that [where rest = rest and at_eof = True]) (auto simp: skip_prefix_def run_simps Let_def)
  qed
qed

lemma skip_prefix_eof_seen:
  assumes "rd_inner rd = Some inner" "rd_at_eof rd = False" "skip_prefix F rd offset s = Some ((r, rd'), s')"
  shows "eof_seen rd'"
  using assms io_copy_take [of "unat offset" "tr_events inner"]
  by (auto simp: skip_prefix_def run_simps Let_def eof_seen_def split: prod.splits sum.splits if_splits)

end
