(* ===== verification/Sync_Facts.thy ===== *)
theory Sync_Facts
  imports Sync_Ops Stream_Facts Listing_Rows Listing_Facts
begin

text \<open>
  Facts about the blocking client: how its mutex discipline and flags behave, and that every
  probe and command returns, keeps the connection and can only take its usability away.
\<close>

section \<open>Frames\<close>

definition options :: "('s, 'c) ftp_fs \<Rightarrow> _" where
  "options s = (fs_hostname s, fs_port s, fs_username s, fs_password s, fs_builder s, fs_mode s,
     fs_secure s, fs_accept_invalid_certs s, fs_accept_invalid_hostnames s)"

text \<open>
  \<open>keeps\<close>: the mutex, the control stream, the transfer flag and the options are as before, and
  the connection did not become usable. \<open>starts\<close>: the same, but a transfer may have begun.
\<close>

definition starts :: "('s, 'c) ftp_fs \<Rightarrow> ('s, 'c) ftp_fs \<Rightarrow> bool" where
  "starts s t \<longleftrightarrow> fs_locked t = fs_locked s \<and> fs_stream t = fs_stream s \<and> options t = options s
     \<and> (connection_usable t \<longrightarrow> connection_usable s)"

definition keeps :: "('s, 'c) ftp_fs \<Rightarrow> ('s, 'c) ftp_fs \<Rightarrow> bool" where
  "keeps s t \<longleftrightarrow> starts s t \<and> transfer_active t = transfer_active s"

definition idle :: "('s, 'c) ftp_fs \<Rightarrow> bool" where
  "idle s \<longleftrightarrow> \<not> fs_locked s"

text \<open>Actions that do not touch the mutex, and whole operations.\<close>

interpretation inner: frame "\<lambda>_. True" keeps
  by unfold_locales (auto simp: keeps_def starts_def)

interpretation outer: frame idle keeps
  by unfold_locales (auto simp: keeps_def starts_def idle_def)

lemma keeps_refl [simp]: "keeps s s"
  by (simp add: keeps_def starts_def)

lemma keeps_trans: "keeps s t \<Longrightarrow> keeps t u \<Longrightarrow> keeps s u"
  by (auto simp: keeps_def starts_def)

lemma keeps_simps [simp]:
  "keeps s (s\<lparr>world := w\<rparr>)" "keeps s (s\<lparr>connection_usable := False\<rparr>)"
  "keeps s (s\<lparr>world := w, connection_usable := False\<rparr>)"
  by (simp_all add: keeps_def starts_def options_def)

lemma inner_on_world [frame_intros]: "inner.framed (on_world f)"
  by (rule inner.framedI) (simp add: on_world_def split: prod.splits)

lemma inner_mark [frame_intros]: "inner.framed mark_connection_unusable"
  unfolding mark_connection_unusable_def by (rule inner.framed_update) simp

lemma inner_record [frame_intros]:
  "inner.framed (record_ftp_error e)" "inner.framed (record_remote_error d)"
  unfolding record_ftp_error_def record_remote_error_def by (intro frame_intros)+

lemma inner_on_error [frame_intros]: "(\<And>e. inner.framed (f e)) \<Longrightarrow> inner.framed (on_error f r)"
  unfolding on_error_def by (intro frame_intros)

lemma inner_command [frame_intros]: "inner.framed (command op c)" "inner.framed (data_command op2 c)"
  unfolding command_def data_command_def by (intro frame_intros)+

lemma inner_recorded [frame_intros]: "inner.framed m \<Longrightarrow> inner.framed (recorded m)"
  unfolding recorded_def by (intro frame_intros)

lemma inner_read_list_bytes [frame_intros]: "inner.framed (read_list_bytes F c remote)"
  unfolding read_list_bytes_def by (intro frame_intros)

lemma inner_request_offset [frame_intros]: "inner.framed (request_offset F c n)"
  unfolding request_offset_def by (auto intro!: frame_intros split: FtpError.splits option.splits sum.splits)

section \<open>The gate\<close>

text \<open>Why an operation is refused before it reaches the control stream.\<close>

definition refusal :: "('s, 'c) ftp_fs \<Rightarrow> remote_error option" where
  "refusal s =
     (if transfer_active s then Some busy_error
      else if \<not> connection_usable s then Some unusable_error
      else if fs_stream s = None then Some (new_error KNotConnected)
      else None)"

definition noted :: "remote_error + 'a \<Rightarrow> ('s, 'c) ftp_fs \<Rightarrow> ('s, 'c) ftp_fs" where
  "noted r t = (case r of
     Inl e \<Rightarrow> if remote_error_requires_reconnect e then t\<lparr>connection_usable := False\<rparr> else t
   | Inr _ \<Rightarrow> t)"

lemma run_with_lock:
  "idle s \<Longrightarrow> with_lock m s =
     (case m (s\<lparr>fs_locked := True\<rparr>) of None \<Rightarrow> None
      | Some (r, t) \<Rightarrow> Some (r, t\<lparr>fs_locked := False\<rparr>))"
  by (simp add: with_lock_def lock_def seq_def idle_def split: option.splits)

lemma deadlock: "\<not> idle s \<Longrightarrow> with_lock m s = None"
  by (simp add: with_lock_def lock_def seq_def idle_def)

lemma run_check:
  "check_operation_state s = Some (if transfer_active s then Inl busy_error
     else if \<not> connection_usable s then Inl unusable_error else Inr (), s)"
  by (simp add: check_operation_state_def)

lemma run_noted: "on_error record_remote_error r s = Some ((), noted r s)"
  by (cases r) (simp_all add: on_error_def record_remote_error_def mark_connection_unusable_def noted_def)

lemma unlock_id [simp]: "idle s \<Longrightarrow> s\<lparr>fs_locked := False\<rparr> = s"
  by (cases s) (simp add: idle_def)

lemma with_stream_refused: "idle s \<Longrightarrow> refusal s = Some e \<Longrightarrow> with_stream f s = Some (Inl e, s)"
  by (auto simp: with_stream_def run_with_lock run_attempt run_check refusal_def split: if_splits)

lemma with_stream_admitted:
  assumes "idle s" "refusal s = None" "fs_stream s = Some c"
  shows "with_stream f s =
    (case f c (s\<lparr>fs_locked := True\<rparr>) of None \<Rightarrow> None
     | Some (r, t) \<Rightarrow> Some (r, (noted r t)\<lparr>fs_locked := False\<rparr>))"
  using assms
  by (auto simp: with_stream_def run_with_lock run_attempt run_check refusal_def run_seq run_noted
      split: if_splits option.splits)

lemma refusal_None: "refusal s = None \<Longrightarrow>
   \<not> transfer_active s \<and> connection_usable s \<and> (\<exists>c. fs_stream s = Some c)"
  by (auto simp: refusal_def split: if_splits)

lemma with_exclusive_refused:
  "idle s \<Longrightarrow> refusal s = Some e \<Longrightarrow> with_exclusive_stream f s = Some (Inl e, s)"
  by (auto simp: with_exclusive_stream_def run_with_lock run_attempt run_check refusal_def split: if_splits)

definition taken :: "('s, 'c) ftp_fs \<Rightarrow> ('s, 'c) ftp_fs" where
  "taken s = s\<lparr>fs_stream := None, transfer_active := True\<rparr>"

definition put_back :: "'c control \<Rightarrow> ('s, 'c) ftp_fs \<Rightarrow> ('s, 'c) ftp_fs" where
  "put_back c t = t\<lparr>fs_stream := Some c, transfer_active := False\<rparr>"

lemma idle_noted [simp]: "idle (noted r t) = idle t"
  by (simp add: idle_def noted_def split: sum.splits)

lemma with_exclusive_admitted:
  assumes "idle s" "refusal s = None" "fs_stream s = Some c"
    and "\<And>r t. f c (taken s) = Some (r, t) \<Longrightarrow> idle t"
  shows "with_exclusive_stream f s =
    (case f c (taken s) of None \<Rightarrow> None | Some (r, t) \<Rightarrow> Some (r, put_back c (noted r t)))"
proof -
  have t: "s\<lparr>fs_locked := True, fs_stream := None, transfer_active := True, fs_locked := False\<rparr> = taken s"
    using assms(1) by (cases s) (simp add: taken_def idle_def)
  have "with_exclusive_stream f s =
    (case f c (taken s) of None \<Rightarrow> None
     | Some (r, t) \<Rightarrow> (case drop_exclusive (Some c) (noted r t) of None \<Rightarrow> None | Some (_, u) \<Rightarrow> Some (r, u)))"
    using assms(1-3) refusal_None [OF assms(2)] t
    by (auto simp: with_exclusive_stream_def run_with_lock run_attempt run_check run_seq run_noted
        split: option.splits)
  moreover have "drop_exclusive (Some c) (noted r t) = Some ((), put_back c (noted r t))"
    if "f c (taken s) = Some (r, t)" for r t
  proof -
    from assms(4) [OF that] have "idle (noted r t)" by simp
    then show ?thesis
      by (cases "noted r t") (simp add: drop_exclusive_def run_seq run_with_lock put_back_def idle_def)
  qed
  ultimately show ?thesis by (simp split: option.splits)
qed

section \<open>Operations are framed\<close>

lemma keeps_noted: "keeps s t \<Longrightarrow> keeps s (noted r t)"
  by (auto simp: keeps_def starts_def options_def noted_def split: sum.splits)

lemma keeps_unlock:
  "idle s \<Longrightarrow> keeps (s\<lparr>fs_locked := True\<rparr>) t \<Longrightarrow> keeps s (t\<lparr>fs_locked := False\<rparr>)"
  by (auto simp: keeps_def starts_def options_def idle_def)

lemma keeps_put_back:
  "fs_stream s = Some c \<Longrightarrow> \<not> transfer_active s \<Longrightarrow> keeps (taken s) t \<Longrightarrow> keeps s (put_back c t)"
  by (auto simp: keeps_def starts_def options_def taken_def put_back_def)

lemma gate_errors:
  assumes "Q (Inl busy_error)" "Q (Inl unusable_error)" "Q (Inl (new_error KNotConnected))"
    and "refusal s = Some e"
  shows "Q (Inl e)"
  using assms by (auto simp: refusal_def split: if_splits)

lemma outer_with_stream:
  assumes "Q (Inl busy_error)" "Q (Inl unusable_error)" "Q (Inl (new_error KNotConnected))"
    and "\<And>c. inner.meets (f c) Q"
  shows "outer.meets (with_stream f) Q"
proof (rule outer.meetsI)
  fix s :: "('c, 'b) ftp_fs" assume i: "idle s"
  show "\<exists>x t. with_stream f s = Some (x, t) \<and> keeps s t \<and> Q x"
  proof (cases "refusal s")
    case (Some e)
    with with_stream_refused [OF i Some, of f] gate_errors [of Q s e] assms(1-3) show ?thesis by auto
  next
    case None
    then obtain c where c: "fs_stream s = Some c" using refusal_None by blast
    obtain r t where f: "f c (s\<lparr>fs_locked := True\<rparr>) = Some (r, t)" "keeps (s\<lparr>fs_locked := True\<rparr>) t" "Q r"
      using inner.meetsE [OF assms(4), of c "s\<lparr>fs_locked := True\<rparr>"] by auto
    with with_stream_admitted [OF i None c, of f] keeps_unlock [OF i keeps_noted, of t r] show ?thesis by simp
  qed
qed

lemma outer_with_exclusive:
  assumes "Q (Inl busy_error)" "Q (Inl unusable_error)" "Q (Inl (new_error KNotConnected))"
    and "\<And>c. inner.meets (f c) Q"
  shows "outer.meets (with_exclusive_stream f) Q"
proof (rule outer.meetsI)
  fix s :: "('c, 'b) ftp_fs" assume i: "idle s"
  show "\<exists>x t. with_exclusive_stream f s = Some (x, t) \<and> keeps s t \<and> Q x"
  proof (cases "refusal s")
    case (Some e)
    with with_exclusive_refused [OF i Some, of f] gate_errors [of Q s e] assms(1-3) show ?thesis by auto
  next
    case None
    then obtain c where c: "fs_stream s = Some c" "\<not> transfer_active s" using refusal_None by blast
    obtain r t where f: "f c (taken s) = Some (r, t)" "keeps (taken s) t" "Q r"
      using inner.meetsE [OF assms(4), of c "taken s"] by auto
    have u: "idle u" if "f c (taken s) = Some (q, u)" for q u
      using that f(1,2) i by (auto simp: keeps_def starts_def taken_def idle_def)
    from with_exclusive_admitted [of s c f, OF i None c(1) u] f keeps_put_back [OF c keeps_noted, of t r]
    show ?thesis by simp
  qed
qed

text \<open>
  An answer is \<open>candid\<close> when a not-found error in it keeps the ambiguous refusal it came from:
  nothing below the lookup itself decides that a path is absent.
\<close>

definition candid :: "remote_error + 'a \<Rightarrow> bool" where
  "candid r \<longleftrightarrow> (\<forall>e. r = Inl e \<longrightarrow> kind e = KNoSuchFileOrDirectory \<longrightarrow> is_ambiguous_path_refusal e)"

lemma candid_ftp_error [simp]: "candid (Inl (ftp_error e))"
proof (cases e)
  case (UnexpectedResponse r)
  then show ?thesis by (cases "status r") (auto simp: candid_def)
qed (auto simp: candid_def)

lemma candid_simps [simp]:
  "candid (Inr x)" "candid (Inl busy_error)" "candid (Inl unusable_error)"
  "candid (Inl (new_error KNotConnected))"
  "kind d \<noteq> KNoSuchFileOrDirectory \<Longrightarrow> candid (Inl d)"
  by (auto simp: candid_def busy_error_def unusable_error_def)

lemma read_list_bytes_candid: "inner.meets (read_list_bytes F c remote) (\<lambda>(r, b). candid r)"
  unfolding read_list_bytes_def
  apply (rule inner.meets_seq [OF inner.framed_meets [OF inner_command(2)]])
  subgoal for r
    by (cases r) (auto intro!: inner.meets_ret inner.meets_seq [OF inner.framed_meets] inner_on_world
        simp: Let_def split: prod.splits sum.splits)
  done

lemma list_dir_raw_candid: "outer.meets (list_dir_raw F path remote) candid"
proof -
  have "outer.meets (with_exclusive_stream (\<lambda>c.
       seq (read_list_bytes F c remote) (\<lambda>(result, requires_reconnect).
       seq (if requires_reconnect then mark_connection_unusable else ret ()) (\<lambda>_.
       ret result)))) candid"
    by (rule outer_with_exclusive)
      (auto intro!: inner.meets_seq [OF read_list_bytes_candid] inner.meets_seq [OF inner.framed_meets]
        inner.meets_ret frame_intros)
  then show ?thesis
    unfolding list_dir_raw_def attempt_def
  proof (rule outer.meets_seq)
    fix r :: "remote_error + string" assume r: "candid r"
    show "outer.meets (case r of Inl e \<Rightarrow> raise e
      | Inr bytes \<Rightarrow> case decode_list_bytes bytes of Inl e \<Rightarrow> raise (ftp_error e)
          | Inr lines \<Rightarrow> expect (parse_list_lines (lib_rows F) path lines)) candid"
    proof (cases r)
      case (Inl e)
      with r show ?thesis by (auto simp: raise_def candid_def intro!: outer.meets_ret)
    next
      case (Inr bytes)
      show ?thesis
      proof (cases "decode_list_bytes bytes")
        case (Inr lines)
        have v: "\<forall>l \<in> set lines. valid_utf8 l" using decoded_lines_valid [OF Inr] .
        obtain q where q: "parse_list_lines (lib_rows F) path lines = Some q"
          using parse_lines_no_panic [OF v] by fastforce
        have "candid q" using list_error_kind [of "lib_rows F" path lines] q
          by (cases q) auto
        with q Inr \<open>r = Inr bytes\<close> show ?thesis by (auto simp: expect_def intro!: outer.meets_ret)
      qed (use Inr in \<open>auto simp: raise_def intro!: outer.meets_ret\<close>)
    qed
  qed
qed

lemma outer_list_dir_raw [frame_intros]: "outer.framed (list_dir_raw F path remote)"
  by (rule outer.meets_framed [OF list_dir_raw_candid])

lemma outer_ancestor_loop: "outer.framed (ancestor_loop F n path)"
proof (induction n arbitrary: path)
  case (Suc n)
  show ?case unfolding ancestor_loop.simps by (intro frame_intros Suc)
qed (simp add: frame_intros)

lemma outer_ancestor [frame_intros]: "outer.framed (ancestor_proves_absent F path)"
  unfolding ancestor_proves_absent_def by (rule outer_ancestor_loop)

lemma outer_list_or [frame_intros]: "outer.framed (list_or_prove_absent F path remote)"
  unfolding list_or_prove_absent_def by (intro frame_intros)

lemma outer_gate [frame_intros]:
  "(\<And>c. inner.framed (f c)) \<Longrightarrow> outer.framed (with_stream f)"
  "(\<And>c. inner.framed (g c)) \<Longrightarrow> outer.framed (with_exclusive_stream g)"
  unfolding inner.framed_def outer.framed_def
  by (auto intro: outer_with_stream outer_with_exclusive)

lemma path_eq_root_iff: "is_absolute p \<Longrightarrow> path_eq p ''/'' \<longleftrightarrow> parent p = None"
  by (simp add: parent_None_iff path_eq_def)

lemma outer_stat [frame_intros]: "outer.framed (stat F path)"
proof (induction "length path" arbitrary: path rule: less_induct)
  case less
  show ?case
  proof (cases "remote_path (lib_ensure F) path")
    case (Inl e)
    then show ?thesis by (subst stat.simps) (simp add: frame_intros)
  next
    case (Inr remote)
    then have abs: "is_absolute path" using remote_path_wire wire_path_absolute by blast
    show ?thesis
    proof (cases "parent path")
      case None
      with Inr abs show ?thesis
        by (subst stat.simps) (auto simp: path_eq_root_iff intro!: frame_intros)
    next
      case (Some q)
      then have "length q < length path" by (rule parent_shorter)
      with less have IH: "outer.framed (stat F q)" by simp
      from Some abs have "\<not> path_eq path ''/''" by (simp add: path_eq_root_iff)
      with Some Inr show ?thesis
        by (subst stat.simps) (auto intro!: frame_intros IH)
    qed
  qed
qed

lemma outer_probes [frame_intros]:
  "outer.framed (stat_is_file F path)" "outer.framed (exists F path)"
  "outer.framed (destination_parent_is_missing F path)"
  unfolding stat_is_file_def exists_def destination_parent_is_missing_def by (intro frame_intros)+

lemma outer_list_dir [frame_intros]: "outer.framed (list_dir F path)"
  unfolding list_dir_def by (intro frame_intros)

lemma outer_classify [frame_intros]:
  "outer.framed (classify_file_refusal F path err)" "outer.framed (classify_create_refusal F path err)"
  "outer.framed (classify_remove_dir_refusal F path err)"
  "outer.framed (classify_create_dir_refusal F path err)"
  "outer.framed (classify_rename_refusal F path dest err)"
  unfolding classify_file_refusal_def classify_create_refusal_def classify_remove_dir_refusal_def
    classify_create_dir_refusal_def classify_rename_refusal_def
  by (intro frame_intros)+

lemma outer_record [frame_intros]: "outer.framed (record_ftp_error e)"
  unfolding record_ftp_error_def mark_connection_unusable_def
  by (intro frame_intros outer.framed_update) simp

lemma outer_operations:
  "outer.framed (set_metadata F path md)" "outer.framed (create_dir F path mode)"
  "outer.framed (remove_file F path)" "outer.framed (remove_dir F path)"
  "outer.framed (rename F path dest)" "outer.framed (copy F path dest)"
  "outer.framed (symlink F path dest)" "outer.framed (exec F cmd)"
  unfolding set_metadata_def create_dir_def remove_file_def remove_dir_def rename_def copy_def
    symlink_def exec_def
  by (intro frame_intros)+

section \<open>Starting a transfer\<close>

lemma inner_run: "inner.framed m \<Longrightarrow> \<exists>r t. m s = Some (r, t) \<and> keeps s t"
  using inner.framedE [of m s] by blast

lemma starts_trans: "starts s t \<Longrightarrow> starts t u \<Longrightarrow> starts s u"
  by (auto simp: starts_def)

lemma keeps_starts: "keeps s t \<Longrightarrow> starts s t"
  by (simp add: keeps_def)

lemma inner_retry [frame_intros]: "inner.framed (retry_from_start F c remote resumed result)"
  unfolding retry_from_start_def by (intro frame_intros)

lemma starts_active [simp]: "starts s (s\<lparr>transfer_active := True\<rparr>)"
  by (simp add: starts_def options_def)

lemma run_start_transfer [simp]: "start_transfer s = Some ((), s\<lparr>transfer_active := True\<rparr>)"
  by (simp add: start_transfer_def)

text \<open>What follows the reply of a data command: recorded, and a transfer begun on success.\<close>

definition begin_transfer :: "'t outcome \<Rightarrow> (('s, 'z) conn_scheme, remote_error + 't outcome) act" where
  "begin_transfer result =
     seq (on_error record_ftp_error result) (\<lambda>_.
     case result of
       Inl err \<Rightarrow> ok (Inl err)
     | Inr transfer \<Rightarrow> seq start_transfer (\<lambda>_. ok (Inr transfer)))"

lemma begin_transfer_run:
  "\<exists>t. begin_transfer result s = Some (Inr result, t) \<and> starts s t
     \<and> transfer_active t = (transfer_active s \<or> is_ok result)"
proof -
  have "inner.framed (on_error record_ftp_error result)" by (intro frame_intros)
  from inner_run [OF this, of s] obtain u where
    u: "on_error record_ftp_error result s = Some ((), u)" "keeps s u" by auto
  then show ?thesis
  proof (cases result)
    case (Inl err)
    with u show ?thesis by (auto simp: begin_transfer_def seq_def keeps_starts keeps_def)
  next
    case (Inr transfer)
    with u show ?thesis
      by (auto simp: begin_transfer_def seq_def intro: starts_trans [OF keeps_starts])
  qed
qed

lemma start_upload_run:
  "\<exists>r t. start_upload op c s = Some (Inr r, t) \<and> starts s t
     \<and> transfer_active t = (transfer_active s \<or> is_ok r)"
proof -
  obtain r u where u: "data_command op c s = Some (r, u)" "keeps s u"
    using inner_run [OF inner_command(2), of op c s] by auto
  from begin_transfer_run [of r u] u show ?thesis
    by (auto simp: start_upload_def begin_transfer_def seq_def keeps_def intro: starts_trans)
qed

lemma start_download_run:
  "\<exists>r t. start_download F remote offset c s = Some (r, t) \<and> starts s t
     \<and> transfer_active t = (transfer_active s \<or> (\<exists>x. r = Inr (Inr x)))"
proof -
  define m :: "(('b, 'c) ftp_fs, remote_error + (bool \<times> 'a transfer outcome)) act"
    where "m = attempt (if offset > 0 then request_offset F c offset else ok False) (\<lambda>resumed.
     seq (data_command (\<lambda>h. lib_retr F h remote) c) (\<lambda>result.
     retry_from_start F c remote resumed result))"
  have "inner.framed m" unfolding m_def by (intro frame_intros)
  from inner_run [OF this, of s] obtain r u where u: "m s = Some (r, u)" "keeps s u" by auto
  have d: "start_download F remote offset c s = attempt m (\<lambda>(resumed, result).
     seq (on_error record_ftp_error result) (\<lambda>_.
     case result of
       Inl err \<Rightarrow> ok (Inl err)
     | Inr transfer \<Rightarrow> seq start_transfer (\<lambda>_. ok (Inr (transfer, resumed))))) s"
    by (auto simp: start_download_def m_def attempt_def seq_def fun_eq_iff split: option.splits sum.splits)
  show ?thesis
  proof (cases r)
    case (Inl e)
    with u show ?thesis unfolding d by (auto simp: run_attempt keeps_def)
  next
    case (Inr p)
    obtain resumed result where p: "p = (resumed, result)" by (cases p)
    from begin_transfer_run [of result u] obtain t where
      "begin_transfer result u = Some (Inr result, t)" "starts u t"
      "transfer_active t = (transfer_active u \<or> is_ok result)" by blast
    with u Inr p show ?thesis unfolding d
      by (cases result) (auto simp: run_attempt begin_transfer_def seq_def keeps_def
          split: option.splits intro: starts_trans)
  qed
qed

lemma starts_unlock_noted:
  assumes "idle s" "starts (s\<lparr>fs_locked := True\<rparr>) t"
  shows "starts s ((noted r t)\<lparr>fs_locked := False\<rparr>)" "idle ((noted r t)\<lparr>fs_locked := False\<rparr>)"
    "transfer_active ((noted r t)\<lparr>fs_locked := False\<rparr>) = transfer_active t"
  using assms by (auto simp: starts_def options_def idle_def noted_def split: sum.splits)

text \<open>The gate around a transfer command.\<close>

lemma with_stream_transfer:
  assumes "idle s"
    and "\<And>c s. \<exists>r t. f c s = Some (r, t) \<and> starts s t
      \<and> transfer_active t = (transfer_active s \<or> (\<exists>x. r = Inr (Inr x)))"
  shows "\<exists>r t. with_stream f s = Some (r, t) \<and> starts s t \<and> idle t
      \<and> transfer_active t = (transfer_active s \<or> (\<exists>x. r = Inr (Inr x)))
      \<and> (\<forall>x. r = Inr x \<longrightarrow> \<not> transfer_active s)"
proof (cases "refusal s")
  case (Some e)
  with with_stream_refused [OF assms(1) Some, of f] assms(1) show ?thesis by (simp add: starts_def)
next
  case None
  then obtain c where c: "fs_stream s = Some c" and na: "\<not> transfer_active s" using refusal_None by blast
  obtain r t where f: "f c (s\<lparr>fs_locked := True\<rparr>) = Some (r, t)" "starts (s\<lparr>fs_locked := True\<rparr>) t"
    "transfer_active t = (transfer_active s \<or> (\<exists>x. r = Inr (Inr x)))"
    using assms(2) [of c "s\<lparr>fs_locked := True\<rparr>"] by auto
  with na with_stream_admitted [OF assms(1) None c, of f] starts_unlock_noted [OF assms(1) f(2), of r]
  show ?thesis by simp
qed

lemma upload_operation:
  assumes "idle s" "\<And>err. outer.framed (classify err)"
  shows "\<exists>r t. attempt (with_stream (start_upload op)) (\<lambda>transfer_result.
      case transfer_result of
        Inl err \<Rightarrow> seq (classify err) raise
      | Inr transfer \<Rightarrow> ok (new_write_stream transfer)) s = Some (r, t)
    \<and> starts s t \<and> idle t \<and> transfer_active t = (transfer_active s \<or> is_ok r)
    \<and> (\<forall>wr. r = Inr wr \<longrightarrow> wr_inner wr \<noteq> None)"
proof -
  have "\<exists>r t. start_upload op c u = Some (r, t) \<and> starts u t
      \<and> transfer_active t = (transfer_active u \<or> (\<exists>x. r = Inr (Inr x)))" for c u
    using start_upload_run [of op c u] by (auto simp: is_ok_iff)
  from with_stream_transfer [OF assms(1), of "start_upload op", OF this]
  obtain r t where w: "with_stream (start_upload op) s = Some (r, t)" "starts s t" "idle t"
    "transfer_active t = (transfer_active s \<or> (\<exists>x. r = Inr (Inr x)))" by blast
  show ?thesis
  proof (cases r)
    case (Inl e)
    with w show ?thesis by (auto simp: run_attempt)
  next
    case (Inr q)
    show ?thesis
    proof (cases q)
      case (Inl err)
      obtain d u where "classify err t = Some (d, u)" "keeps t u" "idle u"
        using outer.framedE [OF assms(2) w(3)] by blast
      with w Inr Inl show ?thesis
        by (auto simp: run_attempt run_seq keeps_def intro: starts_trans)
    next
      case (Inr transfer)
      with w \<open>r = Inr q\<close> show ?thesis by (auto simp: run_attempt new_write_stream_def)
    qed
  qed
qed

lemma closed_starts:
  "transfer_active t \<Longrightarrow> starts t (closed r w t)" "idle t \<Longrightarrow> idle (closed r w t)"
  by (auto simp: closed_def starts_def options_def idle_def)

lemma download_operation:
  assumes "idle s"
  shows "\<exists>r t. open_file F path opts s = Some (r, t) \<and> starts s t \<and> idle t
    \<and> transfer_active t = (transfer_active s \<or> is_ok r)
    \<and> (\<forall>rd. r = Inr rd \<longrightarrow> rd_inner rd \<noteq> None \<and> eof_seen rd \<and> rd_remaining rd = ro_length opts)"
proof (cases "remote_path (lib_ensure F) path")
  case (Inl e)
  with assms show ?thesis by (simp add: open_file_def starts_def)
next
  case (Inr remote)
  define offset where "offset = offset_of opts"
  from with_stream_transfer [OF assms, of "start_download F remote offset", OF start_download_run]
  obtain r t where w: "with_stream (start_download F remote offset) s = Some (r, t)" "starts s t" "idle t"
    "transfer_active t = (transfer_active s \<or> (\<exists>x. r = Inr (Inr x)))"
    "\<forall>x. r = Inr x \<longrightarrow> \<not> transfer_active s" by blast
  note u = open_file_def Inr offset_def [symmetric] Let_def
  show ?thesis
  proof (cases r)
    case (Inl e)
    with w show ?thesis by (auto simp: u run_attempt)
  next
    case (Inr q)
    note r = Inr
    show ?thesis
    proof (cases q)
      case (Inl err)
      obtain d v where "classify_file_refusal F path err t = Some (d, v)" "keeps t v" "idle v"
        using outer.framedE [OF outer_classify(1) w(3)] by blast
      with w r Inl show ?thesis
        by (auto simp: u run_attempt run_seq keeps_def intro: starts_trans)
    next
      case (Inr p)
      obtain transfer resumed where p: "p = (transfer, resumed)" by (cases p)
      have t: "transfer_active t" using w(4) r Inr by simp
      define rd0 where "rd0 = new_read_stream transfer (ro_length opts)"
      have i: "rd_inner rd0 = Some transfer" "rd_at_eof rd0 = False" "rd_remaining rd0 = ro_length opts"
        by (simp_all add: rd0_def new_read_stream_def)
      obtain a rest at_eof where sk: "skip_prefix F rd0 offset t =
          Some ((a, rd0\<lparr>rd_inner := Some (transfer\<lparr>tr_events := rest\<rparr>), rd_at_eof := at_eof\<rparr>), t)"
        using skip_prefix_total [OF i(1), of F offset t] by blast
      define rd1 where "rd1 = rd0\<lparr>rd_inner := Some (transfer\<lparr>tr_events := rest\<rparr>), rd_at_eof := at_eof\<rparr>"
      have rd1: "rd_inner rd1 = Some (transfer\<lparr>tr_events := rest\<rparr>)" "rd_remaining rd1 = ro_length opts"
        "eof_seen rd1"
        using i skip_prefix_eof_seen [OF i(1,2), of F offset t a rd1 t] sk by (auto simp: rd1_def)
      have e0: "eof_seen rd0" using i by (simp add: eof_seen_def)
      obtain res x where c: "completion F (transfer\<lparr>tr_events := rest\<rparr>) (rd_at_eof rd1) (world t) = (res, x)"
        by force
      note fin = closing_read(3) [OF rd1(1) c]
      show ?thesis
        using w r Inr p i rd1 e0 t fin sk closed_starts(1) [OF t] closed_starts(2) [OF w(3)]
        by (cases a) (auto simp: u run_attempt run_seq rd0_def [symmetric] rd1_def [symmetric]
            intro: starts_trans)
    qed
  qed
qed

end
