(* ===== verification/Connecting.thy ===== *)
theory Connecting
  imports Sync_Facts
begin

text \<open>
  Facts about connecting and disconnecting: setting up a control connection only touches the
  world, so what \<open>connect\<close> and \<open>disconnect\<close> do to the client's state can be written out.
\<close>

definition only_world :: "('s, 'z) conn_scheme \<Rightarrow> ('s, 'z) conn_scheme \<Rightarrow> bool" where
  "only_world s t \<longleftrightarrow> (\<exists>w. t = s\<lparr>world := w\<rparr>)"

interpretation remote_only: frame "\<lambda>_. True" only_world
proof
  fix s t u :: "('a, 'b) conn_scheme"
  have "s = s\<lparr>world := world s\<rparr>" by simp
  then show "only_world s s" unfolding only_world_def by blast
  show "only_world s t \<Longrightarrow> only_world t u \<Longrightarrow> only_world s u" by (auto simp: only_world_def)
qed simp

lemma only_world_update [simp]: "only_world s (s\<lparr>world := w\<rparr>)"
  by (auto simp: only_world_def)

lemma remote_on_world [frame_intros]: "remote_only.framed (on_world f)"
  by (rule remote_only.framedI) (simp add: on_world_def split: prod.splits)

lemma remote_update [frame_intros]: "remote_only.framed (update (\<lambda>s. s\<lparr>world := f s\<rparr>))"
  by (rule remote_only.framed_update) simp

lemma remote_drop [frame_intros]: "remote_only.framed (drop_stream F c)"
  unfolding drop_stream_def by (intro frame_intros)

lemma remote_or_drop [frame_intros]: "remote_only.framed m \<Longrightarrow> remote_only.framed (or_drop F c m)"
  unfolding or_drop_def by (intro frame_intros)

lemma remote_open_control: "remote_only.framed (open_control F)"
  unfolding open_control_def install_builder_def secure_stream_def log_in_def Let_def
  by (intro frame_intros)

lemma open_control_run: "\<exists>r w. open_control F s = Some (r, s\<lparr>world := w\<rparr>)"
proof (rule remote_only.framedE [OF remote_open_control TrueI, of F s])
  fix r t assume "open_control F s = Some (r, t)" "only_world s t"
  then show ?thesis by (auto simp: only_world_def)
qed

text \<open>The state from which a connection is set up: any old stream is gone.\<close>

definition cleared :: "('s, 'c, 't) ftp_lib \<Rightarrow> ('s, 'c) ftp_fs \<Rightarrow> ('s, 'c) ftp_fs" where
  "cleared F s =
     (if connection_usable s then s
      else s\<lparr>fs_stream := None, connection_usable := True,
             world := (case fs_stream s of None \<Rightarrow> world s | Some c \<Rightarrow> lib_close F (ctl_handle c) (world s))\<rparr>)"

lemma forget_unusable_run: "idle s \<Longrightarrow> forget_unusable F s = Some ((), cleared F s)"
  by (cases s) (auto simp: forget_unusable_def run_with_lock drop_stream_def cleared_def run_seq idle_def
      split: option.splits)

lemma connect_refused:
  assumes "idle s"
  shows "transfer_active s \<Longrightarrow> connect F s = Some (Inl busy_error, s)"
    and "\<not> transfer_active s \<Longrightarrow> connection_usable s \<Longrightarrow> fs_stream s \<noteq> None \<Longrightarrow>
      connect F s = Some (Inl (new_error KAlreadyConnected), s)"
  using assms by (auto simp: connect_def run_with_lock run_seq)

lemma connect_run:
  assumes "idle s" "\<not> transfer_active s" "connection_usable s \<longrightarrow> fs_stream s = None"
  shows "connect F s =
    (case open_control F (cleared F s) of
       None \<Rightarrow> None
     | Some (Inl e, t) \<Rightarrow> Some (Inl e, t)
     | Some (Inr c, t) \<Rightarrow> Some (Inr (), t\<lparr>fs_stream := Some c\<rparr>))"
proof -
  have i: "idle (cleared F s)" using assms(1) by (simp add: cleared_def idle_def)
  have tail: "(case open_control F (cleared F s) of
       None \<Rightarrow> None
     | Some (Inl e, t) \<Rightarrow> Some (Inl e, t)
     | Some (Inr c, t) \<Rightarrow> Some (Inr (), t\<lparr>fs_stream := Some c\<rparr>)) =
    attempt (open_control F) (\<lambda>c. seq (with_lock (update (\<lambda>s. s\<lparr>fs_stream := Some c\<rparr>))) (\<lambda>_. ok ()))
      (cleared F s)"
  proof -
    obtain r w where o: "open_control F (cleared F s) = Some (r, (cleared F s)\<lparr>world := w\<rparr>)"
      using open_control_run [of F "cleared F s"] by blast
    have iw: "idle ((cleared F s)\<lparr>world := w\<rparr>)" using i by (simp add: idle_def)
    have "(cleared F s)\<lparr>world := w, fs_locked := True, fs_stream := Some c, fs_locked := False\<rparr>
        = (cleared F s)\<lparr>world := w, fs_stream := Some c\<rparr>" for c
      using i by (cases "cleared F s") (simp add: idle_def)
    with o iw show ?thesis by (cases r) (simp_all add: run_attempt run_seq run_with_lock)
  qed
  show ?thesis
  proof (cases "connection_usable s")
    case True
    with assms have "connect F s = attempt (open_control F)
      (\<lambda>c. seq (with_lock (update (\<lambda>s. s\<lparr>fs_stream := Some c\<rparr>))) (\<lambda>_. ok ())) (cleared F s)"
      by (simp add: connect_def run_with_lock run_seq forget_unusable_run)
    with tail show ?thesis by simp
  next
    case False
    with assms have "connect F s = attempt (open_control F)
      (\<lambda>c. seq (with_lock (update (\<lambda>s. s\<lparr>fs_stream := Some c\<rparr>))) (\<lambda>_. ok ())) (cleared F s)"
      by (simp add: connect_def run_seq forget_unusable_run)
    with tail show ?thesis by simp
  qed
qed

lemma connect_outcome:
  assumes "idle s" "\<not> transfer_active s" "connection_usable s \<longrightarrow> fs_stream s = None"
  obtains (failed) e w where "connect F s = Some (Inl e, (cleared F s)\<lparr>world := w\<rparr>)"
  | (connected) c w where "connect F s = Some (Inr (), (cleared F s)\<lparr>world := w, fs_stream := Some c\<rparr>)"
proof -
  obtain r w where o: "open_control F (cleared F s) = Some (r, (cleared F s)\<lparr>world := w\<rparr>)"
    using open_control_run [of F "cleared F s"] by blast
  show thesis
  proof (cases r)
    case (Inl e)
    with o connect_run [OF assms, of F] show ?thesis by (intro failed [of e w]) simp
  next
    case (Inr c)
    with o connect_run [OF assms, of F] show ?thesis by (intro connected [where c = c and w = w]) simp
  qed
qed

lemma disconnect_refused:
  assumes "idle s"
  shows "transfer_active s \<Longrightarrow> disconnect F s = Some (Inl busy_error, s)"
    and "\<not> transfer_active s \<Longrightarrow> fs_stream s = None \<Longrightarrow>
      disconnect F s = Some (Inl (new_error KNotConnected), s)"
  using assms by (cases s; auto simp: disconnect_def run_with_lock run_seq idle_def)+

lemma disconnect_run:
  assumes "idle s" "\<not> transfer_active s" "fs_stream s = Some c"
  shows "disconnect F s =
    (if \<not> connection_usable s
     then Some (Inl closed_error, s\<lparr>fs_stream := None, connection_usable := True,
            world := lib_close F (ctl_handle c) (world s)\<rparr>)
     else case lib_quit F (ctl_handle c) (world s) of (r, w) \<Rightarrow>
       Some (map_err ftp_error r, s\<lparr>fs_stream := None, world := lib_close F (ctl_handle c) w,
         connection_usable := (case r of Inl e \<Rightarrow> \<not> transfer_setup_requires_reconnect e | Inr _ \<Rightarrow> True)\<rparr>))"
  using assms
  by (cases s) (auto simp: disconnect_def run_with_lock run_seq idle_def drop_stream_def run_on_world
      Let_def on_error_def record_remote_error_def mark_connection_unusable_def split: prod.splits sum.splits)

lemma run_is_connected:
  assumes "idle s"
  shows "is_connected s =
    Some (connection_usable s \<and> (fs_stream s \<noteq> None \<or> transfer_active s), s)"
  using assms by (cases s) (simp add: is_connected_def run_seq run_with_lock idle_def)

end
