(* ===== verification/Session.thy ===== *)
theory Session
  imports Connecting
begin

text \<open>
  A client and the streams it handed out, as a state machine: the operations of the client and
  of the streams in any order, on one thread. The streams alive are a list, so that "at most one
  transfer" is a consequence of the flag and not of the model.
\<close>

datatype 't handle = Reading "'t read_stream" | Writing "'t write_stream"

type_synonym ('s, 'c, 't) session = "('s, 'c) ftp_fs \<times> 't handle list"

fun alive :: "'t handle \<Rightarrow> bool" where
  "alive (Reading rd) = (rd_inner rd \<noteq> None)"
| "alive (Writing wr) = (wr_inner wr \<noteq> None)"

inductive session_step :: "('s, 'c, 't) ftp_lib \<Rightarrow> ('s, 'c, 't) session \<Rightarrow> ('s, 'c, 't) session \<Rightarrow> bool"
  for F :: "('s, 'c, 't) ftp_lib" where
  configure: "u \<in> {username n s, password n s, active_mode s, passive_mode s, secure a b s,
      passive_stream_builder k s} \<Longrightarrow> session_step F (s, L) (u, L)"
| connecting: "connect F s = Some (r, t) \<Longrightarrow> session_step F (s, L) (t, L)"
| disconnecting: "disconnect F s = Some (r, t) \<Longrightarrow> session_step F (s, L) (t, L)"
| listing: "list_dir F p s = Some (r1, t) \<Longrightarrow> session_step F (s, L) (t, L)"
| stating: "stat F p s = Some (r2, t) \<Longrightarrow> session_step F (s, L) (t, L)"
| testing: "exists F p s = Some (r3, t) \<Longrightarrow> session_step F (s, L) (t, L)"
| making: "create_dir F p mode s = Some (r, t) \<Longrightarrow> session_step F (s, L) (t, L)"
| removing: "remove_file F p s = Some (r, t) \<Longrightarrow> session_step F (s, L) (t, L)"
| clearing: "remove_dir F p s = Some (r, t) \<Longrightarrow> session_step F (s, L) (t, L)"
| renaming: "rename F p q s = Some (r, t) \<Longrightarrow> session_step F (s, L) (t, L)"
| executing: "exec F cmd s = Some (r4, t) \<Longrightarrow> session_step F (s, L) (t, L)"
| open_failed: "open_file F p opts s = Some (Inl e, t) \<Longrightarrow> session_step F (s, L) (t, L)"
| opened: "open_file F p opts s = Some (Inr rd, t) \<Longrightarrow> session_step F (s, L) (t, Reading rd # L)"
| create_failed: "create_file F p wopts s = Some (Inl e, t) \<Longrightarrow> session_step F (s, L) (t, L)"
| created: "create_file F p wopts s = Some (Inr wr, t) \<Longrightarrow> session_step F (s, L) (t, Writing wr # L)"
| append_failed: "append_file F p wopts s = Some (Inl e, t) \<Longrightarrow> session_step F (s, L) (t, L)"
| appended: "append_file F p wopts s = Some (Inr wr, t) \<Longrightarrow> session_step F (s, L) (t, Writing wr # L)"
| reading: "read_stream_read F rd n = Some (rb, rd') \<Longrightarrow>
    session_step F (s, L @ Reading rd # M) (s, L @ Reading rd' # M)"
| finish_reading: "read_stream_finish F rd s = Some (r, t) \<Longrightarrow>
    session_step F (s, L @ Reading rd # M) (t, L @ M)"
| drop_reading: "drop_read_stream F rd s = Some (u', t) \<Longrightarrow>
    session_step F (s, L @ Reading rd # M) (t, L @ M)"
| writing: "write_stream_write F wr buf s = Some (rn, t) \<Longrightarrow>
    session_step F (s, L @ Writing wr # M) (t, L @ Writing wr # M)"
| flushing: "write_stream_flush F wr s = Some (ru, t) \<Longrightarrow>
    session_step F (s, L @ Writing wr # M) (t, L @ Writing wr # M)"
| finish_writing: "write_stream_finish F wr s = Some (r, t) \<Longrightarrow>
    session_step F (s, L @ Writing wr # M) (t, L @ M)"
| drop_writing: "drop_write_stream F wr s = Some (u', t) \<Longrightarrow>
    session_step F (s, L @ Writing wr # M) (t, L @ M)"

inductive reachable :: "('s, 'c, 't) ftp_lib \<Rightarrow> ('s, 'c, 't) session \<Rightarrow> bool"
  for F :: "('s, 'c, 't) ftp_lib" where
  start: "reachable F (new hostname port w, [])"
| step: "reachable F x \<Longrightarrow> session_step F x y \<Longrightarrow> reachable F y"

section \<open>The invariant\<close>

definition consistent :: "('s, 'c, 't) session \<Rightarrow> bool" where
  "consistent x \<longleftrightarrow> (case x of (s, L) \<Rightarrow>
     idle s \<and> (transfer_active s \<longleftrightarrow> L \<noteq> []) \<and> length L \<le> 1 \<and> (\<forall>h \<in> set L. alive h)
     \<and> (transfer_active s \<longrightarrow> fs_stream s \<noteq> None))"

lemma consistent_start: "consistent (new hostname port w, [])"
  by (simp add: consistent_def new_def idle_def)

lemma keeps_consistent: "consistent (s, L) \<Longrightarrow> keeps s t \<Longrightarrow> consistent (t, L)"
  by (simp add: consistent_def keeps_def starts_def idle_def)

lemma framed_consistent:
  assumes "consistent (s, L)" "outer.framed m" "m s = Some (r, t)"
  shows "consistent (t, L)"
proof -
  from assms(1) have "idle s" by (simp add: consistent_def)
  from outer.framedD [OF assms(2) this assms(3)] show ?thesis
    using keeps_consistent [OF assms(1)] by blast
qed

lemma refused_consistent:
  assumes "consistent (s, L)" "starts s t" "idle t" "transfer_active t = transfer_active s"
  shows "consistent (t, L)"
  using assms by (simp add: consistent_def starts_def)

text \<open>A transfer that begins found the client free, so it is the only one.\<close>

lemma opened_consistent:
  assumes "consistent (s, L)" "starts s t" "idle t" "transfer_active t" "\<not> transfer_active s"
    "fs_stream s \<noteq> None" "alive h"
  shows "consistent (t, h # L)"
  using assms by (simp add: consistent_def starts_def)

lemma closed_consistent:
  assumes "consistent (s, L @ h # M)" "t = closed r w s"
  shows "consistent (t, L @ M)"
  using assms by (auto simp: consistent_def closed_def idle_def)

lemma world_consistent: "consistent (s, L) \<Longrightarrow> consistent (s\<lparr>world := w\<rparr>, L)"
  by (simp add: consistent_def idle_def)

lemma connect_consistent:
  assumes "consistent (s, L)" "connect F s = Some (r, t)"
  shows "consistent (t, L)"
proof -
  from assms(1) have i: "idle s" by (simp add: consistent_def)
  consider (busy) "transfer_active s"
    | (already) "\<not> transfer_active s" "connection_usable s" "fs_stream s \<noteq> None"
    | (fresh) "\<not> transfer_active s" "connection_usable s \<longrightarrow> fs_stream s = None"
    by (cases "transfer_active s"; cases "connection_usable s"; cases "fs_stream s") auto
  then show ?thesis
  proof cases
    case fresh
    from assms(1) fresh have L: "L = []" by (simp add: consistent_def)
    have c: "idle (cleared F s)" "\<not> transfer_active (cleared F s)"
      using i fresh by (auto simp: cleared_def idle_def)
    from i fresh show ?thesis
      by (rule connect_outcome [of s F]) (use assms(2) L c in \<open>auto simp: consistent_def idle_def\<close>)
  qed (use assms connect_refused [OF i, of F] in auto)
qed

lemma disconnect_consistent:
  assumes "consistent (s, L)" "disconnect F s = Some (r, t)"
  shows "consistent (t, L)"
proof -
  from assms(1) have i: "idle s" by (simp add: consistent_def)
  consider (busy) "transfer_active s" | (none) "\<not> transfer_active s" "fs_stream s = None"
    | (some) c where "\<not> transfer_active s" "fs_stream s = Some c" by fastforce
  then show ?thesis
  proof cases
    case some
    from assms(1) some have L: "L = []" by (simp add: consistent_def)
    from assms(2) disconnect_run [OF i some, of F] L i some show ?thesis
      by (auto simp: consistent_def idle_def split: if_splits prod.splits)
  qed (use assms disconnect_refused [OF i, of F] in auto)
qed

lemma open_consistent:
  assumes "consistent (s, L)" "open_file F p opts s = Some (r, t)"
  shows "case r of Inl e \<Rightarrow> consistent (t, L) | Inr rd \<Rightarrow> consistent (t, Reading rd # L)"
proof -
  from assms(1) have i: "idle s" by (simp add: consistent_def)
  from download_operation [OF i, of F p opts] assms(2)
  have d: "starts s t" "idle t" "transfer_active t = (transfer_active s \<or> is_ok r)"
    "\<forall>rd. r = Inr rd \<longrightarrow> rd_inner rd \<noteq> None" by auto
  show ?thesis
  proof (cases r)
    case (Inl e)
    with refused_consistent [OF assms(1) d(1,2)] d(3) show ?thesis by simp
  next
    case (Inr rd)
    have "refusal s = None"
    proof (rule ccontr)
      assume "refusal s \<noteq> None"
      then obtain e where "refusal s = Some e" by blast
      from with_stream_refused [OF i this, of "start_download F remote (offset_of opts)" for remote]
        assms(2) Inr show False
        by (cases "remote_path (lib_ensure F) p") (auto simp: open_file_def Let_def run_attempt)
    qed
    with refusal_None have "\<not> transfer_active s" "fs_stream s \<noteq> None" by auto
    with opened_consistent [OF assms(1) d(1,2), of "Reading rd"] d Inr show ?thesis by simp
  qed
qed

lemma upload_consistent:
  assumes "consistent (s, L)"
    and "attempt (ret (remote_path (lib_ensure F) p)) (\<lambda>remote.
      attempt (with_stream (start_upload (op remote))) (\<lambda>transfer_result.
      case transfer_result of
        Inl err \<Rightarrow> seq (classify_create_refusal F p err) raise
      | Inr transfer \<Rightarrow> ok (new_write_stream transfer))) s = Some (r, t)"
  shows "case r of Inl e \<Rightarrow> consistent (t, L) | Inr wr \<Rightarrow> consistent (t, Writing wr # L)"
proof (cases "remote_path (lib_ensure F) p")
  case (Inl e)
  with assms show ?thesis by auto
next
  case (Inr remote)
  from assms(1) have i: "idle s" by (simp add: consistent_def)
  from upload_operation [where classify = "classify_create_refusal F p" and op = "op remote",
      OF i outer_classify(2)] assms(2) Inr
  have d: "starts s t" "idle t" "transfer_active t = (transfer_active s \<or> is_ok r)"
    "\<forall>wr. r = Inr wr \<longrightarrow> wr_inner wr \<noteq> None" by auto
  show ?thesis
  proof (cases r)
    case (Inl e)
    with refused_consistent [OF assms(1) d(1,2)] d(3) show ?thesis by simp
  next
    case r: (Inr wr)
    have "refusal s = None"
    proof (rule ccontr)
      assume "refusal s \<noteq> None"
      then obtain e where "refusal s = Some e" by blast
      from with_stream_refused [OF i this, of "start_upload (op remote)"] assms(2) r Inr show False
        by (auto simp: run_attempt)
    qed
    with refusal_None have "\<not> transfer_active s" "fs_stream s \<noteq> None" by auto
    with opened_consistent [OF assms(1) d(1,2), of "Writing wr"] d r show ?thesis by simp
  qed
qed

lemma read_stream_alive:
  assumes "rd_inner rd \<noteq> None" "read_stream_read F rd n = Some (r, rd')"
  shows "rd_inner rd' \<noteq> None"
proof (cases "n = 0")
  case False
  then have n: "0 < n" by simp
  from assms(1) obtain inner where i: "rd_inner rd = Some inner" by blast
  from i n show ?thesis
    by (rule read_stream_read_cases [where F = F]) (use assms(2) in \<open>auto simp: Let_def split: if_splits\<close>)
qed (use assms in \<open>simp add: read_stream_read_def\<close>)

lemma close_read_consistent:
  assumes "consistent (s, L @ Reading rd # M)"
    "read_stream_finish F rd s = Some (r, t) \<or> drop_read_stream F rd s = Some (u, t)"
  shows "consistent (t, L @ M)"
proof -
  from assms(1) obtain inner where i: "rd_inner rd = Some inner" by (auto simp: consistent_def)
  obtain res w where c: "completion F inner (rd_at_eof rd) (world s) = (res, w)" by force
  from closing_read(1,2) [OF i c] assms(2) have "t = closed res w s" by auto
  from closed_consistent [OF assms(1) this] show ?thesis .
qed

lemma close_write_consistent:
  assumes "consistent (s, L @ Writing wr # M)"
    "write_stream_finish F wr s = Some (r, t) \<or> drop_write_stream F wr s = Some (u, t)"
  shows "consistent (t, L @ M)"
proof -
  from assms(1) obtain inner where i: "wr_inner wr = Some inner" by (auto simp: consistent_def)
  obtain res w where c: "upload_completion F inner (world s) = (res, w)" by force
  from closing_write [OF i c] assms(2) have "t = closed res w s" by auto
  from closed_consistent [OF assms(1) this] show ?thesis .
qed

lemma on_world_consistent:
  "consistent (s, L) \<Longrightarrow> on_world f s = Some (r, t) \<Longrightarrow> consistent (t, L)"
  by (auto simp: run_on_world world_consistent split: prod.splits)

lemma step_consistent: "session_step F x y \<Longrightarrow> consistent x \<Longrightarrow> consistent y"
proof (induction rule: session_step.induct)
  case configure
  then show ?case
    by (auto simp: consistent_def idle_def username_def password_def active_mode_def passive_mode_def
        secure_def passive_stream_builder_def)
next
  case (reading rd n rb rd' s L M)
  then show ?case using read_stream_alive [of rd F n rb rd'] by (auto simp: consistent_def)
next
  case (writing wr buf s rn t L M)
  then show ?case
    by (cases "wr_inner wr") (auto simp: write_stream_write_def seq_def intro: on_world_consistent)
next
  case (flushing wr s ru t L M)
  then show ?case
    by (cases "wr_inner wr") (auto simp: write_stream_flush_def seq_def intro: on_world_consistent)
next
  case (create_failed p wopts s e t L)
  then show ?case using upload_consistent [of s L F p "\<lambda>remote h. lib_put F h remote" "Inl e" t]
    by (simp add: create_file_def)
next
  case (created p wopts s wr t L)
  then show ?case using upload_consistent [of s L F p "\<lambda>remote h. lib_put F h remote" "Inr wr" t]
    by (simp add: create_file_def)
next
  case (append_failed p wopts s e t L)
  then show ?case using upload_consistent [of s L F p "\<lambda>remote h. lib_append F h remote" "Inl e" t]
    by (simp add: append_file_def)
next
  case (appended p wopts s wr t L)
  then show ?case using upload_consistent [of s L F p "\<lambda>remote h. lib_append F h remote" "Inr wr" t]
    by (simp add: append_file_def)
next
  case (open_failed p opts s e t L)
  then show ?case using open_consistent by fastforce
next
  case (opened p opts s rd t L)
  then show ?case using open_consistent by fastforce
qed (blast intro: connect_consistent disconnect_consistent close_read_consistent close_write_consistent
    framed_consistent outer_list_dir outer_stat outer_probes(2) outer_operations)+

lemma reachable_consistent: "reachable F x \<Longrightarrow> consistent x"
  by (induction rule: reachable.induct) (auto simp: consistent_start intro: step_consistent)

section \<open>Every operation returns\<close>

lemma connecting_returns:
  assumes "idle s"
  shows "\<exists>r t. connect F s = Some (r, t)" "\<exists>r t. disconnect F s = Some (r, t)"
proof -
  show "\<exists>r t. connect F s = Some (r, t)"
  proof (cases "transfer_active s \<or> connection_usable s \<and> fs_stream s \<noteq> None")
    case True
    then show ?thesis using connect_refused [OF assms, of F] by blast
  next
    case False
    then have "\<not> transfer_active s" "connection_usable s \<longrightarrow> fs_stream s = None" by blast+
    from connect_outcome [OF assms this, of F] show ?thesis by blast
  qed
  show "\<exists>r t. disconnect F s = Some (r, t)"
    using disconnect_refused [OF assms, of F] disconnect_run [OF assms, of _ F]
    by (cases "transfer_active s"; cases "fs_stream s"; cases "connection_usable s") (auto split: prod.splits)
qed

text \<open>A live stream can be dropped; and \<open>connect\<close> on an idle client leaves it admitted or disconnected.\<close>

lemma live_stream_closes:
  assumes "alive h"
  shows "\<exists>t. session_step F (s, [h]) (t, [])"
proof (cases h)
  case (Reading rd)
  with assms obtain inner where i: "rd_inner rd = Some inner" by auto
  obtain r w where "completion F inner (rd_at_eof rd) (world s) = (r, w)" by force
  from session_step.drop_reading [OF closing_read(2) [OF i this], of "[]" "[]"] Reading show ?thesis by auto
next
  case (Writing wr)
  with assms obtain inner where i: "wr_inner wr = Some inner" by auto
  obtain r w where "upload_completion F inner (world s) = (r, w)" by force
  from session_step.drop_writing [OF closing_write(2) [OF i this], of "[]" "[]"] Writing show ?thesis by auto
qed

lemma connect_admits:
  assumes "idle t" "\<not> transfer_active t"
  shows "\<exists>r u. connect F t = Some (r, u)
    \<and> (refusal u = None \<or> isl r \<and> refusal u = Some (new_error KNotConnected))"
proof (cases "connection_usable t \<and> fs_stream t \<noteq> None")
  case True
  with connect_refused(2) [OF assms, of F] have "connect F t = Some (Inl (new_error KAlreadyConnected), t)" by blast
  with True assms(2) show ?thesis by (auto simp: refusal_def)
next
  case False
  then have f: "connection_usable t \<longrightarrow> fs_stream t = None" by blast
  from assms f show ?thesis
  proof (cases rule: connect_outcome [of t F])
    case (failed e w)
    moreover have "refusal ((cleared F t)\<lparr>world := w\<rparr>) = Some (new_error KNotConnected)"
      using assms(2) f by (simp add: refusal_def cleared_def)
    ultimately show ?thesis by auto
  next
    case (connected c w)
    moreover have "refusal ((cleared F t)\<lparr>world := w, fs_stream := Some c\<rparr>) = None"
      using assms(2) by (simp add: refusal_def cleared_def)
    ultimately show ?thesis by auto
  qed
qed

end
