(* ===== verification/Lookup.thy ===== *)
theory Lookup
  imports Sync_Facts
begin

text \<open>
  Metadata lookup against a server whose listings do not change meanwhile: a pure reference for
  \<open>stat\<close> and its probes, what its answers prove about the file tree, and the locale \<open>prober\<close>,
  whose laws are the equations of a client's lookup and whose lemmas carry them to the
  reference. Both clients are instances.
\<close>

section \<open>The reference\<close>

type_synonym listing = "string \<Rightarrow> remote_error + remote_file list"

fun proves_absent :: "listing \<Rightarrow> nat \<Rightarrow> string \<Rightarrow> bool" where
  "proves_absent ls 0 p = False"
| "proves_absent ls (Suc n) p =
     (case parent p of
        None \<Rightarrow> False
      | Some q \<Rightarrow>
          (case ls q of
             Inr entries \<Rightarrow> \<not> list_ex (\<lambda>entry. path_eq (f_path entry) p) entries
           | Inl e \<Rightarrow> is_ambiguous_path_refusal e \<and> proves_absent ls n q))"

definition settled :: "listing \<Rightarrow> string \<Rightarrow> remote_error + remote_file list" where
  "settled ls p =
     (case ls p of
        Inr entries \<Rightarrow> Inr entries
      | Inl e \<Rightarrow>
          if is_ambiguous_path_refusal e
          then if proves_absent ls 8 p then Inl (with_source KNoSuchFileOrDirectory (DynRemote e))
               else Inl (ambiguous_path_permission e)
          else Inl e)"

function lookup :: "('s, 'c, 't) ftp_lib \<Rightarrow> listing \<Rightarrow> string \<Rightarrow> remote_error + remote_file" where
  "lookup F ls path =
     (if path_eq path ''/'' then Inr (root_file path)
      else case parent path of
        None \<Rightarrow> Inr (root_file path)
      | Some q \<Rightarrow>
          (case settled ls q of
             Inl e \<Rightarrow> Inl e
           | Inr entries \<Rightarrow>
               if lists_itself F q entries then
                 (case lookup F ls q of
                    Inr parent_entry \<Rightarrow>
                      if is_file parent_entry
                      then Inl (with_message KBadFile ''the parent path is a regular file'')
                      else find_entry path entries
                  | Inl e \<Rightarrow> if kind e = KPermissionDenied then find_entry path entries else Inl e)
               else find_entry path entries))"
  by pat_completeness auto
termination
  by (relation "measure (\<lambda>(F, ls, path). length path)") (auto dest: parent_shorter)

declare lookup.simps [simp del]

section \<open>What an answer proves\<close>

text \<open>
  A file tree, as the set of paths that exist: with a path it has its parent, and it does not
  tell spellings of a path apart. A listing is complete when no child that exists is missing.
\<close>

definition file_tree :: "(string \<Rightarrow> bool) \<Rightarrow> bool" where
  "file_tree present \<longleftrightarrow>
     (\<forall>p q. parent p = Some q \<longrightarrow> present p \<longrightarrow> present q)
     \<and> (\<forall>p q. path_eq p q \<longrightarrow> present p \<longrightarrow> present q)"

definition complete_listings :: "listing \<Rightarrow> (string \<Rightarrow> bool) \<Rightarrow> bool" where
  "complete_listings ls present \<longleftrightarrow>
     (\<forall>q entries p. ls q = Inr entries \<longrightarrow> parent p = Some q \<longrightarrow> present p \<longrightarrow>
        (\<exists>f \<in> set entries. path_eq (f_path f) p))"

text \<open>Every listed entry exists, with the type it is listed with, unless a file lists itself.\<close>

definition sound_listings :: "listing \<Rightarrow> (string \<Rightarrow> file_type option) \<Rightarrow> bool" where
  "sound_listings ls kind_of \<longleftrightarrow>
     (\<forall>q entries f. ls q = Inr entries \<longrightarrow> kind_of q = Some Directory \<longrightarrow> f \<in> set entries \<longrightarrow>
        kind_of (f_path f) = Some (md_file_type (f_metadata f)))"

definition candid_listings :: "listing \<Rightarrow> bool" where
  "candid_listings ls \<longleftrightarrow> (\<forall>q. candid (ls q))"

lemma proves_absent_sound:
  assumes "file_tree present" "complete_listings ls present"
  shows "proves_absent ls n p \<Longrightarrow> \<not> present p"
proof (induction n arbitrary: p)
  case (Suc n)
  then obtain q where q: "parent p = Some q" by (cases "parent p") auto
  show ?case
  proof (cases "ls q")
    case (Inl e)
    with Suc q have "\<not> present q" by simp
    with q assms(1) show ?thesis by (auto simp: file_tree_def)
  next
    case (Inr entries)
    show ?thesis
    proof
      assume "present p"
      with assms(2) Inr q obtain f where "f \<in> set entries" "path_eq (f_path f) p"
        unfolding complete_listings_def by blast
      with Suc.prems q Inr show False by (auto simp: list_ex_iff)
    qed
  qed
qed simp

lemma settled_not_found:
  assumes "settled ls p = Inl e" "kind e = KNoSuchFileOrDirectory" "candid_listings ls"
  shows "proves_absent ls 8 p"
proof (cases "ls p")
  case (Inl d)
  moreover have "candid (Inl d :: remote_error + remote_file list)"
    using assms(3) Inl by (metis candid_listings_def)
  ultimately show ?thesis
    using assms(1,2) by (auto simp: settled_def candid_def ambiguous_path_permission_def split: if_splits)
qed (use assms in \<open>simp add: settled_def\<close>)

lemma find_entry_Inr:
  "find_entry path entries = Inr f \<Longrightarrow> f \<in> set entries \<and> path_eq (f_path f) path"
  by (auto simp: find_entry_def find_Some_iff split: option.splits)

lemma find_entry_Inl:
  "find_entry path entries = Inl e \<Longrightarrow>
     kind e = KNoSuchFileOrDirectory \<and> (\<forall>f \<in> set entries. \<not> path_eq (f_path f) path)"
  by (auto simp: find_entry_def find_None_iff split: option.splits)

lemma lookup_absence:
  assumes "file_tree present" "complete_listings ls present" "candid_listings ls"
  shows "lookup F ls path = Inl e \<Longrightarrow> kind e = KNoSuchFileOrDirectory \<Longrightarrow> \<not> present path"
proof (induction "length path" arbitrary: path e rule: less_induct)
  case less
  from less(2) have nr: "\<not> path_eq path ''/''" by (subst (asm) lookup.simps) auto
  with less(2) obtain q where q: "parent path = Some q"
    by (subst (asm) lookup.simps) (auto split: option.splits)
  have up: "present path \<Longrightarrow> present q" using q assms(1) by (auto simp: file_tree_def)
  have missing: "\<not> present path" if "ls q = Inr entries" "find_entry path entries = Inl e" for entries
    using find_entry_Inl [OF that(2)] that(1) q assms(2) by (auto simp: complete_listings_def)
  show ?case
  proof (cases "settled ls q")
    case (Inl d)
    with less(2) nr q have "d = e" by (subst (asm) lookup.simps) simp
    with Inl settled_not_found [OF _ less(3) assms(3)] have "proves_absent ls 8 q" by simp
    from proves_absent_sound [OF assms(1,2) this] up show ?thesis by blast
  next
    case (Inr entries)
    then have ls: "ls q = Inr entries" by (auto simp: settled_def split: sum.splits if_splits)
    have "find_entry path entries = Inl e \<or> (lookup F ls q = Inl e)"
      using less(2,3) nr q Inr
      by (subst (asm) lookup.simps) (auto split: sum.splits if_splits)
    then show ?thesis
      using missing [OF ls] less(1) [OF parent_shorter [OF q] _ less(3)] up by blast
  qed
qed

lemma lookup_presence:
  assumes "lookup F ls path = Inr f"
  shows "(path_eq path ''/'' \<or> parent path = None) \<and> f = root_file path
    \<or> (\<exists>q entries. parent path = Some q \<and> ls q = Inr entries \<and> f \<in> set entries \<and> path_eq (f_path f) path)"
proof (cases "path_eq path ''/'' \<or> parent path = None")
  case True
  with assms show ?thesis by (subst (asm) lookup.simps) (auto split: if_splits)
next
  case False
  then obtain q where q: "parent path = Some q" by auto
  show ?thesis
  proof (cases "settled ls q")
    case (Inl d)
    with assms q False show ?thesis by (subst (asm) lookup.simps) simp
  next
    case (Inr entries)
    then have "ls q = Inr entries" by (auto simp: settled_def split: sum.splits if_splits)
    moreover have "find_entry path entries = Inr f"
      using assms q False Inr by (subst (asm) lookup.simps) (auto split: sum.splits if_splits)
    ultimately show ?thesis using find_entry_Inr q by blast
  qed
qed

section \<open>Clients that look up\<close>

text \<open>A state predicate under which raw listings answer \<open>ls\<close> and the client stays ready.\<close>

definition stable ::
  "(string \<Rightarrow> string \<Rightarrow> ('s, remote_error + remote_file list) act) \<Rightarrow> ('s, remote_error + unit) act
     \<Rightarrow> ('s \<Rightarrow> bool) \<Rightarrow> listing \<Rightarrow> bool" where
  "stable raw gate P ls \<longleftrightarrow>
     (\<forall>s q. P s \<longrightarrow> wire_path q \<longrightarrow> (\<exists>t. raw q q s = Some (ls q, t) \<and> P t))
     \<and> (\<forall>s. P s \<longrightarrow> (\<exists>t. gate s = Some (Inr (), t) \<and> P t))"

locale prober =
  fixes F :: "('w, 'c, 't) ftp_lib"
    and raw :: "string \<Rightarrow> string \<Rightarrow> ('s, remote_error + remote_file list) act"
    and gate :: "('s, remote_error + unit) act"
    and climb :: "nat \<Rightarrow> string \<Rightarrow> ('s, remote_error + bool) act"
    and list_or :: "string \<Rightarrow> string \<Rightarrow> ('s, remote_error + remote_file list) act"
    and look :: "string \<Rightarrow> ('s, remote_error + remote_file) act"
  assumes climb_0: "climb 0 p = ok False"
    and climb_Suc: "climb (Suc n) p =
      (case parent p of
         None \<Rightarrow> ok False
       | Some q \<Rightarrow>
           attempt (ret (remote_path (lib_ensure F) q)) (\<lambda>remote.
           seq (raw q remote) (\<lambda>r.
           case r of
             Inr entries \<Rightarrow> ok (\<not> list_ex (\<lambda>entry. path_eq (f_path entry) p) entries)
           | Inl e \<Rightarrow> if is_ambiguous_path_refusal e then climb n q else ok False)))"
    and list_or_eq: "list_or p remote =
      seq (raw p remote) (\<lambda>r.
      case r of
        Inr entries \<Rightarrow> ok entries
      | Inl e \<Rightarrow>
          if is_ambiguous_path_refusal e then
            attempt (climb 8 p) (\<lambda>absent.
            if absent then raise (with_source KNoSuchFileOrDirectory (DynRemote e))
            else raise (ambiguous_path_permission e))
          else raise e)"
    and look_eq: "look path =
      attempt (ret (remote_path (lib_ensure F) path)) (\<lambda>_.
      if path_eq path ''/'' then attempt gate (\<lambda>_. ok (root_file path))
      else
        (case parent path of
           None \<Rightarrow> panic
         | Some q \<Rightarrow>
             attempt (ret (remote_path (lib_ensure F) q)) (\<lambda>remote_parent.
             attempt (list_or q remote_parent) (\<lambda>entries.
             attempt (
               if lists_itself F q entries then
                 seq (look q) (\<lambda>r.
                 case r of
                   Inr parent_entry \<Rightarrow>
                     if is_file parent_entry
                     then raise (with_message KBadFile ''the parent path is a regular file'')
                     else ok ()
                 | Inl e \<Rightarrow> if kind e = KPermissionDenied then ok () else raise e)
               else ok ()) (\<lambda>_.
             ret (find_entry path entries))))))"
begin

lemma stable_raw: "stable raw gate P ls \<Longrightarrow> P s \<Longrightarrow> wire_path q \<Longrightarrow>
    \<exists>t. raw q q s = Some (ls q, t) \<and> P t"
  by (simp add: stable_def)

lemma stable_gate: "stable raw gate P ls \<Longrightarrow> P s \<Longrightarrow> \<exists>t. gate s = Some (Inr (), t) \<and> P t"
  by (simp add: stable_def)

lemma climb_stable:
  assumes "stable raw gate P ls" "ensure_contract (lib_ensure F)"
  shows "P s \<Longrightarrow> wire_path p \<Longrightarrow> \<exists>t. climb n p s = Some (Inr (proves_absent ls n p), t) \<and> P t"
proof (induction n arbitrary: p s)
  case 0
  then show ?case by (simp add: climb_0)
next
  case (Suc n)
  show ?case
  proof (cases "parent p")
    case None
    with Suc show ?thesis by (simp add: climb_Suc)
  next
    case (Some q)
    have q: "wire_path q" using wire_path_parent [OF Suc.prems(2) Some] .
    then have r: "remote_path (lib_ensure F) q = Inr q" using remote_path_contract(1) [OF assms(2)] by simp
    from stable_raw [OF assms(1) Suc.prems(1) q]
    obtain t where t: "raw q q s = Some (ls q, t)" "P t" by blast
    from Suc.IH [OF t(2) q] t r Some show ?thesis
      by (cases "ls q") (auto simp: climb_Suc run_seq)
  qed
qed

lemma list_or_stable:
  assumes "stable raw gate P ls" "ensure_contract (lib_ensure F)" "P s" "wire_path p"
  shows "\<exists>t. list_or p p s = Some (settled ls p, t) \<and> P t"
proof -
  from stable_raw [OF assms(1,3,4)] obtain t where t: "raw p p s = Some (ls p, t)" "P t" by blast
  from climb_stable [OF assms(1,2) t(2) assms(4), of 8] t show ?thesis
    by (cases "ls p") (auto simp: list_or_eq run_seq run_attempt settled_def)
qed

text \<open>The lookup of a client computes the reference.\<close>

lemma look_stable:
  assumes "stable raw gate P ls" "ensure_contract (lib_ensure F)"
  shows "P s \<Longrightarrow> wire_path path \<Longrightarrow> \<exists>t. look path s = Some (lookup F ls path, t) \<and> P t"
proof (induction "length path" arbitrary: path s rule: less_induct)
  case less
  have r: "remote_path (lib_ensure F) p = Inr p" if "wire_path p" for p
    using that remote_path_contract(1) [OF assms(2)] by simp
  show ?case
  proof (cases "path_eq path ''/''")
    case True
    from stable_gate [OF assms(1) less(2)] obtain t where "gate s = Some (Inr (), t)" "P t" by blast
    with True r less(3) show ?thesis by (subst look_eq) (auto simp: run_attempt lookup.simps)
  next
    case False
    then obtain q where q: "parent path = Some q"
      using path_eq_root_iff wire_path_absolute less(3) by fastforce
    have w: "wire_path q" using wire_path_parent [OF less(3) q] .
    from list_or_stable [OF assms less(2) w] obtain t where
      t: "list_or q q s = Some (settled ls q, t)" "P t" by blast
    from less(1) [OF parent_shorter [OF q] t(2) w] obtain u where
      u: "look q t = Some (lookup F ls q, u)" "P u" by blast
    from lookup.simps [of F ls path] False q have l: "lookup F ls path =
      (case settled ls q of
         Inl e \<Rightarrow> Inl e
       | Inr entries \<Rightarrow>
           if lists_itself F q entries then
             (case lookup F ls q of
                Inr parent_entry \<Rightarrow>
                  if is_file parent_entry
                  then Inl (with_message KBadFile ''the parent path is a regular file'')
                  else find_entry path entries
              | Inl e \<Rightarrow> if kind e = KPermissionDenied then find_entry path entries else Inl e)
           else find_entry path entries)" by simp
    show ?thesis unfolding l
      using t u False q r [OF w] r [OF less(3)]
      by (subst look_eq) (auto simp: run_attempt run_seq split: sum.splits)
  qed
qed

end

text \<open>A client whose raw listings and gate respect a frame looks up within it.\<close>

locale framed_prober = prober F raw gate climb list_or look + frame I R
  for F :: "('w, 'c, 't) ftp_lib"
    and raw :: "string \<Rightarrow> string \<Rightarrow> ('s, remote_error + remote_file list) act"
    and gate :: "('s, remote_error + unit) act"
    and climb :: "nat \<Rightarrow> string \<Rightarrow> ('s, remote_error + bool) act"
    and list_or :: "string \<Rightarrow> string \<Rightarrow> ('s, remote_error + remote_file list) act"
    and look :: "string \<Rightarrow> ('s, remote_error + remote_file) act"
    and I :: "'s \<Rightarrow> bool" and R :: "'s \<Rightarrow> 's \<Rightarrow> bool" +
  assumes raw_framed: "framed (raw p q)" and gate_framed: "framed gate"
begin

lemma climb_framed: "framed (climb n p)"
proof (induction n arbitrary: p)
  case (Suc n)
  show ?case unfolding climb_Suc by (intro frame_intros Suc raw_framed)
qed (simp add: climb_0 frame_intros)

lemma list_or_framed: "framed (list_or p remote)"
  unfolding list_or_eq by (intro frame_intros raw_framed climb_framed)

lemma look_framed: "framed (look path)"
proof (induction "length path" arbitrary: path rule: less_induct)
  case less
  show ?case
  proof (cases "remote_path (lib_ensure F) path")
    case (Inl e)
    then show ?thesis by (subst look_eq) (simp add: frame_intros)
  next
    case (Inr remote)
    then have abs: "is_absolute path" using remote_path_wire wire_path_absolute by blast
    show ?thesis
    proof (cases "parent path")
      case None
      with Inr abs show ?thesis
        by (subst look_eq) (auto simp: path_eq_root_iff intro!: frame_intros gate_framed)
    next
      case (Some q)
      with less have IH: "framed (look q)" using parent_shorter [OF Some] by simp
      from Some abs have "\<not> path_eq path ''/''" by (simp add: path_eq_root_iff)
      with Some Inr show ?thesis
        by (subst look_eq) (auto intro!: frame_intros IH list_or_framed)
    qed
  qed
qed

end

section \<open>The blocking client\<close>

lemma with_stream_value: "with_stream (\<lambda>_. ok x) = attempt (with_stream (\<lambda>_. ok ())) (\<lambda>_. ok x)"
proof
  fix s
  show "with_stream (\<lambda>_. ok x) s = attempt (with_stream (\<lambda>_. ok ())) (\<lambda>_. ok x) s"
  proof (cases "idle s")
    case i: True
    show ?thesis
    proof (cases "refusal s")
      case None
      then obtain c where "fs_stream s = Some c" using refusal_None by blast
      with i None show ?thesis by (simp add: with_stream_admitted run_attempt noted_def)
    qed (use i in \<open>simp add: with_stream_refused run_attempt\<close>)
  qed (simp add: with_stream_def deadlock run_attempt)
qed

interpretation sync_prober: prober F "list_dir_raw F" "with_stream (\<lambda>_. ok ())" "ancestor_loop F"
  "list_or_prove_absent F" "stat F" for F
proof
  fix path
  show "stat F path =
      attempt (ret (remote_path (lib_ensure F) path)) (\<lambda>_.
      if path_eq path ''/'' then attempt (with_stream (\<lambda>_. ok ())) (\<lambda>_. ok (root_file path))
      else
        (case parent path of
           None \<Rightarrow> panic
         | Some q \<Rightarrow>
             attempt (ret (remote_path (lib_ensure F) q)) (\<lambda>remote_parent.
             attempt (list_or_prove_absent F q remote_parent) (\<lambda>entries.
             attempt (
               if lists_itself F q entries then
                 seq (stat F q) (\<lambda>r.
                 case r of
                   Inr parent_entry \<Rightarrow>
                     if is_file parent_entry
                     then raise (with_message KBadFile ''the parent path is a regular file'')
                     else ok ()
                 | Inl e \<Rightarrow> if kind e = KPermissionDenied then ok () else raise e)
               else ok ()) (\<lambda>_.
             ret (find_entry path entries))))))"
    by (subst stat.simps) (simp only: with_stream_value [symmetric])
qed (simp_all only: ancestor_loop.simps, unfold list_or_prove_absent_def ancestor_proves_absent_def, rule refl)

interpretation sync_framed: framed_prober F "list_dir_raw F" "with_stream (\<lambda>_. ok ())" "ancestor_loop F"
  "list_or_prove_absent F" "stat F" idle keeps for F
  by unfold_locales (intro frame_intros)+

end
