(* ===== verification/Sync_Laws.thy ===== *)
theory Sync_Laws
  imports Session Lookup
begin

text \<open>
  Lemmas behind the properties of the blocking client: refusals before any effect, failures that
  lose the synchrony with the server, what a classification proves, and the range a download
  delivers.
\<close>

section \<open>Refused operations\<close>

lemma refusal_kinds:
  assumes "refusal s = Some e"
  shows "\<not> is_ambiguous_path_refusal e" "kind e \<noteq> KNoSuchFileOrDirectory"
    "remote_error_requires_reconnect e \<longrightarrow> \<not> connection_usable s"
  using assms by (auto simp: refusal_def busy_error_def unusable_error_def split: if_splits)

lemma refused_raw: "idle s \<Longrightarrow> refusal s = Some e \<Longrightarrow> list_dir_raw F p remote s = Some (Inl e, s)"
  by (simp add: list_dir_raw_def attempt_Inl with_exclusive_refused)

lemma refused_list_or:
  "idle s \<Longrightarrow> refusal s = Some e \<Longrightarrow> list_or_prove_absent F p remote s = Some (Inl e, s)"
  by (simp add: list_or_prove_absent_def run_seq refused_raw refusal_kinds)

lemma refused_stat:
  assumes "idle s" "refusal s = Some e" "wire_path path" "ensure_contract (lib_ensure F)"
  shows "stat F path s = Some (Inl e, s)"
proof -
  have r: "remote_path (lib_ensure F) p = Inr p" if "wire_path p" for p
    using that remote_path_contract(1) [OF assms(4)] by simp
  show ?thesis
  proof (cases "path_eq path ''/''")
    case True
    with assms r [OF assms(3)] show ?thesis by (subst stat.simps) (simp add: with_stream_refused)
  next
    case False
    then obtain q where q: "parent path = Some q"
      using path_eq_root_iff wire_path_absolute [OF assms(3)] by fastforce
    with r [OF wire_path_parent [OF assms(3) q]] False assms r [OF assms(3)] show ?thesis
      by (subst stat.simps) (simp add: run_attempt refused_list_or)
  qed
qed

section \<open>Lost synchrony\<close>

definition noticed :: "remote_error + 'a \<Rightarrow> ('s, 'z) conn_scheme \<Rightarrow> bool" where
  "noticed r t \<longleftrightarrow> (\<forall>e. r = Inl e \<longrightarrow> remote_error_requires_reconnect e \<longrightarrow> \<not> connection_usable t)"

lemma noticed_noted: "noticed r ((noted r t)\<lparr>fs_locked := b\<rparr>)"
  by (auto simp: noticed_def noted_def)

lemma classify_reconnect:
  "outer.meets (classify_file_refusal F p err)
     (\<lambda>d. remote_error_requires_reconnect d = transfer_setup_requires_reconnect err)"
  "outer.meets (classify_create_refusal F p err)
     (\<lambda>d. remote_error_requires_reconnect d = transfer_setup_requires_reconnect err)"
  "outer.meets (classify_remove_dir_refusal F p err)
     (\<lambda>d. remote_error_requires_reconnect d = transfer_setup_requires_reconnect err)"
  "outer.meets (classify_create_dir_refusal F p err)
     (\<lambda>d. remote_error_requires_reconnect d = transfer_setup_requires_reconnect err)"
  "outer.meets (classify_rename_refusal F p q err)
     (\<lambda>d. remote_error_requires_reconnect d = transfer_setup_requires_reconnect err)"
  unfolding classify_file_refusal_def classify_create_refusal_def classify_remove_dir_refusal_def
    classify_create_dir_refusal_def classify_rename_refusal_def
  by (auto intro!: outer.meets_ret outer.meets_value outer.meets_seq [OF outer.framed_meets] frame_intros
      split: sum.splits if_splits)

text \<open>What the gate leaves after a command whose reply its closure recorded.\<close>

definition recorded_reply :: "remote_error + (FtpError + 'a) \<Rightarrow> ('s, 'z) conn_scheme \<Rightarrow> bool" where
  "recorded_reply r t \<longleftrightarrow> noticed r t
     \<and> (\<forall>e. r = Inr (Inl e) \<longrightarrow> transfer_setup_requires_reconnect e \<longrightarrow> \<not> connection_usable t)"

lemma gate_recorded:
  assumes "idle s" "with_stream f s = Some (r, t)"
    and "\<And>c u. \<exists>r v. f c u = Some (r, v) \<and> idle v = idle u
      \<and> (\<forall>e. r = Inr (Inl e) \<longrightarrow> transfer_setup_requires_reconnect e \<longrightarrow> \<not> connection_usable v)"
  shows "recorded_reply r t \<and> idle t"
proof (cases "refusal s")
  case (Some e)
  with with_stream_refused [OF assms(1) Some, of f] assms(1,2) refusal_kinds(3) [OF Some]
  show ?thesis by (auto simp: recorded_reply_def noticed_def)
next
  case None
  then obtain c where c: "fs_stream s = Some c" using refusal_None by blast
  obtain q v where v: "f c (s\<lparr>fs_locked := True\<rparr>) = Some (q, v)"
    "\<forall>e. q = Inr (Inl e) \<longrightarrow> transfer_setup_requires_reconnect e \<longrightarrow> \<not> connection_usable v"
    using assms(3) by blast
  with with_stream_admitted [OF assms(1) None c, of f] assms(2)
  have "r = q" "t = (noted q v)\<lparr>fs_locked := False\<rparr>" by simp_all
  with v(2) noticed_noted [where r = q and t = v and b = False] show ?thesis
    by (auto simp: recorded_reply_def noted_def idle_def split: sum.splits)
qed

lemma recorded_notices:
  assumes "inner.framed m"
  shows "\<exists>r v. recorded m u = Some (r, v) \<and> idle v = idle u
    \<and> (\<forall>e. r = Inr (Inl e) \<longrightarrow> transfer_setup_requires_reconnect e \<longrightarrow> \<not> connection_usable v)"
proof -
  from inner_run [OF assms, of u] obtain x v where v: "m u = Some (x, v)" "keeps u v" by blast
  then show ?thesis
    by (cases x) (auto simp: recorded_def seq_def on_error_def record_ftp_error_def
        mark_connection_unusable_def keeps_def starts_def idle_def)
qed

lemma upload_notices:
  "\<exists>r v. start_upload op c u = Some (r, v) \<and> idle v = idle u
    \<and> (\<forall>e. r = Inr (Inl e) \<longrightarrow> transfer_setup_requires_reconnect e \<longrightarrow> \<not> connection_usable v)"
proof -
  have "inner.framed (data_command op c)" by (rule inner_command)
  from inner_run [OF this, of u] obtain x v where "data_command op c u = Some (x, v)" "keeps u v" by blast
  then show ?thesis
    by (cases x) (auto simp: start_upload_def seq_def on_error_def record_ftp_error_def
        mark_connection_unusable_def keeps_def starts_def idle_def)
qed

text \<open>A command whose refusals are classified: its error is the recorded one, reclassified.\<close>

lemma classified_noticed:
  assumes "idle s" "m s = Some (r, t)"
    and "\<And>r t. with_stream f s = Some (r, t) \<Longrightarrow> recorded_reply r t \<and> idle t"
    and "m = attempt (with_stream f) (\<lambda>result. case result of
      Inl err \<Rightarrow> seq (g err) raise | Inr x \<Rightarrow> ok (h x))"
    and "\<And>err. outer.meets (g err) (\<lambda>d. remote_error_requires_reconnect d \<longrightarrow> transfer_setup_requires_reconnect err)"
  shows "noticed r t"
proof -
  from assms(2) have "attempt (with_stream f) (\<lambda>result. case result of
      Inl err \<Rightarrow> seq (g err) raise | Inr x \<Rightarrow> ok (h x)) s = Some (r, t)" by (simp add: assms(4))
  then show ?thesis
  proof (cases rule: attempt_SomeE)
    case (err e)
    with assms(3) [OF err(1)] show ?thesis by (simp add: recorded_reply_def noticed_def)
  next
    case (val x u)
    from assms(3) [OF val(1)] have u: "recorded_reply (Inr x) u" "idle u" by simp_all
    show ?thesis
    proof (cases x)
      case (Inl err)
      obtain d v where d: "g err u = Some (d, v)" "keeps u v"
        "remote_error_requires_reconnect d \<longrightarrow> transfer_setup_requires_reconnect err"
        using outer.meetsE [OF assms(5) u(2)] by blast
      with val(2) Inl have "r = Inl d" "t = v" by (auto simp: seq_def)
      with d u(1) Inl show ?thesis by (auto simp: noticed_def recorded_reply_def keeps_def starts_def)
    next
      case (Inr y)
      with val(2) show ?thesis by (auto simp: noticed_def)
    qed
  qed
qed

lemma classify_meets:
  "outer.meets (classify_file_refusal F p err)
     (\<lambda>d. remote_error_requires_reconnect d \<longrightarrow> transfer_setup_requires_reconnect err)"
  "outer.meets (classify_create_refusal F p err)
     (\<lambda>d. remote_error_requires_reconnect d \<longrightarrow> transfer_setup_requires_reconnect err)"
  "outer.meets (classify_rename_refusal F p q err)
     (\<lambda>d. remote_error_requires_reconnect d \<longrightarrow> transfer_setup_requires_reconnect err)"
  "outer.meets (if is_creation_refusal err then classify_create_dir_refusal F p err else ret (ftp_error err))
     (\<lambda>d. remote_error_requires_reconnect d \<longrightarrow> transfer_setup_requires_reconnect err)"
  "outer.meets (seq (record_ftp_error err) (\<lambda>_. classify_remove_dir_refusal F p err))
     (\<lambda>d. remote_error_requires_reconnect d \<longrightarrow> transfer_setup_requires_reconnect err)"
  by (auto intro: outer.meets_weaken [OF classify_reconnect(1)] outer.meets_weaken [OF classify_reconnect(2)]
      outer.meets_weaken [OF classify_reconnect(4)] outer.meets_weaken [OF classify_reconnect(5)]
      intro!: outer.meets_ret outer.meets_seq [OF outer.framed_meets [OF outer_record(1)]]
      outer.meets_weaken [OF classify_reconnect(3)])

lemma gate_command:
  "idle s \<Longrightarrow> with_stream (\<lambda>c. recorded (command op c)) s = Some (r, t) \<Longrightarrow> recorded_reply r t \<and> idle t"
  by (erule gate_recorded) (assumption, rule recorded_notices [OF inner_command(1)])

lemma gate_upload:
  "idle s \<Longrightarrow> with_stream (start_upload op) s = Some (r, t) \<Longrightarrow> recorded_reply r t \<and> idle t"
  by (erule gate_recorded) (assumption, rule upload_notices)

text \<open>The operations as a gated command followed by a classification.\<close>

lemma command_shapes:
  assumes "remote_path (lib_ensure F) p = Inr p"
  shows "create_dir F p mode = attempt (with_stream (\<lambda>c. recorded (command (\<lambda>h. lib_mkdir F h p) c)))
     (\<lambda>result. case result of
        Inl err \<Rightarrow> seq (if is_creation_refusal err then classify_create_dir_refusal F p err
                        else ret (ftp_error err)) raise
      | Inr x \<Rightarrow> ok (id x))"
    and "remove_dir F p = attempt (with_stream (\<lambda>c. recorded (command (\<lambda>h. lib_rmdir F h p) c)))
     (\<lambda>result. case result of
        Inl err \<Rightarrow> seq (seq (record_ftp_error err) (\<lambda>_. classify_remove_dir_refusal F p err)) raise
      | Inr x \<Rightarrow> ok (id x))"
    and "remove_file F p = attempt (with_stream (\<lambda>c. recorded (command (\<lambda>h. lib_rm F h p) c)))
     (\<lambda>result. case result of Inl err \<Rightarrow> seq (classify_file_refusal F p err) raise | Inr x \<Rightarrow> ok (id x))"
    and "remote_path (lib_ensure F) q = Inr q \<Longrightarrow>
     rename F p q = attempt (with_stream (\<lambda>c. recorded (command (\<lambda>h. lib_rename F h p q) c)))
     (\<lambda>result. case result of Inl err \<Rightarrow> seq (classify_rename_refusal F p q err) raise | Inr x \<Rightarrow> ok (id x))"
    and "create_file F p wopts = attempt (with_stream (start_upload (\<lambda>h. lib_put F h p)))
     (\<lambda>result. case result of Inl err \<Rightarrow> seq (classify_create_refusal F p err) raise
      | Inr x \<Rightarrow> ok (new_write_stream x))"
    and "append_file F p wopts = attempt (with_stream (start_upload (\<lambda>h. lib_append F h p)))
     (\<lambda>result. case result of Inl err \<Rightarrow> seq (classify_create_refusal F p err) raise
      | Inr x \<Rightarrow> ok (new_write_stream x))"
  using assms
  by (auto simp: create_dir_def remove_dir_def remove_file_def rename_def create_file_def append_file_def
      fun_eq_iff run_attempt run_seq split: option.splits sum.splits)

lemma exec_noticed:
  assumes "idle s" "exec F cmd s = Some (x, t)"
  shows "noticed x t"
    using assms(2) unfolding exec_def
proof (cases rule: attempt_SomeE)
  case (err e)
  let ?f = "\<lambda>c. seq (command (\<lambda>h. lib_site F h cmd) c) (\<lambda>r. ret (map_err ftp_error r))"
  show ?thesis
  proof (cases "refusal s")
    case (Some d)
    from err with_stream_refused [OF assms(1) Some, of ?f] have "d = e" "t = s" by simp_all
    with refusal_kinds(3) [OF Some] err(2) show ?thesis by (auto simp: noticed_def)
  next
    case None
    then obtain c where c: "fs_stream s = Some c" using refusal_None by blast
    from err with_stream_admitted [OF assms(1) None c, of ?f] obtain v
      where "t = (noted (Inl e :: remote_error + response) v)\<lparr>fs_locked := False\<rparr>"
      by (auto split: option.splits)
    with err(2) noticed_noted [where r = "Inl e :: remote_error + response"] show ?thesis by (simp add: noticed_def)
  qed
qed (auto simp: noticed_def)

section \<open>Classification against unchanging listings\<close>

definition file_at :: "('s, 'c, 't) ftp_lib \<Rightarrow> listing \<Rightarrow> string \<Rightarrow> bool" where
  "file_at F ls p = (case lookup F ls p of Inr f \<Rightarrow> is_file f | Inl _ \<Rightarrow> False)"

definition missing :: "('s, 'c, 't) ftp_lib \<Rightarrow> listing \<Rightarrow> string \<Rightarrow> bool" where
  "missing F ls p = (case lookup F ls p of Inl e \<Rightarrow> kind e = KNoSuchFileOrDirectory | Inr _ \<Rightarrow> False)"

definition missing_parent :: "('s, 'c, 't) ftp_lib \<Rightarrow> listing \<Rightarrow> string \<Rightarrow> bool" where
  "missing_parent F ls p = (case parent p of None \<Rightarrow> False | Some q \<Rightarrow> missing F ls q)"

definition directory :: "('s, 'c, 't) ftp_lib \<Rightarrow> listing \<Rightarrow> string \<Rightarrow> remote_error + remote_file list" where
  "directory F ls p =
     (case settled ls p of
        Inl e \<Rightarrow> Inl e
      | Inr entries \<Rightarrow>
          if \<not> path_eq p ''/'' \<and> (lists_itself F p entries \<or> entries = []) \<and> file_at F ls p
          then Inl not_a_directory else Inr entries)"

definition file_verdict :: "('s, 'c, 't) ftp_lib \<Rightarrow> listing \<Rightarrow> string \<Rightarrow> remote_error_type" where
  "file_verdict F ls p =
     (case lookup F ls p of
        Inr f \<Rightarrow> if is_dir f then KBadFile else KNoSuchFileOrDirectory
      | Inl _ \<Rightarrow> KNoSuchFileOrDirectory)"

definition create_verdict :: "('s, 'c, 't) ftp_lib \<Rightarrow> listing \<Rightarrow> string \<Rightarrow> remote_error_type" where
  "create_verdict F ls p =
     (case lookup F ls p of
        Inr f \<Rightarrow> if is_dir f then KAlreadyExists else KPermissionDenied
      | Inl _ \<Rightarrow> if missing F ls p \<and> missing_parent F ls p then KNoSuchFileOrDirectory else KPermissionDenied)"

definition create_dir_verdict :: "('s, 'c, 't) ftp_lib \<Rightarrow> listing \<Rightarrow> string \<Rightarrow> remote_error_type" where
  "create_dir_verdict F ls p =
     (case lookup F ls p of
        Inr f \<Rightarrow> KAlreadyExists
      | Inl _ \<Rightarrow> if missing F ls p \<and> missing_parent F ls p then KNoSuchFileOrDirectory else KPermissionDenied)"

definition remove_dir_verdict :: "('s, 'c, 't) ftp_lib \<Rightarrow> listing \<Rightarrow> string \<Rightarrow> remote_error_type" where
  "remove_dir_verdict F ls p =
     (case lookup F ls p of
        Inr f \<Rightarrow>
          if \<not> is_dir f then KBadFile
          else (case directory F ls p of
                  Inr entries \<Rightarrow> if entries \<noteq> [] then KDirectoryNotEmpty else KPermissionDenied
                | Inl _ \<Rightarrow> KPermissionDenied)
      | Inl _ \<Rightarrow> if missing F ls p then KNoSuchFileOrDirectory else KPermissionDenied)"

definition rename_verdict :: "('s, 'c, 't) ftp_lib \<Rightarrow> listing \<Rightarrow> string \<Rightarrow> string \<Rightarrow> remote_error_type" where
  "rename_verdict F ls src dest =
     (case lookup F ls src of
        Inl _ \<Rightarrow> if missing F ls src then KNoSuchFileOrDirectory else KPermissionDenied
      | Inr _ \<Rightarrow> if missing_parent F ls dest then KNoSuchFileOrDirectory else KPermissionDenied)"

abbreviation server_stable :: "('s, 'c, 't) ftp_lib \<Rightarrow> (('s, 'c) ftp_fs \<Rightarrow> bool) \<Rightarrow> listing \<Rightarrow> bool" where
  "server_stable F P ls \<equiv> stable (list_dir_raw F) (with_stream (\<lambda>_. ok ())) P ls"

lemma ftp_error_refusal:
  "is_file_unavailable err \<Longrightarrow> ftp_error err = with_source KNoSuchFileOrDirectory (DynFtp err)"
  by (cases err) auto

lemma missing_parent_stable:
  assumes "server_stable F P ls" "ensure_contract (lib_ensure F)" "P s" "wire_path p"
  shows "\<exists>t. destination_parent_is_missing F p s = Some (missing_parent F ls p, t) \<and> P t"
proof (cases "parent p")
  case None
  with assms show ?thesis by (simp add: destination_parent_is_missing_def missing_parent_def)
next
  case (Some q)
  from sync_prober.look_stable [OF assms(1-3) wire_path_parent [OF assms(4) Some]]
  obtain t where "stat F q s = Some (lookup F ls q, t)" "P t" by blast
  with Some show ?thesis
    by (auto simp: destination_parent_is_missing_def missing_parent_def missing_def run_seq)
qed

lemma list_dir_stable:
  assumes "server_stable F P ls" "ensure_contract (lib_ensure F)" "P s" "wire_path p"
  shows "\<exists>t. list_dir F p s = Some (directory F ls p, t) \<and> P t"
proof -
  have r: "remote_path (lib_ensure F) p = Inr p"
    using assms(4) remote_path_contract(1) [OF assms(2)] by simp
  from sync_prober.list_or_stable [OF assms] obtain t where
    t: "list_or_prove_absent F p p s = Some (settled ls p, t)" "P t" by blast
  have st: "\<exists>u. stat_is_file F p v = Some (file_at F ls p, u) \<and> P u" if "P v" for v
    using sync_prober.look_stable [OF assms(1,2) that assms(4)]
    by (auto simp: stat_is_file_def run_seq file_at_def)
  show ?thesis
  proof (cases "settled ls p")
    case (Inl e)
    with t r show ?thesis by (auto simp: list_dir_def run_attempt directory_def)
  next
    case (Inr entries)
    obtain u where u: "stat_is_file F p t = Some (file_at F ls p, u)" "P u" using st [OF t(2)] by blast
    have ne: "lists_itself F p entries \<Longrightarrow> entries \<noteq> []" by (auto simp: lists_itself_def)
    from Inr t r u ne show ?thesis
      by (auto simp: list_dir_def run_attempt run_seq directory_def)
  qed
qed

text \<open>The kind a refusal is given is the verdict of the listings.\<close>

lemma verdicts_stable:
  assumes "server_stable F P ls" "ensure_contract (lib_ensure F)" "P s" "wire_path p"
  shows "is_file_unavailable err \<Longrightarrow>
      \<exists>t. classify_file_refusal F p err s = Some (with_source (file_verdict F ls p) (DynFtp err), t) \<and> P t"
    and "is_creation_refusal err \<Longrightarrow>
      \<exists>t. classify_create_refusal F p err s = Some (with_source (create_verdict F ls p) (DynFtp err), t) \<and> P t"
    and "is_creation_refusal err \<Longrightarrow>
      \<exists>t. classify_create_dir_refusal F p err s =
        Some (with_source (create_dir_verdict F ls p) (DynFtp err), t) \<and> P t"
    and "is_file_unavailable err \<Longrightarrow>
      \<exists>t. classify_remove_dir_refusal F p err s =
        Some (with_source (remove_dir_verdict F ls p) (DynFtp err), t) \<and> P t"
    and "is_creation_refusal err \<Longrightarrow> wire_path q \<Longrightarrow>
      \<exists>t. classify_rename_refusal F p q err s =
        Some (with_source (rename_verdict F ls p q) (DynFtp err), t) \<and> P t"
proof -
  from sync_prober.look_stable [OF assms] obtain t where
    t: "stat F p s = Some (lookup F ls p, t)" "P t" by blast
  from missing_parent_stable [OF assms(1,2) t(2) assms(4)] obtain u where
    u: "destination_parent_is_missing F p t = Some (missing_parent F ls p, u)" "P u" by blast
  from list_dir_stable [OF assms(1,2) t(2) assms(4)] obtain v where
    v: "list_dir F p t = Some (directory F ls p, v)" "P v" by blast
  show "\<exists>t. classify_file_refusal F p err s = Some (with_source (file_verdict F ls p) (DynFtp err), t) \<and> P t"
    if "is_file_unavailable err"
    using that t ftp_error_refusal [OF that]
    by (auto simp: classify_file_refusal_def run_seq file_verdict_def split: sum.splits)
  show "\<exists>t. classify_create_refusal F p err s = Some (with_source (create_verdict F ls p) (DynFtp err), t) \<and> P t"
    if "is_creation_refusal err"
    using that t u
    by (auto simp: classify_create_refusal_def run_seq create_verdict_def missing_def split: sum.splits)
  show "\<exists>t. classify_create_dir_refusal F p err s =
        Some (with_source (create_dir_verdict F ls p) (DynFtp err), t) \<and> P t"
    if "is_creation_refusal err"
    using that t u
    by (auto simp: classify_create_dir_refusal_def run_seq create_dir_verdict_def missing_def split: sum.splits)
  show "\<exists>t. classify_remove_dir_refusal F p err s =
        Some (with_source (remove_dir_verdict F ls p) (DynFtp err), t) \<and> P t"
    if "is_file_unavailable err"
    using that t v
    by (auto simp: classify_remove_dir_refusal_def run_seq remove_dir_verdict_def missing_def split: sum.splits)
  show "\<exists>t. classify_rename_refusal F p q err s =
        Some (with_source (rename_verdict F ls p q) (DynFtp err), t) \<and> P t"
    if "is_creation_refusal err" "wire_path q"
  proof -
    from missing_parent_stable [OF assms(1,2) t(2) that(2)] obtain w where
      "destination_parent_is_missing F q t = Some (missing_parent F ls q, w)" "P w" by blast
    with that t show ?thesis
      by (auto simp: classify_rename_refusal_def run_seq rename_verdict_def missing_def split: sum.splits)
  qed
qed

text \<open>What the verdicts say, whatever the library.\<close>

lemma create_dir_verdict_kinds:
  "create_dir_verdict F ls p \<in> {KAlreadyExists, KNoSuchFileOrDirectory, KPermissionDenied}"
  "create_dir_verdict F ls p = KAlreadyExists \<longleftrightarrow> is_ok (lookup F ls p)"
  "create_dir_verdict F ls p = KNoSuchFileOrDirectory \<longleftrightarrow> missing F ls p \<and> missing_parent F ls p"
  by (auto simp: create_dir_verdict_def missing_def split: sum.splits)

lemma create_verdict_kinds:
  "create_verdict F ls p \<in> {KAlreadyExists, KNoSuchFileOrDirectory, KPermissionDenied}"
  "create_verdict F ls p = KAlreadyExists \<longleftrightarrow> (\<exists>f. lookup F ls p = Inr f \<and> is_dir f)"
  "create_verdict F ls p = KNoSuchFileOrDirectory \<longleftrightarrow> missing F ls p \<and> missing_parent F ls p"
  by (auto simp: create_verdict_def missing_def split: sum.splits)

lemma rename_verdict_kinds:
  "rename_verdict F ls p q \<in> {KNoSuchFileOrDirectory, KPermissionDenied}"
  "rename_verdict F ls p q = KNoSuchFileOrDirectory \<longleftrightarrow> missing F ls p \<or> is_ok (lookup F ls p) \<and> missing_parent F ls q"
  by (auto simp: rename_verdict_def missing_def split: sum.splits)

lemma remove_dir_verdict_kinds:
  "remove_dir_verdict F ls p \<in> {KBadFile, KDirectoryNotEmpty, KNoSuchFileOrDirectory, KPermissionDenied}"
  "remove_dir_verdict F ls p = KBadFile \<longleftrightarrow> (\<exists>f. lookup F ls p = Inr f \<and> \<not> is_dir f)"
  "remove_dir_verdict F ls p = KDirectoryNotEmpty \<longrightarrow> (\<exists>g gs. ls p = Inr (g # gs))"
  "remove_dir_verdict F ls p = KNoSuchFileOrDirectory \<longleftrightarrow> missing F ls p"
  by (auto simp: remove_dir_verdict_def missing_def directory_def settled_def neq_Nil_conv split: sum.splits if_splits)

text \<open>The answers of the operations whose command was refused, leaving the client in the state \<open>t\<close>.\<close>

lemma refused_commands:
  assumes "server_stable F P ls" "ensure_contract (lib_ensure F)" "P t" "wire_path p" "is_creation_refusal err"
  shows "with_stream (\<lambda>c. recorded (command (\<lambda>h. lib_mkdir F h p) c)) s = Some (Inr (Inl err), t) \<Longrightarrow>
      \<exists>u. create_dir F p mode s = Some (Inl (with_source (create_dir_verdict F ls p) (DynFtp err)), u)"
    and "with_stream (start_upload (\<lambda>h. lib_put F h p)) s = Some (Inr (Inl err), t) \<Longrightarrow>
      \<exists>u. create_file F p wopts s = Some (Inl (with_source (create_verdict F ls p) (DynFtp err)), u)"
    and "with_stream (start_upload (\<lambda>h. lib_append F h p)) s = Some (Inr (Inl err), t) \<Longrightarrow>
      \<exists>u. append_file F p wopts s = Some (Inl (with_source (create_verdict F ls p) (DynFtp err)), u)"
    and "with_stream (\<lambda>c. recorded (command (\<lambda>h. lib_rename F h p q) c)) s = Some (Inr (Inl err), t) \<Longrightarrow>
      wire_path q \<Longrightarrow> \<exists>u. rename F p q s = Some (Inl (with_source (rename_verdict F ls p q) (DynFtp err)), u)"
    and "with_stream (\<lambda>c. recorded (command (\<lambda>h. lib_rmdir F h p) c)) s = Some (Inr (Inl err), t) \<Longrightarrow>
      is_file_unavailable err \<Longrightarrow>
      \<exists>u. remove_dir F p s = Some (Inl (with_source (remove_dir_verdict F ls p) (DynFtp err)), u)"
proof -
  have r: "wire_path x \<Longrightarrow> remote_path (lib_ensure F) x = Inr x" for x
    using remote_path_contract(1) [OF assms(2)] by simp
  have "record_ftp_error err t = Some ((), t)"
    using creation_refusal_no_reconnect [OF assms(5)] by (simp add: record_ftp_error_def)
  note run = command_shapes [OF r [OF assms(4)]] run_attempt run_seq this
  note v = verdicts_stable [OF assms(1-4)]
  show "\<exists>u. create_dir F p mode s = Some (Inl (with_source (create_dir_verdict F ls p) (DynFtp err)), u)"
    if "with_stream (\<lambda>c. recorded (command (\<lambda>h. lib_mkdir F h p) c)) s = Some (Inr (Inl err), t)"
    using that v(3) [OF assms(5)] assms(5) by (auto simp: run)
  show "\<exists>u. create_file F p wopts s = Some (Inl (with_source (create_verdict F ls p) (DynFtp err)), u)"
    if "with_stream (start_upload (\<lambda>h. lib_put F h p)) s = Some (Inr (Inl err), t)"
    using that v(2) [OF assms(5)] by (auto simp: run)
  show "\<exists>u. append_file F p wopts s = Some (Inl (with_source (create_verdict F ls p) (DynFtp err)), u)"
    if "with_stream (start_upload (\<lambda>h. lib_append F h p)) s = Some (Inr (Inl err), t)"
    using that v(2) [OF assms(5)] by (auto simp: run)
  show "\<exists>u. rename F p q s = Some (Inl (with_source (rename_verdict F ls p q) (DynFtp err)), u)"
    if "with_stream (\<lambda>c. recorded (command (\<lambda>h. lib_rename F h p q) c)) s = Some (Inr (Inl err), t)" "wire_path q"
    using that v(5) [OF assms(5) that(2)] by (auto simp: run r)
  show "\<exists>u. remove_dir F p s = Some (Inl (with_source (remove_dir_verdict F ls p) (DynFtp err)), u)"
    if "with_stream (\<lambda>c. recorded (command (\<lambda>h. lib_rmdir F h p) c)) s = Some (Inr (Inl err), t)" "is_file_unavailable err"
    using that v(4) [OF that(2)] by (auto simp: run)
qed

lemma missing_absent:
  assumes "file_tree present" "complete_listings ls present" "candid_listings ls" "missing F ls p"
  shows "\<not> present p"
  using assms(4) lookup_absence [OF assms(1-3)] by (auto simp: missing_def split: sum.splits)

lemma exists_stable:
  assumes "server_stable F P ls" "ensure_contract (lib_ensure F)" "P s" "wire_path path"
  shows "\<exists>r t. exists F path s = Some (r, t) \<and> P t
      \<and> (r = Inr False \<longleftrightarrow> missing F ls path) \<and> (r = Inr True \<longleftrightarrow> is_ok (lookup F ls path))"
proof -
  from sync_prober.look_stable [OF assms] obtain t where
    t: "stat F path s = Some (lookup F ls path, t)" "P t" by blast
  then show ?thesis
    by (cases "lookup F ls path") (auto simp: exists_def run_seq missing_def)
qed

lemma absence_outcomes:
  assumes "server_stable F P ls" "ensure_contract (lib_ensure F)" "P s" "wire_path path"
    and "file_tree present" "complete_listings ls present" "candid_listings ls"
  shows "(\<forall>e t. stat F path s = Some (Inl e, t) \<longrightarrow> kind e = KNoSuchFileOrDirectory \<longrightarrow> \<not> present path)
    \<and> (\<forall>t. exists F path s = Some (Inr False, t) \<longrightarrow> \<not> present path)
    \<and> (\<forall>f t. stat F path s = Some (Inr f, t) \<longrightarrow>
         path_eq path ''/'' \<and> f = root_file path
         \<or> (\<exists>q entries. parent path = Some q \<and> ls q = Inr entries \<and> f \<in> set entries
              \<and> path_eq (f_path f) path))"
proof -
  from sync_prober.look_stable [OF assms(1-4)] obtain t where
    t: "stat F path s = Some (lookup F ls path, t)" by blast
  from exists_stable [OF assms(1-4)] obtain r u where
    r: "exists F path s = Some (r, u)" "r = Inr False \<longleftrightarrow> missing F ls path" by blast
  have root: "parent path = None \<longrightarrow> path_eq path ''/''"
    using path_eq_root_iff [OF wire_path_absolute [OF assms(4)]] by simp
  show ?thesis
    using t r lookup_absence [OF assms(5-7), of F path] missing_absent [OF assms(5-7), of F path]
      lookup_presence [of F ls path] root by auto
qed

lemma missing_parent_absent:
  assumes "file_tree present" "complete_listings ls present" "candid_listings ls" "missing_parent F ls p"
  shows "\<exists>q. parent p = Some q \<and> \<not> present q"
  using assms(4) missing_absent [OF assms(1-3)] by (auto simp: missing_parent_def split: option.splits)

section \<open>The range of a download\<close>

text \<open>
  What RFC 3659 and the library promise of restart markers: an accepted \<open>REST\<close> sets the marker,
  a refused one leaves it, and a download delivers the file from the marker on.
\<close>

definition restart_contract ::
  "('s, 'c, 't) ftp_lib \<Rightarrow> 'c \<Rightarrow> string \<Rightarrow> ('s \<Rightarrow> nat) \<Rightarrow> string \<Rightarrow> bool" where
  "restart_contract F h remote marker content \<longleftrightarrow>
     (\<forall>n w w'. lib_resume_transfer F h n w = (Inr (), w') \<longrightarrow> marker w' = n)
     \<and> (\<forall>n e w w'. lib_resume_transfer F h n w = (Inl e, w') \<longrightarrow> marker w' = marker w)
     \<and> (\<forall>w tr b w'. lib_retr F h remote w = ((Inr tr, b), w') \<longrightarrow>
          delivered (tr_events tr) = drop (marker w) content)"

lemma restart_contract_resume:
  assumes "restart_contract F h remote marker content" "lib_resume_transfer F h n w = (r, w')"
  shows "marker w' = (case r of Inr _ \<Rightarrow> n | Inl _ \<Rightarrow> marker w)"
  using assms by (cases r) (auto simp: restart_contract_def)

lemma request_offset_marker:
  assumes "restart_contract F (ctl_handle c) remote marker content" "marker (world s) = 0"
    and "request_offset F c offset s = Some (Inr resumed, t)"
  shows "marker (world t) = (if resumed then unat offset else 0)"
proof (cases "usize_try_from F offset")
  case None
  with assms show ?thesis by (simp add: request_offset_def)
next
  case (Some n)
  then have n: "n = unat offset" by (auto simp: usize_try_from_def split: if_splits)
  obtain r w where r: "lib_resume_transfer F (ctl_handle c) n (world s) = (r, w)" by force
  note m = restart_contract_resume [OF assms(1) r]
  show ?thesis
  proof (cases r)
    case (Inr u)
    with Some r m n assms(3) show ?thesis by (auto simp: request_offset_def command_def run_seq run_on_world)
  next
    case (Inl e)
    with Some r m assms(2,3) show ?thesis
      by (cases e) (auto simp: request_offset_def command_def run_seq run_on_world split: if_splits)
  qed
qed

lemma data_command_run:
  "data_command op c s = Some (r, t) \<Longrightarrow> \<exists>b. op (ctl_handle c) (world s) = ((r, b), world t)"
  by (auto simp: data_command_def run_seq run_on_world mark_connection_unusable_def split: prod.splits if_splits)

text \<open>A download that started delivers from the offset, or from the start when not resumed.\<close>

lemma start_download_delivers:
  assumes "restart_contract F (ctl_handle c) remote marker content" "marker (world s) = 0"
    and "start_download F remote offset c s = Some (Inr (Inr (transfer, resumed)), t)"
  shows "delivered (tr_events transfer) = (if resumed then drop (unat offset) content else content)"
    and "resumed \<longrightarrow> offset > 0"
proof -
  have "delivered (tr_events transfer) = (if resumed then drop (unat offset) content else content)
    \<and> (resumed \<longrightarrow> offset > 0)"
    using assms(3) unfolding start_download_def
  proof (cases rule: attempt_SomeE)
    case (val res0 u)
    have m: "marker (world u) = (if res0 then unat offset else 0)" and o: "res0 \<longrightarrow> offset > 0"
      using val(1) request_offset_marker [OF assms(1,2), of offset res0 u] assms(2)
      by (auto split: if_splits)
    from val(2) obtain result v where d: "data_command (\<lambda>h. lib_retr F h remote) c u = Some (result, v)"
      and tail: "attempt (retry_from_start F c remote res0 result) (\<lambda>(resumed, result).
        seq (on_error record_ftp_error result) (\<lambda>_.
        case result of
          Inl err \<Rightarrow> ok (Inl err)
        | Inr transfer \<Rightarrow> seq start_transfer (\<lambda>_. ok (Inr (transfer, resumed))))) v
        = Some (Inr (Inr (transfer, resumed)), t)"
      by (auto simp: seq_def split: option.splits)
    have retr: "delivered (tr_events tr) = drop (marker (world x)) content"
      if "data_command (\<lambda>h. lib_retr F h remote) c x = Some (Inr tr, y)" for tr x y
      using data_command_run [OF that] assms(1) unfolding restart_contract_def by blast
    from tail show ?thesis
    proof (cases rule: attempt_SomeE)
      case (val p x)
      obtain res1 result1 where p: "p = (res1, result1)" by (cases p)
      from val(2) p have r1: "result1 = Inr transfer" "res1 = resumed"
        by (auto simp: seq_def on_error_def record_ftp_error_def mark_connection_unusable_def
            split: sum.splits option.splits if_splits)
      show ?thesis
      proof (cases result)
        case (Inr tr)
        with val(1) p r1 have "tr = transfer" "resumed = res0" by (auto simp: retry_from_start_def)
        with Inr d retr [of u tr v] m o show ?thesis by auto
      next
        case (Inl e)
        with val(1) p r1 have rs: "res0" by (auto simp: retry_from_start_def split: if_splits)
        obtain r w where r: "lib_resume_transfer F (ctl_handle c) 0 (world v) = (r, w)" by force
        from val(1) p r1 Inl rs r obtain z where z: "r = Inr z" "resumed = False"
          "data_command (\<lambda>h. lib_retr F h remote) c (v\<lparr>world := w\<rparr>) = Some (Inr transfer, x)"
          by (cases r) (auto simp: retry_from_start_def command_def run_seq run_on_world
              mark_connection_unusable_def split: option.splits)
        from restart_contract_resume [OF assms(1) r] z retr [OF z(3)] show ?thesis by simp
      qed
    qed simp
  qed simp
  then show "delivered (tr_events transfer) = (if resumed then drop (unat offset) content else content)"
    "resumed \<longrightarrow> offset > 0" by simp_all
qed

lemma with_stream_Inr:
  assumes "with_stream f s = Some (Inr x, t)"
  obtains c u where "fs_stream s = Some c" "f c (s\<lparr>fs_locked := True\<rparr>) = Some (Inr x, u)"
proof -
  have i: "idle s"
  proof (rule ccontr)
    assume "\<not> idle s"
    with assms show False by (simp add: with_stream_def deadlock)
  qed
  have n: "refusal s = None"
    using with_stream_refused [OF i, of _ f] assms by (cases "refusal s") auto
  then obtain c where c: "fs_stream s = Some c" using refusal_None by blast
  with with_stream_admitted [OF i n c, of f] assms that show ?thesis
    by (auto split: option.splits)
qed

lemma open_left:
  assumes "fs_stream s = Some c" "restart_contract F (ctl_handle c) path marker content"
    and "marker (world s) = 0" "open_file F path opts s = Some (Inr rd, t)"
  shows "stream_left rd = within (ro_length opts) (drop (unat (offset_of opts)) content)"
proof -
  from assms(4) obtain remote where r: "remote_path (lib_ensure F) path = Inr remote"
    by (cases "remote_path (lib_ensure F) path") (auto simp: open_file_def)
  then have rp: "remote = path" by (simp add: remote_path_Inr_iff)
  from assms(4) obtain q u where q: "with_stream (start_download F remote (offset_of opts)) s = Some (Inr q, u)"
    and tail: "(case q of
       Inl err \<Rightarrow> seq (classify_file_refusal F path err) raise
     | Inr (transfer, resumed) \<Rightarrow>
         if offset_of opts > 0 \<and> \<not> resumed then
           seq (skip_prefix F (new_read_stream transfer (ro_length opts)) (offset_of opts)) (\<lambda>(r, reader).
           case r of
             Inl skip \<Rightarrow> seq (finish_after_skip F reader skip) raise
           | Inr _ \<Rightarrow> ok reader)
         else ok (new_read_stream transfer (ro_length opts))) u = Some (Inr rd, t)"
    by (auto simp: open_file_def r Let_def elim!: attempt_SomeE)
  from tail obtain transfer resumed where qp: "q = Inr (transfer, resumed)"
    by (cases q) (auto simp: seq_def split: option.splits)
  from q obtain c' v where c': "fs_stream s = Some c'"
    "start_download F remote (offset_of opts) c' (s\<lparr>fs_locked := True\<rparr>) = Some (Inr q, v)"
    by (rule with_stream_Inr)
  with assms(1) have cc: "c' = c" by simp
  have d: "delivered (tr_events transfer) = (if resumed then drop (unat (offset_of opts)) content else content)"
    "resumed \<longrightarrow> offset_of opts > 0"
    using start_download_delivers [of F c remote marker content "s\<lparr>fs_locked := True\<rparr>" "offset_of opts"
        transfer resumed v] assms(2,3) c'(2) qp cc rp by simp_all
  define rd0 where "rd0 = new_read_stream transfer (ro_length opts)"
  have i: "rd_inner rd0 = Some transfer" "rd_remaining rd0 = ro_length opts"
    by (simp_all add: rd0_def new_read_stream_def)
  show ?thesis
  proof (cases "offset_of opts > 0 \<and> \<not> resumed")
    case True
    with tail qp obtain y where sk: "skip_prefix F rd0 (offset_of opts) u = Some ((Inr (), rd), y)"
      by (auto simp: rd0_def seq_def split: option.splits sum.splits)
    from i(1) sk obtain rest at_eof where
      "rd = rd0\<lparr>rd_inner := Some (transfer\<lparr>tr_events := rest\<rparr>), rd_at_eof := at_eof\<rparr>"
      "delivered rest = drop (unat (offset_of opts)) (delivered (tr_events transfer))"
      by (rule skip_prefix_left)
    with d True i show ?thesis by (simp add: stream_left_def)
  next
    case False
    with tail qp have "rd = rd0" by (auto simp: rd0_def)
    moreover have "\<not> resumed \<Longrightarrow> offset_of opts = 0" using False by (simp add: word_gt_0)
    ultimately show ?thesis using d i by (auto simp: stream_left_def)
  qed
qed

lemma open_unfinished:
  assumes "open_file F path opts s = Some (Inr rd, t)"
  shows "rd_inner rd \<noteq> None"
proof -
  have "idle s"
  proof (rule ccontr)
    assume "\<not> idle s"
    with assms show False
      by (cases "remote_path (lib_ensure F) path") (simp_all add: open_file_def with_stream_def deadlock run_attempt Let_def)
  qed
  from download_operation [OF this, of F path opts] assms show ?thesis by auto
qed

end
