(* ===== verification/Demo.thy ===== *)
theory Demo
  imports Stream_Facts Listing_Facts
begin

text \<open>
  A small server for the witnesses: two directories and one file, \<open>REST\<close> refused, every command
  logged in the world. It makes the parameters concrete; no property rests on it.
\<close>

definition demo_row :: "string \<Rightarrow> nat + ftp_file" where
  "demo_row line =
     (let ws = fields line in
      if length ws \<ge> 9 then
        Inr \<lparr> ff_name = ws ! 8, ff_is_symlink = False, ff_is_directory = (hd line = CHR ''d''),
              ff_size = 0, ff_modified = 0, ff_gid = None, ff_uid = None, ff_symlink = None,
              ff_can_read = (\<lambda>_. True), ff_can_write = (\<lambda>q. q = Owner), ff_can_execute = (\<lambda>_. False) \<rparr>
      else Inl 0)"

definition demo_file_row :: string where
  "demo_file_row = ''-rw-r--r-- 1 0 0 11 Nov 5 2024 a.txt''"

definition demo_listing :: "string \<Rightarrow> string list option" where
  "demo_listing p =
     (if p = ''/'' then Some [''drwxr-xr-x 1 0 0 0 Nov 5 2024 pub'']
      else if p = ''/pub'' then Some [demo_file_row, ''drwxr-xr-x 1 0 0 0 Nov 5 2024 sub'']
      else if p = ''/pub/sub'' then Some []
      else if p = ''/pub/a.txt'' then Some [demo_file_row]
      else None)"

definition demo_refusal :: FtpError where
  "demo_refusal = UnexpectedResponse (Response FileUnavailable ''no'')"

definition demo_cmd :: "bool \<Rightarrow> string \<Rightarrow> string list \<Rightarrow> unit outcome \<times> string list" where
  "demo_cmd fine cmd w = (if fine then Inr () else Inl demo_refusal, cmd # w)"

definition demo_lib :: "(string list, nat, nat) ftp_lib" where
  "demo_lib = \<lparr>
     lib_ensure = (\<lambda>p. if is_absolute p then Inr () else Inl (new_error KInvalidPath)),
     lib_rows = \<lparr> parse_posix = demo_row, parse_dos = (\<lambda>_. Inl 1) \<rparr>,
     lib_from_io = (\<lambda>e. with_source KConnectionError (DynOther 7 None)),
     lib_entry_name = (\<lambda>f. case file_name (f_path f) of None \<Rightarrow> [] | Some n \<Rightarrow> n),
     lib_status_code = (\<lambda>_. 200),
     lib_usize_max = 18446744073709551615,
     lib_connect = (\<lambda>addr w. (if addr = ''host:21'' then Inr 0 else Inl (InvalidAddress 0), addr # w)),
     lib_set_builder = (\<lambda>c b w. w),
     lib_set_mode = (\<lambda>c m w. w),
     lib_tls_build = (\<lambda>a b. Inr 0),
     lib_tls_connector = (\<lambda>a b. 0),
     lib_into_secure = (\<lambda>c k h w. (Inr c, ''AUTH TLS'' # w)),
     lib_login = (\<lambda>c u p. demo_cmd (u = ''anonymous'') ''USER''),
     lib_transfer_type = (\<lambda>c t. demo_cmd True ''TYPE I''),
     lib_welcome = (\<lambda>c w. Some ''hi''),
     lib_quit = (\<lambda>c. demo_cmd True ''QUIT''),
     lib_close = (\<lambda>c w. ''close'' # w),
     lib_mkdir = (\<lambda>c p. demo_cmd (p = ''/pub/new'') (''MKD '' @ p)),
     lib_rm = (\<lambda>c p. demo_cmd (p = ''/pub/a.txt'') (''DELE '' @ p)),
     lib_rmdir = (\<lambda>c p. demo_cmd (p = ''/pub/sub'') (''RMD '' @ p)),
     lib_rename = (\<lambda>c p q. demo_cmd (p = ''/pub/a.txt'') (''RNFR '' @ p)),
     lib_site = (\<lambda>c cmd w. (Inr (Response NotAvailable ''done''), cmd # w)),
     lib_resume_transfer = (\<lambda>c n w.
       (if n = 0 then Inr () else Inl (UnexpectedResponse (Response NotImplemented ''no'')), ''REST'' # w)),
     lib_retr = (\<lambda>c p w.
       ((if p = ''/pub/a.txt''
         then Inr \<lparr> tr_handle = 0, tr_events =
                [Chunk ''hello '', Chunk ''world''] \<rparr>
         else Inl demo_refusal, False), (''RETR '' @ p) # w)),
     lib_put = (\<lambda>c p w. ((if p = ''/pub/b.txt'' then Inr 1 else Inl demo_refusal, False), (''STOR '' @ p) # w)),
     lib_append = (\<lambda>c p w. ((if p = ''/pub/b.txt'' then Inr 1 else Inl demo_refusal, False), (''APPE '' @ p) # w)),
     lib_custom = (\<lambda>c cmd statuses w.
       ((case Option.bind (strip_prefix ''LIST '' cmd) demo_listing of
           Some rows \<Rightarrow> Inr (Response AboutToSend [],
             \<lparr> tr_handle = 2, tr_events = [Chunk (encode_listing rows)] \<rparr>)
         | None \<Rightarrow> Inl demo_refusal, False), cmd # w)),
     lib_write = (\<lambda>t buf w. (Inr (length buf), buf # w)),
     lib_flush = (\<lambda>t w. (Inr (), w)),
     lib_shutdown = (\<lambda>t w. (Inr (), w)),
     lib_finish_read = (\<lambda>tr w. (Inr (), ''226'' # w)),
     lib_finish_write = (\<lambda>t w. (Inr (), ''226'' # w)),
     lib_abandon_read = (\<lambda>tr w. w),
     lib_abandon_write = (\<lambda>t w. w),
     lib_copy = io_copy,
     lib_read_to_end = read_to_end \<rparr>"

end
