(* ===== verification/Sync_Demo.thy ===== *)
theory Sync_Demo
  imports Sync_Laws Demo
begin

text \<open>
  The demonstration server seen through the blocking client: its listings do not change, so the
  hypotheses of the lookup properties hold of it. Used by witnesses only.
\<close>

definition demo_client :: "(string list, nat) ftp_fs" where
  "demo_client = (new ''host'' 21 [])\<lparr>fs_stream := Some \<lparr> ctl_handle = 0, ctl_hooked = False \<rparr>\<rparr>"

definition demo_state :: "(string list, nat) ftp_fs \<Rightarrow> bool" where
  "demo_state s \<longleftrightarrow> (\<exists>w. s = demo_client\<lparr>world := w\<rparr>)"

lemma demo_client_state: "demo_state demo_client"
proof -
  have "demo_client = demo_client\<lparr>world := []\<rparr>" by (simp add: demo_client_def new_def)
  then show ?thesis unfolding demo_state_def by blast
qed

lemma demo_client_idle: "idle demo_client" "refusal demo_client = None"
  by (simp_all add: demo_client_def new_def idle_def refusal_def)

definition demo_ls :: listing where
  "demo_ls q =
     (case demo_listing q of
        None \<Rightarrow> Inl (ftp_error demo_refusal)
      | Some rows \<Rightarrow>
          (case decode_list_bytes (encode_listing rows) of
             Inl e \<Rightarrow> Inl (ftp_error e)
           | Inr lines \<Rightarrow> the (parse_list_lines (lib_rows demo_lib) q lines)))"

lemma strip_prefix_append [simp]: "strip_prefix p (p @ q) = Some q"
  by (induction p) simp_all

lemma read_to_end_chunk: "read_to_end [Chunk bs] = (Inr bs, [])"
  by (simp add: read_to_end_all)

lemma demo_contract: "ensure_contract (lib_ensure demo_lib)"
  by (simp add: ensure_contract_def demo_lib_def)

lemma demo_usize: "0 < lib_usize_max demo_lib"
  by (simp add: demo_lib_def)

lemma demo_read_list:
  "read_list_bytes demo_lib \<lparr> ctl_handle = 0, ctl_hooked = False \<rparr> q s =
     (case demo_listing q of
        None \<Rightarrow> Some ((Inl (ftp_error demo_refusal), False), s\<lparr>world := (''LIST '' @ q) # world s\<rparr>)
      | Some rows \<Rightarrow> Some ((Inr (encode_listing rows), False),
          s\<lparr>world := ''226'' # (''LIST '' @ q) # world s\<rparr>))"
proof -
  have l: "lib_custom demo_lib h (''LIST '' @ q) st w =
     ((case demo_listing q of
           Some rows \<Rightarrow> Inr (Response AboutToSend [],
             \<lparr> tr_handle = 2, tr_events = [Chunk (encode_listing rows)] \<rparr>)
         | None \<Rightarrow> Inl demo_refusal, False), (''LIST '' @ q) # w)" for h st w
    using strip_prefix_append [of "''LIST ''" q] by (simp add: demo_lib_def)
  have f: "lib_finish_read demo_lib tr w = (Inr (), ''226'' # w)" for tr w
    by (simp add: demo_lib_def)
  have r: "\<not> transfer_setup_requires_reconnect demo_refusal" by (simp add: demo_refusal_def)
  show ?thesis
    using r by (auto simp: read_list_bytes_def data_command_def run_seq run_on_world l l [simplified] f read_to_end_chunk
        split: option.splits)
qed

lemma demo_raw:
  assumes "demo_state s"
  shows "\<exists>t. list_dir_raw demo_lib q q s = Some (demo_ls q, t) \<and> demo_state t"
proof -
  from assms obtain w where s: "s = demo_client\<lparr>world := w\<rparr>" by (auto simp: demo_state_def)
  have i: "idle s" "refusal s = None" "fs_stream s = Some \<lparr> ctl_handle = 0, ctl_hooked = False \<rparr>"
    by (simp_all add: s demo_client_def new_def idle_def refusal_def)
  define f :: "nat control \<Rightarrow> ((string list, nat) ftp_fs, remote_error + string) act"
    where "f = (\<lambda>c. seq (read_list_bytes demo_lib c q) (\<lambda>(result, requires_reconnect).
       seq (if requires_reconnect then mark_connection_unusable else ret ()) (\<lambda>_. ret result)))"
  have fr: "f \<lparr> ctl_handle = 0, ctl_hooked = False \<rparr> u =
     (case demo_listing q of
        None \<Rightarrow> Some (Inl (ftp_error demo_refusal), u\<lparr>world := (''LIST '' @ q) # world u\<rparr>)
      | Some rows \<Rightarrow> Some (Inr (encode_listing rows), u\<lparr>world := ''226'' # (''LIST '' @ q) # world u\<rparr>))" for u
    by (simp add: f_def run_seq demo_read_list split: option.splits)
  have it: "idle t" if "f \<lparr> ctl_handle = 0, ctl_hooked = False \<rparr> (taken s) = Some (r, t)" for r t
    using that i(1) by (auto simp: fr idle_def taken_def split: option.splits)
  have w: "with_exclusive_stream f s = (case f \<lparr> ctl_handle = 0, ctl_hooked = False \<rparr> (taken s) of None \<Rightarrow> None
      | Some (r, t) \<Rightarrow> Some (r, put_back \<lparr> ctl_handle = 0, ctl_hooked = False \<rparr> (noted r t)))"
    by (rule with_exclusive_admitted [OF i]) (rule it)
  have p: "put_back \<lparr> ctl_handle = 0, ctl_hooked = False \<rparr> ((taken s)\<lparr>world := x\<rparr>) = demo_client\<lparr>world := x\<rparr>" for x
    by (simp add: s put_back_def taken_def demo_client_def new_def)
  have n: "noted (Inl (ftp_error demo_refusal) :: remote_error + string) t = t"
    for t :: "(string list, nat) ftp_fs"
    by (simp add: noted_def demo_refusal_def)
  have pl: "parse_list_lines (lib_rows demo_lib) q lines = Some (the (parse_list_lines (lib_rows demo_lib) q lines))"
    if "decode_list_bytes b = Inr lines" for b lines
    using parse_lines_no_panic [OF decoded_lines_valid [OF that], of "lib_rows demo_lib" q] by auto
  have raw: "list_dir_raw demo_lib q q s = attempt (with_exclusive_stream f) (\<lambda>bytes.
      case decode_list_bytes bytes of Inl e \<Rightarrow> raise (ftp_error e)
      | Inr lines \<Rightarrow> expect (parse_list_lines (lib_rows demo_lib) q lines)) s"
    by (simp add: list_dir_raw_def f_def)
  show ?thesis
  proof (cases "demo_listing q")
    case None
    then have "with_exclusive_stream f s = Some (Inl (ftp_error demo_refusal),
        demo_client\<lparr>world := (''LIST '' @ q) # world (taken s)\<rparr>)"
      by (simp only: w fr option.case prod.case n p)
    then show ?thesis using None unfolding raw demo_ls_def demo_state_def by (auto simp: attempt_Inl)
  next
    case (Some rows)
    then have e: "with_exclusive_stream f s = Some (Inr (encode_listing rows),
        demo_client\<lparr>world := ''226'' # (''LIST '' @ q) # world (taken s)\<rparr>)"
      by (simp only: w fr option.case prod.case noted_def sum.case p)
    show ?thesis
    proof (cases "decode_list_bytes (encode_listing rows)")
      case (Inl d)
      with Some show ?thesis unfolding raw demo_ls_def demo_state_def by (auto simp: run_attempt e)
    next
      case (Inr lines)
      obtain v where v: "parse_list_lines (lib_rows demo_lib) q lines = Some v" using pl [OF Inr] by blast
      with Some Inr show ?thesis unfolding raw demo_ls_def demo_state_def by (auto simp: run_attempt e)
    qed
  qed
qed

lemma demo_stable: "server_stable demo_lib demo_state demo_ls"
  unfolding stable_def
proof (intro conjI allI impI)
  fix s q assume "demo_state s"
  then show "\<exists>t. list_dir_raw demo_lib q q s = Some (demo_ls q, t) \<and> demo_state t" by (rule demo_raw)
next
  fix s assume "demo_state s"
  moreover from this have "idle s" "refusal s = None" "\<exists>c. fs_stream s = Some c"
    by (auto simp: demo_state_def demo_client_def new_def idle_def refusal_def)
  ultimately show "\<exists>t. with_stream (\<lambda>_. ok ()) s = Some (Inr (), t) \<and> demo_state t"
    by (auto simp: with_stream_admitted noted_def)
qed

text \<open>The tree those listings show.\<close>

definition demo_present :: "string \<Rightarrow> bool" where
  "demo_present p \<longleftrightarrow> components p \<in> {[RootDir], [RootDir, Normal ''pub''],
     [RootDir, Normal ''pub'', Normal ''a.txt''], [RootDir, Normal ''pub'', Normal ''sub'']}"

lemma demo_present_absolute: "demo_present p \<Longrightarrow> is_absolute p"
proof (cases p)
  case (Cons c cs)
  assume d: "demo_present p"
  show ?thesis
  proof (rule ccontr)
    assume "\<not> is_absolute p"
    with Cons have "c \<noteq> CHR ''/''" by (auto simp: is_absolute_iff)
    then have "RootDir \<notin> set (components p)"
      using body_components_no_root Cons by (auto simp: Let_def)
    with d show False by (auto simp: demo_present_def)
  qed
qed (simp add: demo_present_def)

lemma demo_tree: "file_tree demo_present"
  unfolding file_tree_def
proof (intro conjI allI impI)
  fix p q assume p: "parent p = Some q" "demo_present p"
  note abs = demo_present_absolute [OF p(2)]
  have c: "components q = butlast (components p)" using parent_absolute [OF abs p(1)] by simp
  have "components p \<noteq> [RootDir]" using parent_None_iff [OF abs] p(1) by simp
  with p(2) c show "demo_present q" unfolding demo_present_def by auto
qed (simp add: demo_present_def path_eq_def)

lemma demo_candid: "candid_listings demo_ls"
  unfolding candid_listings_def
proof
  fix q
  show "candid (demo_ls q)"
  proof (cases "demo_listing q")
    case (Some rows)
    then have "demo_ls q = (case decode_list_bytes (encode_listing rows) of
             Inl e \<Rightarrow> Inl (ftp_error e)
           | Inr lines \<Rightarrow> the (parse_list_lines (lib_rows demo_lib) q lines))"
      by (simp add: demo_ls_def)
    moreover have "candid (the (parse_list_lines (lib_rows demo_lib) q lines))"
      if d: "decode_list_bytes (encode_listing rows) = Inr lines" for lines
    proof -
      obtain v where v: "parse_list_lines (lib_rows demo_lib) q lines = Some v"
        using parse_lines_no_panic [OF decoded_lines_valid [OF d], of "lib_rows demo_lib" q] by auto
      with list_error_kind [of "lib_rows demo_lib" q lines] show ?thesis by (cases v) auto
    qed
    ultimately show ?thesis by (cases "decode_list_bytes (encode_listing rows)") simp_all
  qed (simp add: demo_ls_def)
qed

lemma demo_ls_paths:
  "map_sum id (map f_path) (demo_ls ''/'') = Inr [''/pub'']"
  "map_sum id (map f_path) (demo_ls ''/pub'') = Inr [''/pub/a.txt'', ''/pub/sub'']"
  "map_sum id (map f_path) (demo_ls ''/pub/sub'') = Inr []"
  by code_simp+

lemma demo_complete: "complete_listings demo_ls demo_present"
  unfolding complete_listings_def
proof (intro allI impI)
  fix q entries p
  assume l: "demo_ls q = Inr entries" and p: "parent p = Some q" "demo_present p"
  have c: "components q = butlast (components p)" "components p \<noteq> [RootDir]"
    using parent_absolute [OF demo_present_absolute [OF p(2)] p(1)]
      parent_None_iff [OF demo_present_absolute [OF p(2)]] p(1) by auto
  have q: "q \<in> {''/'', ''/pub'', ''/pub/sub'', ''/pub/a.txt''}"
    using l by (auto simp: demo_ls_def demo_listing_def split: if_splits)
  have cs: "components ''/pub'' = [RootDir, Normal ''pub'']"
    "components ''/pub/a.txt'' = [RootDir, Normal ''pub'', Normal ''a.txt'']"
    "components ''/pub/sub'' = [RootDir, Normal ''pub'', Normal ''sub'']" by code_simp+
  have e: "\<exists>f \<in> set entries. f_path f = x" if "map_sum id (map f_path) (demo_ls q) = Inr xs" "x \<in> set xs" for x xs
    using that l by auto
  from p(2) c have "components p \<in> {[RootDir, Normal ''pub''],
     [RootDir, Normal ''pub'', Normal ''a.txt''], [RootDir, Normal ''pub'', Normal ''sub'']}"
    by (auto simp: demo_present_def)
  with q c(1) cs consider "q = ''/''" "components p = components ''/pub''"
    | "q = ''/pub''" "components p = components ''/pub/a.txt''"
    | "q = ''/pub''" "components p = components ''/pub/sub''" by auto
  then show "\<exists>f \<in> set entries. path_eq (f_path f) p"
  proof cases
    case 1
    with e [of "[''/pub'']" "''/pub''"] demo_ls_paths
    obtain f where "f \<in> set entries" "f_path f = ''/pub''" by auto
    with 1 show ?thesis unfolding path_eq_def by metis
  next
    case 2
    with e [of "[''/pub/a.txt'', ''/pub/sub'']" "''/pub/a.txt''"] demo_ls_paths
    obtain f where "f \<in> set entries" "f_path f = ''/pub/a.txt''" by auto
    with 2 show ?thesis unfolding path_eq_def by metis
  next
    case 3
    with e [of "[''/pub/a.txt'', ''/pub/sub'']" "''/pub/sub''"] demo_ls_paths
    obtain f where "f \<in> set entries" "f_path f = ''/pub/sub''" by auto
    with 3 show ?thesis unfolding path_eq_def by metis
  qed
qed

text \<open>A server that refuses \<open>MKD\<close> with 553.\<close>

definition bad_name :: FtpError where
  "bad_name = UnexpectedResponse (Response BadFilename ''553 no'')"

definition refusing_lib :: "(string list, nat, nat) ftp_lib" where
  "refusing_lib = demo_lib\<lparr>lib_mkdir := (\<lambda>c p w. (Inl bad_name, (''MKD '' @ p) # w))\<rparr>"

lemma refusing_stable: "server_stable refusing_lib demo_state demo_ls"
proof -
  have "lib_custom refusing_lib = lib_custom demo_lib" "lib_finish_read refusing_lib = lib_finish_read demo_lib"
    "lib_rows refusing_lib = lib_rows demo_lib" by (simp_all add: refusing_lib_def)
  then have "list_dir_raw refusing_lib = list_dir_raw demo_lib"
    by (intro ext) (simp only: list_dir_raw_def read_list_bytes_def)
  with demo_stable show ?thesis by simp
qed

end
