(* ===== verification/Stream_Props.thy ===== *)
theory Stream_Props
  imports Demo
begin

text \<open>
  The properties of the blocking client's transfer streams: a ranged read gives exactly the
  range, the budget is never exceeded, and closing a transfer always releases the client.
\<close>

definition demo_download :: "nat transfer" where
  "demo_download = \<lparr> tr_handle = 0, tr_events =
     [Chunk ''hello '', ReadErr (IoError Interrupted None), Chunk ''world''] \<rparr>"

text \<open>
  A ranged download with the prefix skipped locally gives exactly the requested range. If
  skipping \<open>offset\<close> bytes succeeded, and reads with buffers of any sizes, interruptions retried,
  went on until a non-empty buffer received nothing, then the bytes received are the file's
  delivered bytes without the first \<open>offset\<close>, cut at \<open>len\<close>.
\<close>

theorem ranged_read_is_exact:
  assumes "0 < lib_usize_max F"
    and "skip_prefix F (new_read_stream tr len) offset s = Some ((Inr (), rd), s')"
    and "read_many (read_stream_read F) rd bufs = Some (out, None, mid)"
    and "read_stream_read F mid n = Some (Inr [], rd')" "0 < n"
  shows "out = within len (drop (unat offset) (delivered (tr_events tr)))"
proof -
  have i: "rd_inner (new_read_stream tr len) = Some tr" by (simp add: new_read_stream_def)
  from i assms(2) obtain rest at_eof where
    rd: "rd = (new_read_stream tr len)\<lparr>rd_inner := Some (tr\<lparr>tr_events := rest\<rparr>), rd_at_eof := at_eof\<rparr>"
      "delivered rest = drop (unat offset) (delivered (tr_events tr))"
    by (rule skip_prefix_left)
  have "unfinished F rd" using rd(1) assms(1) by (simp add: unfinished_def)
  from sync_reader.read_many_complete [OF this assms(3-5)] have "out = stream_left rd" .
  with rd show ?thesis by (simp add: stream_left_def new_read_stream_def)
qed

theorem ranged_read_is_exact_witness:
  "\<exists>rd mid rd'. skip_prefix demo_lib (new_read_stream demo_download (Some 4)) 5 () = Some ((Inr (), rd), ())
     \<and> read_many (read_stream_read demo_lib) rd [1, 2, 3, 4] = Some ('' wor'', None, mid)
     \<and> read_stream_read demo_lib mid 8 = Some (Inr [], rd')
     \<and> '' wor'' = within (Some 4) (drop (unat (5 :: 64 word)) (delivered (tr_events demo_download)))"
proof -
  define rd where "rd = fst (the (skip_prefix demo_lib (new_read_stream demo_download (Some 4)) 5 ()))"
  have s: "skip_prefix demo_lib (new_read_stream demo_download (Some 4)) 5 () = Some ((Inr (), snd rd), ())"
    unfolding rd_def by code_simp
  define r where "r = the (read_many (read_stream_read demo_lib) (snd rd) [1, 2, 3, 4])"
  have m: "read_many (read_stream_read demo_lib) (snd rd) [1, 2, 3, 4] = Some ('' wor'', None, snd (snd r))"
    unfolding r_def rd_def by code_simp
  define q where "q = the (read_stream_read demo_lib (snd (snd r)) 8)"
  have e: "read_stream_read demo_lib (snd (snd r)) 8 = Some (Inr [], snd q)"
    unfolding q_def r_def rd_def by code_simp
  have u: "0 < lib_usize_max demo_lib" by code_simp
  from ranged_read_is_exact [OF u s m e] s m e show ?thesis by auto
qed

text \<open>
  C22: Reading never panics and stays in its budget. Whatever the socket does (short reads,
  interruptions, lasting errors), any sequence of reads on an unfinished stream returns; what
  it received is a prefix of what the budget still allowed, so it is at most \<open>b\<close> bytes, and the
  stream is still there to be finished.
\<close>

theorem reads_stay_within_budget:
  assumes "rd_inner rd \<noteq> None" "0 < lib_usize_max F"
  shows "\<exists>out err rd'. read_many (read_stream_read F) rd bufs = Some (out, err, rd')
    \<and> rd_inner rd' \<noteq> None \<and> (\<exists>rest. stream_left rd = out @ rest)
    \<and> (\<forall>b. rd_remaining rd = Some b \<longrightarrow> length out \<le> unat b)"
proof -
  from assms have u: "unfinished F rd" by (simp add: unfinished_def)
  from sync_reader.read_many_total [OF u, of bufs] obtain out err rd' where
    m: "read_many (read_stream_read F) rd bufs = Some (out, err, rd')" "unfinished F rd'" by blast
  from sync_reader.read_many_prefix [OF u m(1)] obtain rest where l: "stream_left rd = out @ rest" by blast
  have "length out \<le> unat b" if "rd_remaining rd = Some b" for b
  proof -
    have "length (stream_left rd) \<le> unat b" using that by (cases "rd_inner rd") (simp_all add: stream_left_def)
    with l show ?thesis by simp
  qed
  with m l show ?thesis by (auto simp: unfinished_def)
qed

theorem reads_stay_within_budget_witness:
  "\<exists>out err rd'. read_many (read_stream_read demo_lib) (new_read_stream demo_download (Some 3)) [2, 9, 9]
     = Some (out, err, rd') \<and> length out \<le> 3"
proof -
  have "rd_inner (new_read_stream demo_download (Some 3)) \<noteq> None" "0 < lib_usize_max demo_lib"
    by (simp_all add: new_read_stream_def demo_lib_def)
  from reads_stay_within_budget [OF this, of "[2, 9, 9]"] show ?thesis
    by (auto simp: new_read_stream_def)
qed

text \<open>
  C7: Closing a download, by \<open>finish\<close> or by dropping the stream, drains it first and then reads
  the completion reply, once. A stream that has seen the end of the data hands over an empty
  socket, any other one is read to its end or to its first lasting error; both ways of closing
  leave the same state: the transfer flag is down, and the connection stays usable only if it
  was and neither the drain nor the completion failed.
\<close>

theorem closing_a_download:
  assumes "rd_inner rd = Some inner" "eof_seen rd"
    and "lib_finish_read F (inner\<lparr>tr_events := after_failure (tr_events inner)\<rparr>) (world s) = (reply, w)"
  defines "drained \<equiv> (case failure (tr_events inner) of None \<Rightarrow> Inr () | Some e \<Rightarrow> Inl (lib_from_io F e))"
  defines "result \<equiv> finish_read_result drained (map_err ftp_error reply)"
  shows "read_stream_finish F rd s = Some (result, s\<lparr>transfer_active := False,
       connection_usable := connection_usable s \<and> result = Inr (), world := w\<rparr>)
    \<and> drop_read_stream F rd s = Some ((), s\<lparr>transfer_active := False,
       connection_usable := connection_usable s \<and> result = Inr (), world := w\<rparr>)
    \<and> (result = Inr () \<longleftrightarrow> failure (tr_events inner) = None \<and> reply = Inr ())
    \<and> (failure (tr_events inner) = None \<longrightarrow> after_failure (tr_events inner) = [])"
proof -
  have c: "completion F inner (rd_at_eof rd) (world s) = (result, w)"
    using assms by (simp add: completion_def drain_eof_seen)
  have u: "is_ok result \<longleftrightarrow> result = Inr ()" by (cases result) simp_all
  have "result = Inr () \<longleftrightarrow> failure (tr_events inner) = None \<and> reply = Inr ()"
    unfolding result_def drained_def finish_read.combine_Inr_iff by (auto split: option.splits)
  then show ?thesis
    using closing_read(1,2) [OF assms(1) c] u after_failure_none by (simp add: closed_def)
qed

theorem closing_a_download_witness:
  "read_stream_finish demo_lib (new_read_stream demo_download None)
       \<lparr> transfer_active = True, connection_usable = True, world = [] \<rparr>
     = Some (Inr (), \<lparr> transfer_active = False, connection_usable = True, world = [''226''] \<rparr>)"
proof -
  have i: "rd_inner (new_read_stream demo_download None) = Some demo_download"
    and e: "eof_seen (new_read_stream demo_download None)"
    by (simp_all add: new_read_stream_def eof_seen_def)
  have f: "failure (tr_events demo_download) = None" by code_simp
  have l: "lib_finish_read demo_lib (demo_download\<lparr>tr_events := after_failure (tr_events demo_download)\<rparr>)
      (world \<lparr> transfer_active = True, connection_usable = True, world = [] \<rparr>) = (Inr (), [''226''])"
    by (simp add: demo_lib_def)
  from closing_a_download [OF i e l] f show ?thesis by (simp add: finish_read_result_def)
qed

text \<open>
  C33: Closing an upload flushes it and then reads the completion reply even when flushing
  failed. Finishing and dropping leave the same state: the transfer flag is down, and the
  connection stays usable only if it was and neither step failed. Two failures are reported
  with the kind of the completion failure.
\<close>

theorem closing_an_upload:
  assumes "wr_inner wr = Some inner" "lib_flush F inner (world s) = (flush, w)"
    and "lib_finish_write F inner w = (reply, w')"
  defines "result \<equiv> finish_write_result (map_err (lib_from_io F) flush) (map_err ftp_error reply)"
  shows "write_stream_finish F wr s = Some (result, s\<lparr>transfer_active := False,
       connection_usable := connection_usable s \<and> result = Inr (), world := w'\<rparr>)
    \<and> drop_write_stream F wr s = Some ((), s\<lparr>transfer_active := False,
       connection_usable := connection_usable s \<and> result = Inr (), world := w'\<rparr>)
    \<and> (result = Inr () \<longleftrightarrow> flush = Inr () \<and> reply = Inr ())
    \<and> (\<forall>e f c. flush = Inl e \<longrightarrow> reply = Inl f \<longrightarrow> result = Inl c \<longrightarrow> kind c = kind (ftp_error f))"
proof -
  have c: "upload_completion F inner (world s) = (result, w')"
    using assms by (simp add: upload_completion_def)
  have u: "is_ok result \<longleftrightarrow> result = Inr ()" by (cases result) simp_all
  have "result = Inr () \<longleftrightarrow> flush = Inr () \<and> reply = Inr ()"
    unfolding result_def finish_write.combine_Inr_iff by simp
  then show ?thesis
    using closing_write [OF assms(1) c] u by (auto simp: closed_def result_def finish_write_result_def)
qed

theorem closing_an_upload_witness:
  "write_stream_finish demo_lib (new_write_stream 1)
       \<lparr> transfer_active = True, connection_usable = False, world = [] \<rparr>
     = Some (Inr (), \<lparr> transfer_active = False, connection_usable = False, world = [''226''] \<rparr>)"
proof -
  have i: "wr_inner (new_write_stream (1::nat)) = Some 1" by (simp add: new_write_stream_def)
  have l: "lib_flush demo_lib 1 (world \<lparr> transfer_active = True, connection_usable = False, world = [] \<rparr>)
      = (Inr (), [])" "lib_finish_write demo_lib 1 [] = (Inr (), [''226''])"
    by (simp_all add: demo_lib_def)
  from closing_an_upload [OF i l] show ?thesis by (simp add: finish_write_result_def)
qed

end
