(* ===== verification/Sync_Props.thy ===== *)
theory Sync_Props
  imports Sync_Demo Stream_Props
begin

text \<open>
  The properties of the blocking client: its mutex and flags, its connection life cycle, what
  lookup and classification prove, and what a download delivers.
\<close>

section \<open>The client as a whole\<close>

text \<open>An operation that returns and keeps the connection as it is.\<close>

definition returns :: "('s, 'c) ftp_fs \<Rightarrow> (('s, 'c) ftp_fs, 'a) act \<Rightarrow> bool" where
  "returns s m \<longleftrightarrow> (\<exists>r t. m s = Some (r, t) \<and> keeps s t)"

lemma framed_returns: "outer.framed m \<Longrightarrow> idle s \<Longrightarrow> returns s m"
  unfolding returns_def by (blast elim: outer.framedE)

text \<open>
  C5: No operation panics or blocks on its own mutex, whatever the server answers: called with
  the mutex free, every lookup and command returns with the mutex free, the same control
  stream in its place and the transfer flag as it was; it can take the usability of the
  connection away but never give it back. This covers the probes that a refusal starts.
\<close>

theorem operations_return_and_keep_the_connection:
  assumes "\<not> fs_locked s"
  shows "returns s (list_dir F p) \<and> returns s (stat F p) \<and> returns s (exists F p)
    \<and> returns s (set_metadata F p md) \<and> returns s (create_dir F p mode) \<and> returns s (remove_file F p)
    \<and> returns s (remove_dir F p) \<and> returns s (rename F p q) \<and> returns s (copy F p q)
    \<and> returns s (symlink F p q) \<and> returns s (exec F cmd)"
proof -
  have "idle s" using assms by (simp add: idle_def)
  then show ?thesis
    by (intro conjI framed_returns outer_list_dir outer_stat outer_probes outer_operations)
qed

theorem operations_return_and_keep_the_connection_witness:
  "\<exists>r t. create_dir demo_lib ''/pub/foo/bar'' None demo_client = Some (r, t) \<and> keeps demo_client t"
proof -
  have "\<not> fs_locked demo_client" by (simp add: demo_client_def new_def)
  from operations_return_and_keep_the_connection [OF this, of demo_lib "''/pub/foo/bar''" metadata_default None]
  show ?thesis by (simp add: returns_def)
qed

text \<open>A session of the demonstration server, with a download open.\<close>

lemma demo_session: "\<exists>s rd. reachable demo_lib (s :: (string list, nat) ftp_fs, [Reading rd])"
proof -
  define s0 where "s0 = (new ''host'' 21 [] :: (string list, nat) ftp_fs)"
  define s1 where "s1 = snd (the (connect demo_lib s0))"
  define o2 where "o2 = the (open_file demo_lib ''/pub/a.txt'' \<lparr> ro_offset = None, ro_length = None \<rparr> s1)"
  have "connect demo_lib s0 = Some (Inr (), s1)" unfolding s1_def s0_def by code_simp
  moreover have o: "open_file demo_lib ''/pub/a.txt'' \<lparr> ro_offset = None, ro_length = None \<rparr> s1
      = Some (Inr (projr (fst o2)), snd o2)" unfolding o2_def s1_def s0_def by code_simp
  ultimately have "reachable demo_lib (snd o2, [Reading (projr (fst o2))])"
    using reachable.start [of demo_lib "''host''" 21 "[]"] unfolding s0_def [symmetric]
    by (blast intro: reachable.step connecting opened)
  then show ?thesis by blast
qed

text \<open>
  C4: In every session (any order of client operations and of reads, writes, finishes and drops
  of the streams it handed out) at most one stream is alive, it can still be finished, and the
  transfer flag is up exactly while it lives. So the flag is never left up by a failure, and
  never lowered under a live stream.
\<close>

theorem at_most_one_transfer:
  assumes "reachable F (s, live)"
  shows "(transfer_active s \<longleftrightarrow> live \<noteq> []) \<and> length live \<le> 1 \<and> (\<forall>h \<in> set live. alive h)
    \<and> \<not> fs_locked s \<and> (live \<noteq> [] \<longrightarrow> fs_stream s \<noteq> None)"
  using reachable_consistent [OF assms] by (auto simp: consistent_def idle_def)

theorem at_most_one_transfer_witness:
  "\<exists>s rd. reachable demo_lib (s, [Reading rd]) \<and> transfer_active s"
proof -
  obtain s rd where r: "reachable demo_lib (s :: (string list, nat) ftp_fs, [Reading rd])"
    using demo_session by blast
  from at_most_one_transfer [OF r] r show ?thesis by auto
qed

text \<open>
  C17: An operation refused by the state of the client has no effect. While a stream is alive
  the answer is a protocol error, on an unusable connection a connection error, without a
  connection \<open>NotConnected\<close>; nothing is sent and nothing changes, for every operation.
\<close>

theorem refused_operations_have_no_effect:
  assumes "\<not> fs_locked s" "refusal s = Some e" "ensure_contract (lib_ensure F)" "wire_path p" "wire_path q"
  shows "list_dir F p s = Some (Inl e, s) \<and> stat F p s = Some (Inl e, s) \<and> exists F p s = Some (Inl e, s)
    \<and> create_dir F p mode s = Some (Inl e, s) \<and> remove_file F p s = Some (Inl e, s)
    \<and> remove_dir F p s = Some (Inl e, s) \<and> rename F p q s = Some (Inl e, s)
    \<and> exec F cmd s = Some (Inl e, s) \<and> open_file F p ropts s = Some (Inl e, s)
    \<and> create_file F p wopts s = Some (Inl e, s) \<and> append_file F p wopts s = Some (Inl e, s)"
proof -
  have i: "idle s" using assms(1) by (simp add: idle_def)
  have r: "remote_path (lib_ensure F) p = Inr p" "remote_path (lib_ensure F) q = Inr q"
    using assms(4,5) remote_path_contract(1) [OF assms(3)] by simp_all
  note w = with_stream_refused [OF i assms(2)]
  show ?thesis
    using r refusal_kinds(2) [OF assms(2)] refused_stat [OF i assms(2,4,3)]
      refused_list_or [OF i assms(2), of F p p]
    by (simp add: list_dir_def exists_def create_dir_def remove_file_def remove_dir_def rename_def
        exec_def open_file_def create_file_def append_file_def Let_def run_attempt run_seq w)
qed

theorem refused_operations_have_no_effect_witness:
  "rename demo_lib ''/pub/a.txt'' ''/pub/b'' (demo_client\<lparr>transfer_active := True\<rparr>)
     = Some (Inl busy_error, demo_client\<lparr>transfer_active := True\<rparr>)"
proof -
  have s: "\<not> fs_locked (demo_client\<lparr>transfer_active := True\<rparr>)"
    "refusal (demo_client\<lparr>transfer_active := True\<rparr>) = Some busy_error"
    by (simp_all add: demo_client_def new_def refusal_def)
  have p: "wire_path ''/pub/a.txt''" "wire_path ''/pub/b''" by code_simp+
  from refused_operations_have_no_effect [OF s demo_contract p] show ?thesis by blast
qed

text \<open>
  C18: A path that cannot be sent is refused first. If a path is not absolute, not UTF-8, holds a
  control byte or a parent component, or begins with two slashes, every operation on it fails
  with \<open>InvalidPath\<close> without looking at the connection: nothing is sent and nothing changes.
\<close>

theorem invalid_paths_reach_nothing:
  assumes "ensure_contract (lib_ensure F)" "\<not> wire_path p"
  shows "\<exists>e. kind e = KInvalidPath
    \<and> list_dir F p s = Some (Inl e, s) \<and> stat F p s = Some (Inl e, s) \<and> exists F p s = Some (Inl e, s)
    \<and> set_metadata F p md s = Some (Inl e, s) \<and> create_dir F p mode s = Some (Inl e, s)
    \<and> remove_file F p s = Some (Inl e, s) \<and> remove_dir F p s = Some (Inl e, s)
    \<and> rename F p q s = Some (Inl e, s) \<and> copy F p q s = Some (Inl e, s) \<and> symlink F p q s = Some (Inl e, s)
    \<and> open_file F p ropts s = Some (Inl e, s) \<and> create_file F p wopts s = Some (Inl e, s)
    \<and> append_file F p wopts s = Some (Inl e, s)
    \<and> (wire_path q \<longrightarrow> rename F q p s = Some (Inl e, s) \<and> copy F q p s = Some (Inl e, s)
         \<and> symlink F q p s = Some (Inl e, s))"
proof -
  from remote_path_contract(2) [OF assms(1), of p] assms(2) obtain e where
    e: "remote_path (lib_ensure F) p = Inl e" "kind e = KInvalidPath" by blast
  have q: "wire_path q \<Longrightarrow> remote_path (lib_ensure F) q = Inr q"
    using remote_path_contract(1) [OF assms(1)] by simp
  have st: "stat F p s = Some (Inl e, s)" by (subst stat.simps) (simp add: e)
  show ?thesis
    by (intro exI [of _ e])
      (simp add: e q st list_dir_def exists_def set_metadata_def create_dir_def remove_file_def
        remove_dir_def rename_def copy_def symlink_def open_file_def create_file_def append_file_def
        run_seq)
qed

theorem invalid_paths_reach_nothing_witness:
  "\<exists>e. kind e = KInvalidPath \<and> remove_file demo_lib ''/a/../b'' demo_client = Some (Inl e, demo_client)"
proof -
  have "\<not> wire_path ''/a/../b''" by code_simp
  from invalid_paths_reach_nothing [OF demo_contract this, of demo_client] show ?thesis by blast
qed

section \<open>Losing the connection\<close>

text \<open>
  C6: A failure that may have left replies unread is never forgotten. If a command or the start
  of an upload fails with an error that calls for a reconnect, then the connection is unusable
  when the operation returns, so no later command can read the stale replies.
\<close>

theorem lost_synchrony_is_recorded:
  fixes F :: "('a, 'b, 'c) ftp_lib"
  assumes "\<not> fs_locked s" "ensure_contract (lib_ensure F)" "wire_path p" "wire_path q"
  shows "(create_dir F p mode s = Some (r, t) \<longrightarrow> noticed r t)
    \<and> (remove_file F p s = Some (r, t) \<longrightarrow> noticed r t)
    \<and> (remove_dir F p s = Some (r, t) \<longrightarrow> noticed r t)
    \<and> (rename F p q s = Some (r, t) \<longrightarrow> noticed r t)
    \<and> (exec F cmd s = Some (x, t) \<longrightarrow> noticed x t)
    \<and> (create_file F p wopts s = Some (w, t) \<longrightarrow> noticed w t)
    \<and> (append_file F p wopts s = Some (w, t) \<longrightarrow> noticed w t)"
proof -
  have i: "idle s" using assms(1) by (simp add: idle_def)
  have rp: "remote_path (lib_ensure F) p = Inr p" "remote_path (lib_ensure F) q = Inr q"
    using assms(3,4) remote_path_contract(1) [OF assms(2)] by simp_all
  have mkd: "noticed r t" if "create_dir F p mode s = Some (r, t)"
    by (rule classified_noticed [OF i that _ command_shapes(1) [OF rp(1)] classify_meets(4)]) (rule gate_command [OF i])
  have del: "noticed r t" if "remove_file F p s = Some (r, t)"
    by (rule classified_noticed [OF i that _ command_shapes(3) [OF rp(1)] classify_meets(1)]) (rule gate_command [OF i])
  have rmd: "noticed r t" if "remove_dir F p s = Some (r, t)"
    by (rule classified_noticed [OF i that _ command_shapes(2) [OF rp(1)] classify_meets(5)]) (rule gate_command [OF i])
  have ren: "noticed r t" if "rename F p q s = Some (r, t)"
    by (rule classified_noticed [OF i that _ command_shapes(4) [OF rp] classify_meets(3)]) (rule gate_command [OF i])
  have sto: "noticed w t" if "create_file F p wopts s = Some (w, t)"
    by (rule classified_noticed [OF i that _ command_shapes(5) [OF rp(1)] classify_meets(2)]) (rule gate_upload [OF i])
  have app: "noticed w t" if "append_file F p wopts s = Some (w, t)"
    by (rule classified_noticed [OF i that _ command_shapes(6) [OF rp(1)] classify_meets(2)]) (rule gate_upload [OF i])
  show ?thesis by (intro conjI impI mkd del rmd ren exec_noticed [OF i] sto app)
qed

definition lost_lib :: "(string list, nat, nat) ftp_lib" where
  "lost_lib = demo_lib\<lparr>lib_rm := (\<lambda>c p w. (Inl BadResponse, (''DELE '' @ p) # w))\<rparr>"

theorem lost_synchrony_is_recorded_witness:
  "\<exists>t. remove_file lost_lib ''/pub/a.txt'' demo_client = Some (Inl (ftp_error BadResponse), t)
     \<and> \<not> connection_usable t"
proof -
  define t where "t = snd (the (remove_file lost_lib ''/pub/a.txt'' demo_client))"
  have r: "remove_file lost_lib ''/pub/a.txt'' demo_client = Some (Inl (ftp_error BadResponse), t)"
    unfolding t_def by code_simp
  have f: "\<not> fs_locked demo_client" by (simp add: demo_client_def new_def)
  have c: "ensure_contract (lib_ensure lost_lib)" using demo_contract by (simp add: lost_lib_def)
  have w: "wire_path ''/pub/a.txt''" by code_simp
  from lost_synchrony_is_recorded [OF f c w w] r
  have "noticed (Inl (ftp_error BadResponse) :: remote_error + unit) t" by blast
  with r show ?thesis by (auto simp: noticed_def)
qed

text \<open>
  C21: What \<open>connect\<close> leaves. On a usable connection it changes nothing and answers
  \<open>AlreadyConnected\<close>; otherwise the old stream, if any, is dropped and a new one set up. When
  that fails the client has no stream; when it succeeds the client is admitted to every
  operation. An unusable connection is therefore always recovered by a successful reconnect.
\<close>

theorem connect_recovers:
  assumes "\<not> fs_locked s" "\<not> transfer_active s" "connect F s = Some (r, t)"
  shows "if connection_usable s \<and> fs_stream s \<noteq> None
     then r = Inl (new_error KAlreadyConnected) \<and> t = s
     else (case r of
        Inl e \<Rightarrow> fs_stream t = None \<and> refusal t = Some (new_error KNotConnected)
      | Inr _ \<Rightarrow> refusal t = None \<and> is_connected t = Some (True, t))
       \<and> \<not> fs_locked t \<and> options t = options s"
proof -
  have i: "idle s" using assms(1) by (simp add: idle_def)
  show ?thesis
  proof (cases "connection_usable s \<and> fs_stream s \<noteq> None")
    case True
    with connect_refused(2) [OF i assms(2), of F] assms(3) show ?thesis by simp
  next
    case False
    then have fresh: "connection_usable s \<longrightarrow> fs_stream s = None" by blast
    have c: "fs_stream (cleared F s) = None" "connection_usable (cleared F s)"
      "\<not> transfer_active (cleared F s)" "idle (cleared F s)" "options (cleared F s) = options s"
      using fresh assms(2) i by (auto simp: cleared_def idle_def options_def)
    from i assms(2) fresh show ?thesis
    proof (rule connect_outcome [of s F])
      fix e w assume "connect F s = Some (Inl e, (cleared F s)\<lparr>world := w\<rparr>)"
      with assms(3) False c show ?thesis by (auto simp: refusal_def options_def idle_def)
    next
      fix k w assume "connect F s = Some (Inr (), (cleared F s)\<lparr>world := w, fs_stream := Some k\<rparr>)"
      with assms(3) False c show ?thesis
        by (auto simp: refusal_def options_def idle_def run_is_connected)
    qed
  qed
qed

theorem connect_recovers_witness:
  "\<exists>t. connect demo_lib (demo_client\<lparr>connection_usable := False\<rparr>) = Some (Inr (), t) \<and> refusal t = None"
proof -
  define t where "t = snd (the (connect demo_lib (demo_client\<lparr>connection_usable := False\<rparr>)))"
  have r: "connect demo_lib (demo_client\<lparr>connection_usable := False\<rparr>) = Some (Inr (), t)"
    unfolding t_def by code_simp
  have "\<not> fs_locked (demo_client\<lparr>connection_usable := False\<rparr>)"
    "\<not> transfer_active (demo_client\<lparr>connection_usable := False\<rparr>)"
    by (simp_all add: demo_client_def new_def)
  from connect_recovers [OF this r] r show ?thesis by auto
qed

text \<open>
  What \<open>disconnect\<close> leaves. During a transfer and without a connection it changes nothing.
  Otherwise the stream is always closed and gone, also when quitting failed; on an unusable
  connection no command is sent, the answer is a connection error, and the client is as before
  its first connection.
\<close>

theorem disconnect_always_closes:
  assumes "\<not> fs_locked s" "\<not> transfer_active s" "fs_stream s = Some c"
  shows "\<exists>r t. disconnect F s = Some (r, t) \<and> fs_stream t = None \<and> \<not> transfer_active t
    \<and> \<not> fs_locked t \<and> options t = options s
    \<and> (\<not> connection_usable s \<longrightarrow> r = Inl closed_error \<and> connection_usable t
         \<and> world t = lib_close F (ctl_handle c) (world s))
    \<and> (connection_usable s \<longrightarrow> r = map_err ftp_error (fst (lib_quit F (ctl_handle c) (world s)))
         \<and> (r = Inr () \<longrightarrow> connection_usable t) \<and> noticed r t)"
proof -
  have "idle s" using assms(1) by (simp add: idle_def)
  from disconnect_run [OF this assms(2,3), of F] assms(1,2) show ?thesis
    by (cases "connection_usable s"; cases "lib_quit F (ctl_handle c) (world s)";
        cases "fst (lib_quit F (ctl_handle c) (world s))")
      (simp_all add: options_def noticed_def)
qed

theorem disconnect_always_closes_witness:
  "\<exists>t. disconnect demo_lib (demo_client\<lparr>connection_usable := False\<rparr>) = Some (Inl closed_error, t)
     \<and> fs_stream t = None"
proof -
  have "\<not> fs_locked (demo_client\<lparr>connection_usable := False\<rparr>)"
    "\<not> transfer_active (demo_client\<lparr>connection_usable := False\<rparr>)"
    "fs_stream (demo_client\<lparr>connection_usable := False\<rparr>) = Some \<lparr> ctl_handle = 0, ctl_hooked = False \<rparr>"
    "\<not> connection_usable (demo_client\<lparr>connection_usable := False\<rparr>)"
    by (simp_all add: demo_client_def new_def)
  from disconnect_always_closes [OF this(1-3), of demo_lib] this(4) show ?thesis by auto
qed

section \<open>Lookup\<close>

text \<open>
  C19: Lookup, listing and existence computed by the client are the reference functions of the
  server's listings. As long as the listings answer alike, \<open>stat\<close> is \<open>lookup\<close>, \<open>list_dir\<close> is
  \<open>directory\<close>, and \<open>exists\<close> says no exactly when the lookup is a proved absence.
\<close>

theorem lookup_is_computed:
  assumes "server_stable F P ls" "ensure_contract (lib_ensure F)" "P s" "wire_path path"
  shows "(\<exists>t. stat F path s = Some (lookup F ls path, t) \<and> P t)
    \<and> (\<exists>t. list_dir F path s = Some (directory F ls path, t) \<and> P t)
    \<and> (\<exists>r t. exists F path s = Some (r, t) \<and> P t
         \<and> (r = Inr False \<longleftrightarrow> missing F ls path) \<and> (r = Inr True \<longleftrightarrow> is_ok (lookup F ls path)))"
  using sync_prober.look_stable [OF assms] list_dir_stable [OF assms] exists_stable [OF assms] by blast

theorem lookup_is_computed_witness:
  "\<exists>t. stat demo_lib ''/pub/a.txt'' demo_client = Some (lookup demo_lib demo_ls ''/pub/a.txt'', t)"
proof -
  have "wire_path ''/pub/a.txt''" by code_simp
  from lookup_is_computed [OF demo_stable demo_contract demo_client_state this] show ?thesis by blast
qed

text \<open>
  C1: Not-found is proved, never guessed. If the listings the server gives are complete (no
  child that exists is missing from an accepted listing), then a path whose \<open>stat\<close> fails with
  \<open>NoSuchFileOrDirectory\<close>, or whose existence is denied, does not exist; a refused listing
  alone, the ambiguous 550, never leads to that answer. And a path \<open>stat\<close> finds is the root or
  an entry its parent's listing shows.
\<close>

theorem absence_is_proved:
  assumes "server_stable F P ls" "ensure_contract (lib_ensure F)" "P s" "wire_path path"
    and "file_tree present" "complete_listings ls present" "candid_listings ls"
  shows "(\<forall>e t. stat F path s = Some (Inl e, t) \<longrightarrow> kind e = KNoSuchFileOrDirectory \<longrightarrow> \<not> present path)
    \<and> (\<forall>t. exists F path s = Some (Inr False, t) \<longrightarrow> \<not> present path)
    \<and> (\<forall>f t. stat F path s = Some (Inr f, t) \<longrightarrow>
         path_eq path ''/'' \<and> f = root_file path
         \<or> (\<exists>q entries. parent path = Some q \<and> ls q = Inr entries \<and> f \<in> set entries
              \<and> path_eq (f_path f) path))"
  by (rule absence_outcomes [OF assms])

theorem absence_is_proved_witness:
  "\<exists>e t. stat demo_lib ''/pub/zzz'' demo_client = Some (Inl e, t) \<and> kind e = KNoSuchFileOrDirectory
     \<and> \<not> demo_present ''/pub/zzz''"
proof -
  define r where "r = the (stat demo_lib ''/pub/zzz'' demo_client)"
  have r: "stat demo_lib ''/pub/zzz'' demo_client = Some (Inl (new_error KNoSuchFileOrDirectory), snd r)"
    unfolding r_def by code_simp
  have "wire_path ''/pub/zzz''" by code_simp
  from absence_is_proved [OF demo_stable demo_contract demo_client_state this demo_tree demo_complete demo_candid] r
  show ?thesis by auto
qed

text \<open>
  C20: A refusal is reported for a reason the listings show. When the server refused \<open>MKD\<close>, \<open>STOR\<close>,
  \<open>APPE\<close> or a rename with 550 or 553, or \<open>RMD\<close> with 550, and the client is left in a state whose
  listings answer \<open>ls\<close>, the operation fails with the server's reply as its source and one of few
  kinds. It says \<open>NoSuchFileOrDirectory\<close> exactly when \<open>stat\<close> proves the blamed path or parent
  missing, and then that path does not exist; \<open>AlreadyExists\<close> exactly when \<open>stat\<close> finds what is in
  the way, \<open>BadFile\<close> when it finds something else than a directory to remove,
  \<open>DirectoryNotEmpty\<close> only when a listing shows an entry, and \<open>PermissionDenied\<close> otherwise.
\<close>

theorem refusals_are_explained_by_listings:
  assumes "server_stable F P ls" "ensure_contract (lib_ensure F)" "wire_path p" "wire_path q"
    and "file_tree present" "complete_listings ls present" "candid_listings ls"
    and "is_creation_refusal err" "P t"
  shows "(with_stream (\<lambda>c. recorded (command (\<lambda>h. lib_mkdir F h p) c)) s = Some (Inr (Inl err), t) \<longrightarrow>
      (\<exists>k u. create_dir F p mode s = Some (Inl (with_source k (DynFtp err)), u)
        \<and> k \<in> {KAlreadyExists, KNoSuchFileOrDirectory, KPermissionDenied}
        \<and> (k = KAlreadyExists \<longleftrightarrow> is_ok (lookup F ls p))
        \<and> (k = KNoSuchFileOrDirectory \<longleftrightarrow> missing F ls p \<and> missing_parent F ls p)
        \<and> (k = KNoSuchFileOrDirectory \<longrightarrow> (\<exists>d. parent p = Some d \<and> \<not> present d))))
    \<and> (with_stream (start_upload (\<lambda>h. lib_put F h p)) s = Some (Inr (Inl err), t) \<longrightarrow>
      (\<exists>k u. create_file F p wopts s = Some (Inl (with_source k (DynFtp err)), u)
        \<and> k \<in> {KAlreadyExists, KNoSuchFileOrDirectory, KPermissionDenied}
        \<and> (k = KAlreadyExists \<longleftrightarrow> (\<exists>f. lookup F ls p = Inr f \<and> is_dir f))
        \<and> (k = KNoSuchFileOrDirectory \<longleftrightarrow> missing F ls p \<and> missing_parent F ls p)
        \<and> (k = KNoSuchFileOrDirectory \<longrightarrow> (\<exists>d. parent p = Some d \<and> \<not> present d))))
    \<and> (with_stream (start_upload (\<lambda>h. lib_append F h p)) s = Some (Inr (Inl err), t) \<longrightarrow>
      (\<exists>k u. append_file F p wopts s = Some (Inl (with_source k (DynFtp err)), u)
        \<and> k \<in> {KAlreadyExists, KNoSuchFileOrDirectory, KPermissionDenied}
        \<and> (k = KAlreadyExists \<longleftrightarrow> (\<exists>f. lookup F ls p = Inr f \<and> is_dir f))
        \<and> (k = KNoSuchFileOrDirectory \<longleftrightarrow> missing F ls p \<and> missing_parent F ls p)
        \<and> (k = KNoSuchFileOrDirectory \<longrightarrow> (\<exists>d. parent p = Some d \<and> \<not> present d))))
    \<and> (with_stream (\<lambda>c. recorded (command (\<lambda>h. lib_rename F h p q) c)) s = Some (Inr (Inl err), t) \<longrightarrow>
      (\<exists>k u. rename F p q s = Some (Inl (with_source k (DynFtp err)), u)
        \<and> k \<in> {KNoSuchFileOrDirectory, KPermissionDenied}
        \<and> (k = KNoSuchFileOrDirectory \<longleftrightarrow> missing F ls p \<or> is_ok (lookup F ls p) \<and> missing_parent F ls q)
        \<and> (k = KNoSuchFileOrDirectory \<longrightarrow> \<not> present p \<or> (\<exists>d. parent q = Some d \<and> \<not> present d))))
    \<and> (is_file_unavailable err \<longrightarrow>
       with_stream (\<lambda>c. recorded (command (\<lambda>h. lib_rmdir F h p) c)) s = Some (Inr (Inl err), t) \<longrightarrow>
      (\<exists>k u. remove_dir F p s = Some (Inl (with_source k (DynFtp err)), u)
        \<and> k \<in> {KBadFile, KDirectoryNotEmpty, KNoSuchFileOrDirectory, KPermissionDenied}
        \<and> (k = KBadFile \<longleftrightarrow> (\<exists>f. lookup F ls p = Inr f \<and> \<not> is_dir f))
        \<and> (k = KDirectoryNotEmpty \<longrightarrow> (\<exists>g gs. ls p = Inr (g # gs)))
        \<and> (k = KNoSuchFileOrDirectory \<longleftrightarrow> missing F ls p)
        \<and> (k = KNoSuchFileOrDirectory \<longrightarrow> \<not> present p)))"
proof -
  note refused = refused_commands [OF assms(1,2,9,3,8)]
  note absent = missing_absent [OF assms(5-7), of F p] missing_parent_absent [OF assms(5-7), of F p]
    missing_parent_absent [OF assms(5-7), of F q]
  show ?thesis
  proof (intro conjI impI, goal_cases)
    case 1
    from refused(1) [OF 1] create_dir_verdict_kinds [of F ls p] absent(2) show ?case by metis
  next
    case 2
    from refused(2) [OF 2] create_verdict_kinds [of F ls p] absent(2) show ?case by metis
  next
    case 3
    from refused(3) [OF 3] create_verdict_kinds [of F ls p] absent(2) show ?case by metis
  next
    case 4
    from refused(4) [OF 4 assms(4)] rename_verdict_kinds [of F ls p q] absent(1,3) show ?case by metis
  next
    case 5
    from refused(5) [OF 5(2,1)] remove_dir_verdict_kinds [of F ls p] absent(1) show ?case by metis
  qed
qed

theorem refusals_are_explained_by_listings_witness:
  "\<exists>u. create_dir refusing_lib ''/pub/no/b'' None demo_client =
      Some (Inl (with_source KNoSuchFileOrDirectory (DynFtp bad_name)), u)
     \<and> (\<exists>d. parent ''/pub/no/b'' = Some d \<and> \<not> demo_present d)"
proof -
  have w: "wire_path ''/pub/no/b''" by code_simp
  have c: "is_creation_refusal bad_name" by (simp add: bad_name_def)
  have e: "ensure_contract (lib_ensure refusing_lib)" using demo_contract by (simp add: refusing_lib_def)
  define t where "t = demo_client\<lparr>world := [''MKD /pub/no/b'']\<rparr>"
  have t: "demo_state t" unfolding demo_state_def t_def by blast
  have h: "with_stream (\<lambda>c. recorded (command (\<lambda>h. lib_mkdir refusing_lib h ''/pub/no/b'') c)) demo_client
      = Some (Inr (Inl bad_name), t)"
    unfolding t_def demo_client_def by code_simp
  have m: "missing refusing_lib demo_ls ''/pub/no/b''" "missing_parent refusing_lib demo_ls ''/pub/no/b''" by code_simp+
  from refusals_are_explained_by_listings [OF refusing_stable e w w demo_tree demo_complete demo_candid c t] h m
  show ?thesis by metis
qed

text \<open>
  Only deletions and downloads differ: a 550 on a regular file that the listing shows to
  exist is still reported as \<open>NoSuchFileOrDirectory\<close>, with the reply itself as the source.
\<close>

theorem present_file_refused_as_missing:
  assumes "stat F p s = Some (Inr f, t)" "is_file f" "is_file_unavailable err"
  shows "\<exists>d. classify_file_refusal F p err s = Some (d, t) \<and> kind d = KNoSuchFileOrDirectory"
  using assms ftp_error_refusal [OF assms(3)]
  by (auto simp: classify_file_refusal_def run_seq is_dir_def is_file_def)

theorem present_file_refused_as_missing_witness:
  "\<exists>d t. classify_file_refusal demo_lib ''/pub/a.txt'' demo_refusal demo_client = Some (d, t)
     \<and> kind d = KNoSuchFileOrDirectory"
proof -
  define r where "r = the (stat demo_lib ''/pub/a.txt'' demo_client)"
  have r: "stat demo_lib ''/pub/a.txt'' demo_client = Some (Inr (projr (fst r)), snd r)"
    "is_file (projr (fst r))"
    unfolding r_def by code_simp+
  show ?thesis
    using present_file_refused_as_missing [OF r, of demo_refusal] by (auto simp: demo_refusal_def)
qed

section \<open>Downloads\<close>

text \<open>
  C2: A download delivers the range that was asked for, on every way \<open>open\<close> has to get it: with
  an accepted restart marker, with a refused one and the prefix skipped locally, and after a
  \<open>RETR\<close> refused with a marker set, where the marker is reset before the transfer is tried
  again. Whatever buffers the caller reads with, interruptions retried, it has received a prefix of
  the content from the offset on, cut at the length; when a read gives nothing it has received all of
  it; and enough reads do receive all of it.
\<close>

theorem open_delivers_the_range:
  assumes "fs_stream s = Some c" "restart_contract F (ctl_handle c) path marker content"
    and "marker (world s) = 0" "open_file F path opts s = Some (Inr rd, t)" "0 < lib_usize_max F"
  defines "asked \<equiv> within (ro_length opts) (drop (unat (offset_of opts)) content)"
  shows "(\<forall>bufs. \<exists>out err rd'. read_many (read_stream_read F) rd bufs = Some (out, err, rd')
      \<and> (\<exists>rest. asked = out @ rest) \<and> rd_inner rd' \<noteq> None)
    \<and> (\<forall>bufs out mid n rd'. read_many (read_stream_read F) rd bufs = Some (out, None, mid) \<longrightarrow>
         read_stream_read F mid n = Some (Inr [], rd') \<longrightarrow> 0 < n \<longrightarrow> out = asked)
    \<and> (\<exists>N. \<forall>bufs. N \<le> length bufs \<longrightarrow> (\<forall>n \<in> set bufs. 0 < n) \<longrightarrow>
         (\<exists>err rd'. read_many (read_stream_read F) rd bufs = Some (asked, err, rd')))"
proof -
  have l: "stream_left rd = asked" unfolding asked_def by (rule open_left [OF assms(1-4)])
  have u: "unfinished F rd" using open_unfinished [OF assms(4)] assms(5) by (simp add: unfinished_def)
  have "\<exists>out err rd'. read_many (read_stream_read F) rd bufs = Some (out, err, rd')
      \<and> (\<exists>rest. asked = out @ rest) \<and> rd_inner rd' \<noteq> None" for bufs
    using sync_reader.read_many_total [OF u, of bufs] sync_reader.read_many_prefix [OF u, of bufs] l
    unfolding unfinished_def by metis
  moreover have "\<exists>err rd'. read_many (read_stream_read F) rd bufs = Some (asked, err, rd')"
    if "Suc (stream_size rd) \<le> length bufs" "\<forall>n \<in> set bufs. 0 < n" for bufs
    using sync_finite.read_many_all [OF u, of bufs] that l by auto
  ultimately show ?thesis using sync_reader.read_many_complete [OF u] l by metis
qed

lemma demo_restart: "restart_contract demo_lib 0 ''/pub/a.txt'' (\<lambda>_. 0) ''hello world''"
  by (auto simp: restart_contract_def demo_lib_def split: if_splits)

theorem open_delivers_the_range_witness:
  "\<exists>rd t. open_file demo_lib ''/pub/a.txt'' \<lparr> ro_offset = Some 3, ro_length = Some 5 \<rparr> demo_client = Some (Inr rd, t)
     \<and> (\<exists>out err rd'. read_many (read_stream_read demo_lib) rd [2, 9] = Some (out, err, rd') \<and> (\<exists>rest. ''lo wo'' = out @ rest))
     \<and> (\<exists>N. \<forall>bufs. N \<le> length bufs \<longrightarrow> (\<forall>n \<in> set bufs. 0 < n) \<longrightarrow>
         (\<exists>err rd'. read_many (read_stream_read demo_lib) rd bufs = Some (''lo wo'', err, rd')))"
proof -
  define r where "r = the (open_file demo_lib ''/pub/a.txt'' \<lparr> ro_offset = Some 3, ro_length = Some 5 \<rparr> demo_client)"
  have r: "open_file demo_lib ''/pub/a.txt'' \<lparr> ro_offset = Some 3, ro_length = Some 5 \<rparr> demo_client
      = Some (Inr (projr (fst r)), snd r)" unfolding r_def by code_simp
  have c: "fs_stream demo_client = Some \<lparr> ctl_handle = 0, ctl_hooked = False \<rparr>"
    by (simp add: demo_client_def new_def)
  have k: "restart_contract demo_lib (ctl_handle \<lparr> ctl_handle = 0, ctl_hooked = False \<rparr>)
      ''/pub/a.txt'' (\<lambda>_. 0) ''hello world''" using demo_restart by simp
  have a: "within (Some 5) (drop (unat (offset_of \<lparr> ro_offset = Some 3, ro_length = Some 5 \<rparr>)) ''hello world'') = ''lo wo''"
    by (simp add: offset_of_def)
  from open_delivers_the_range [OF c k _ r demo_usize] a r show ?thesis by (metis read_options.select_convs(2))
qed

text \<open>
  Starting a transfer claims the client exactly when it succeeds. \<open>open\<close>, \<open>create\<close> and
  \<open>append\<close> return without panicking and without holding the mutex, the transfer flag is up
  afterwards exactly when it was or a stream was handed out, and a download stream handed out
  can be finished, has the requested budget and has not skipped its cleanup.
\<close>

theorem transfers_claim_the_client:
  assumes "\<not> fs_locked s"
  shows "(\<exists>r t. open_file F p opts s = Some (r, t) \<and> starts s t
       \<and> transfer_active t = (transfer_active s \<or> is_ok r)
       \<and> (\<forall>rd. r = Inr rd \<longrightarrow> rd_inner rd \<noteq> None \<and> eof_seen rd \<and> rd_remaining rd = ro_length opts))
    \<and> (\<exists>r t. create_file F p wopts s = Some (r, t) \<and> starts s t
       \<and> transfer_active t = (transfer_active s \<or> is_ok r) \<and> (\<forall>wr. r = Inr wr \<longrightarrow> wr_inner wr \<noteq> None))
    \<and> (\<exists>r t. append_file F p wopts s = Some (r, t) \<and> starts s t
       \<and> transfer_active t = (transfer_active s \<or> is_ok r) \<and> (\<forall>wr. r = Inr wr \<longrightarrow> wr_inner wr \<noteq> None))"
proof -
  have i: "idle s" using assms by (simp add: idle_def)
  have up: "\<exists>r t. attempt (ret (remote_path (lib_ensure F) p)) (\<lambda>remote.
      attempt (with_stream (start_upload (op remote))) (\<lambda>transfer_result.
      case transfer_result of
        Inl err \<Rightarrow> seq (classify_create_refusal F p err) raise
      | Inr transfer \<Rightarrow> ok (new_write_stream transfer))) s = Some (r, t) \<and> starts s t
       \<and> transfer_active t = (transfer_active s \<or> is_ok r) \<and> (\<forall>wr. r = Inr wr \<longrightarrow> wr_inner wr \<noteq> None)" for op
  proof (cases "remote_path (lib_ensure F) p")
    case (Inl e)
    then show ?thesis by (simp add: starts_def)
  next
    case (Inr remote)
    with upload_operation [where classify = "classify_create_refusal F p" and op = "op remote",
        OF i outer_classify(2)] show ?thesis by auto
  qed
  from download_operation [OF i, of F p opts] up [of "\<lambda>remote h. lib_put F h remote"]
    up [of "\<lambda>remote h. lib_append F h remote"]
  show ?thesis unfolding create_file_def append_file_def by blast
qed

theorem transfers_claim_the_client_witness:
  "\<exists>r t. create_file demo_lib ''/pub/b.txt'' \<lparr> wo_size_hint = None \<rparr> demo_client = Some (r, t)
     \<and> transfer_active t = is_ok r"
proof -
  have "\<not> fs_locked demo_client" "\<not> transfer_active demo_client" by (simp_all add: demo_client_def new_def)
  from transfers_claim_the_client [OF this(1), of demo_lib "''/pub/b.txt''"
      "\<lparr> ro_offset = None, ro_length = None \<rparr>" "\<lparr> wo_size_hint = None \<rparr>"] this(2) show ?thesis by auto
qed

end
