(* ===== verification/Tokio_Stream.thy ===== *)
theory Tokio_Stream
  imports Sync_Stream
begin

text \<open>
  The owned streams of the asynchronous client (\<open>src/src/client/tokio/stream.rs\<close>). The streams
  have the fields of the blocking ones; \<open>tokio::io::copy\<close> is a parameter. A poll is told whether
  the socket is ready, and \<open>Drop\<close>, which cannot wait, does not drain.
\<close>

datatype 'a poll = Pending | Ready 'a

section \<open>Downloads\<close>

definition tokio_drain :: "('s, 'c, 't) ftp_lib \<Rightarrow> script \<Rightarrow> bool \<Rightarrow> (remote_error + unit) \<times> script" where
  "tokio_drain F events at_eof =
     (if at_eof then (Inr (), events)
      else (case lib_copy F None events of
              (r, rest) \<Rightarrow> (map_err (lib_from_io F) (map_sum id (\<lambda>_. ()) r), rest)))"

definition tokio_finish_read_result :: "remote_error + unit \<Rightarrow> remote_error + unit \<Rightarrow> remote_error + unit" where
  "tokio_finish_read_result drained finished =
     (case (drained, finished) of
        (Inr _, Inr _) \<Rightarrow> Inr ()
      | (Inl error, Inr _) \<Rightarrow> Inl error
      | (Inr _, Inl error) \<Rightarrow> Inl error
      | (Inl drained_err, Inl finish) \<Rightarrow>
          Inl (with_source (kind drained_err) (DynCleanupFailure drained_err finish)))"

definition tokio_finish_read ::
  "('s, 'c, 't) ftp_lib \<Rightarrow> 't transfer \<Rightarrow> bool \<Rightarrow> (('s, 'z) conn_scheme, remote_error + unit) act" where
  "tokio_finish_read F inner at_eof =
     (case tokio_drain F (tr_events inner) at_eof of
        (drained, rest) \<Rightarrow>
          seq (on_world (lib_finish_read F (inner\<lparr>tr_events := rest\<rparr>))) (\<lambda>r.
          ret (tokio_finish_read_result drained (map_err ftp_error r))))"

definition aggregate_skip_failure :: "remote_error \<Rightarrow> remote_error + unit \<Rightarrow> remote_error" where
  "aggregate_skip_failure skip finished =
     (case finished of
        Inr _ \<Rightarrow> skip
      | Inl finish \<Rightarrow> with_source (kind skip) (DynSkipCleanupFailure skip finish))"

definition tokio_new_read_stream :: "'t transfer \<Rightarrow> 64 word option \<Rightarrow> 't read_stream" where
  "tokio_new_read_stream inner len = \<lparr> rd_inner = Some inner, rd_remaining = len, rd_at_eof = False \<rparr>"

definition tokio_skip_prefix ::
  "('s, 'c, 't) ftp_lib \<Rightarrow> 't read_stream \<Rightarrow> 64 word \<Rightarrow> ('z, (remote_error + unit) \<times> 't read_stream) act" where
  "tokio_skip_prefix F rd offset =
     seq (expect (rd_inner rd)) (\<lambda>inner.
     case lib_copy F (Some (unat offset)) (tr_events inner) of
       (r, rest) \<Rightarrow>
         let rd' = rd\<lparr>rd_inner := Some (inner\<lparr>tr_events := rest\<rparr>)\<rparr> in
         (case r of
            Inl e \<Rightarrow> ret (Inl (lib_from_io F e), rd')
          | Inr skipped \<Rightarrow>
              ret (Inr (), if skipped < unat offset then rd'\<lparr>rd_at_eof := True\<rparr> else rd')))"

definition tokio_finish_inner ::
  "('s, 'c, 't) ftp_lib \<Rightarrow> 't read_stream
     \<Rightarrow> (('s, 'z) conn_scheme, (remote_error + unit) \<times> 't read_stream) act" where
  "tokio_finish_inner F rd =
     seq (expect (rd_inner rd)) (\<lambda>inner.
     seq (tokio_finish_read F inner (rd_at_eof rd)) (\<lambda>result.
     seq (case result of Inl _ \<Rightarrow> guard_invalidate | Inr _ \<Rightarrow> ret ()) (\<lambda>_.
     ret (result, rd\<lparr>rd_inner := None\<rparr>))))"

text \<open>
  \<open>Drop\<close> cannot drain: a download that has not seen its end invalidates the connection, any
  other one leaves its reply to the next command. The guard is dropped last.
\<close>

definition tokio_drop_read_stream ::
  "('s, 'c, 't) ftp_lib \<Rightarrow> 't read_stream \<Rightarrow> (('s, 'z) conn_scheme, unit) act" where
  "tokio_drop_read_stream F rd =
     seq (case rd_inner rd of
            None \<Rightarrow> ret ()
          | Some inner \<Rightarrow>
              seq (if rd_at_eof rd then ret () else guard_invalidate) (\<lambda>_.
              update (\<lambda>s. s\<lparr>world := lib_abandon_read F inner (world s)\<rparr>)))
     (\<lambda>_. guard_drop)"

definition tokio_finish_after_skip ::
  "('s, 'c, 't) ftp_lib \<Rightarrow> 't read_stream \<Rightarrow> remote_error \<Rightarrow> (('s, 'z) conn_scheme, remote_error) act" where
  "tokio_finish_after_skip F rd skip =
     seq (tokio_finish_inner F rd) (\<lambda>(finished, rd').
     seq (tokio_drop_read_stream F rd') (\<lambda>_.
     ret (aggregate_skip_failure skip finished)))"

definition tokio_read_stream_finish ::
  "('s, 'c, 't) ftp_lib \<Rightarrow> 't read_stream \<Rightarrow> (('s, 'z) conn_scheme, remote_error + unit) act" where
  "tokio_read_stream_finish F rd =
     seq (tokio_finish_inner F rd) (\<lambda>(result, rd').
     seq (tokio_drop_read_stream F rd') (\<lambda>_.
     ret result))"

text \<open>
  \<open>finish\<close> takes the transfer out of the stream before it waits. When its future is dropped the
  transfer goes with it, wherever the library had taken the world, and \<open>Drop\<close> finds none.
\<close>

definition tokio_cancelled_finish ::
  "('s, 'c, 't) ftp_lib \<Rightarrow> ('s \<Rightarrow> 's) \<Rightarrow> 't read_stream \<Rightarrow> (('s, 'z) conn_scheme, unit) act" where
  "tokio_cancelled_finish F sent rd =
     seq (expect (rd_inner rd)) (\<lambda>inner.
     seq (update (\<lambda>s. s\<lparr>world := sent (world s)\<rparr>)) (\<lambda>_.
     tokio_drop_read_stream F (rd\<lparr>rd_inner := None\<rparr>)))"

text \<open>\<open>poll_read\<close> into a buffer of \<open>buf\<close> bytes, with a socket that is ready or not.\<close>

definition poll_read ::
  "('s, 'c, 't) ftp_lib \<Rightarrow> bool \<Rightarrow> 't read_stream \<Rightarrow> nat
     \<Rightarrow> ((io_error + string) poll \<times> 't read_stream) option" where
  "poll_read F ready rd buf =
     (if buf = 0 then Some (Ready (Inr []), rd)
      else if rd_remaining rd = Some 0 then Some (Ready (Inr []), rd)
      else do {
        let limit = (case rd_remaining rd of
                       Some budget \<Rightarrow>
                         min (case usize_try_from F budget of None \<Rightarrow> lib_usize_max F | Some n \<Rightarrow> n) buf
                     | None \<Rightarrow> buf);
        inner \<leftarrow> rd_inner rd;
        if \<not> ready then Some (Pending, rd)
        else (case script_read limit (tr_events inner) of
          (Inl err, rest) \<Rightarrow> Some (Ready (Inl err), rd\<lparr>rd_inner := Some (inner\<lparr>tr_events := rest\<rparr>)\<rparr>)
        | (Inr bytes, rest) \<Rightarrow>
            let rd' = rd\<lparr>rd_inner := Some (inner\<lparr>tr_events := rest\<rparr>)\<rparr> in
            do {
              rd' \<leftarrow> (case rd_remaining rd of
                       None \<Rightarrow> Some rd'
                     | Some budget \<Rightarrow>
                         if unat budget < length bytes then None
                         else Some (rd'\<lparr>rd_remaining := Some (budget - of_nat (length bytes))\<rparr>));
              Some (Ready (Inr bytes), if bytes = [] then rd'\<lparr>rd_at_eof := True\<rparr> else rd')
            })
      })"

section \<open>Uploads\<close>

definition tokio_new_write_stream :: "'t \<Rightarrow> 't write_stream" where
  "tokio_new_write_stream inner = \<lparr> wr_inner = Some inner \<rparr>"

definition poll_write ::
  "('s, 'c, 't) ftp_lib \<Rightarrow> bool \<Rightarrow> 't write_stream \<Rightarrow> string \<Rightarrow> (('s, 'z) conn_scheme, (io_error + nat) poll) act" where
  "poll_write F ready wr buf =
     seq (expect (wr_inner wr)) (\<lambda>inner.
     if \<not> ready then ret Pending else seq (on_world (lib_write F inner buf)) (\<lambda>r. ret (Ready r)))"

definition poll_flush ::
  "('s, 'c, 't) ftp_lib \<Rightarrow> bool \<Rightarrow> 't write_stream \<Rightarrow> (('s, 'z) conn_scheme, (io_error + unit) poll) act" where
  "poll_flush F ready wr =
     seq (expect (wr_inner wr)) (\<lambda>inner.
     if \<not> ready then ret Pending else seq (on_world (lib_flush F inner)) (\<lambda>r. ret (Ready r)))"

definition poll_close ::
  "('s, 'c, 't) ftp_lib \<Rightarrow> bool \<Rightarrow> 't write_stream \<Rightarrow> (('s, 'z) conn_scheme, (io_error + unit) poll) act" where
  "poll_close F ready wr =
     seq (expect (wr_inner wr)) (\<lambda>inner.
     if \<not> ready then ret Pending else seq (on_world (lib_shutdown F inner)) (\<lambda>r. ret (Ready r)))"

definition tokio_finish_write_result :: "remote_error + unit \<Rightarrow> remote_error + unit \<Rightarrow> remote_error + unit" where
  "tokio_finish_write_result flushed finished =
     (case (flushed, finished) of
        (Inr _, Inr _) \<Rightarrow> Inr ()
      | (Inl error, Inr _) \<Rightarrow> Inl error
      | (Inr _, Inl error) \<Rightarrow> Inl error
      | (Inl flush, Inl finish) \<Rightarrow>
          Inl (with_source (kind finish) (DynWriteCleanupFailure flush finish)))"

definition tokio_finish_write ::
  "('s, 'c, 't) ftp_lib \<Rightarrow> 't \<Rightarrow> (('s, 'z) conn_scheme, remote_error + unit) act" where
  "tokio_finish_write F inner =
     seq (on_world (lib_flush F inner)) (\<lambda>flush.
     seq (on_world (lib_finish_write F inner)) (\<lambda>finish.
     ret (tokio_finish_write_result (map_err (lib_from_io F) flush) (map_err ftp_error finish))))"

definition tokio_drop_write_stream ::
  "('s, 'c, 't) ftp_lib \<Rightarrow> 't write_stream \<Rightarrow> (('s, 'z) conn_scheme, unit) act" where
  "tokio_drop_write_stream F wr =
     seq (case wr_inner wr of
            None \<Rightarrow> ret ()
          | Some inner \<Rightarrow> update (\<lambda>s. s\<lparr>world := lib_abandon_write F inner (world s)\<rparr>))
     (\<lambda>_. guard_drop)"

definition tokio_cancelled_upload_finish ::
  "('s, 'c, 't) ftp_lib \<Rightarrow> ('s \<Rightarrow> 's) \<Rightarrow> 't write_stream \<Rightarrow> (('s, 'z) conn_scheme, unit) act" where
  "tokio_cancelled_upload_finish F sent wr =
     seq (expect (wr_inner wr)) (\<lambda>inner.
     seq (update (\<lambda>s. s\<lparr>world := sent (world s)\<rparr>)) (\<lambda>_.
     tokio_drop_write_stream F (wr\<lparr>wr_inner := None\<rparr>)))"

definition tokio_write_stream_finish ::
  "('s, 'c, 't) ftp_lib \<Rightarrow> 't write_stream \<Rightarrow> (('s, 'z) conn_scheme, remote_error + unit) act" where
  "tokio_write_stream_finish F wr =
     seq (expect (wr_inner wr)) (\<lambda>inner.
     seq (tokio_finish_write F inner) (\<lambda>result.
     seq (case result of Inl _ \<Rightarrow> guard_invalidate | Inr _ \<Rightarrow> ret ()) (\<lambda>_.
     seq (tokio_drop_write_stream F (wr\<lparr>wr_inner := None\<rparr>)) (\<lambda>_.
     ret result))))"

end
