(* ===== verification/Tokio_Client.thy ===== *)
theory Tokio_Client
  imports Tokio_Stream Sync_Probe
begin

text \<open>
  The asynchronous client's state, guards and connection (the first half of
  \<open>src/src/client/tokio.rs\<close>, built with \<open>tokio-native-tls\<close>). An operation is the sequence of its
  steps when nobody cancels it; cancelling drops the guards, which is modelled on its own. The
  paths, listings and error mapping are the code both clients share.
\<close>

section \<open>State\<close>

record ('s, 'c) tokio_ftp_fs = "'s conn" +
  tk_locked :: bool
  tk_stream :: "'c control option"
  tk_connected :: bool
  tk_welcome :: "string option"
  tk_hostname :: string
  tk_port :: "16 word"
  tk_username :: string
  tk_password :: "string option"
  tk_builder :: "nat option"
  tk_mode :: mode
  tk_secure :: bool
  tk_accept_invalid_certs :: bool
  tk_accept_invalid_hostnames :: bool

definition tokio_new :: "string \<Rightarrow> 16 word \<Rightarrow> 's \<Rightarrow> ('s, 'c) tokio_ftp_fs" where
  "tokio_new hostname port w = \<lparr>
     transfer_active = False, connection_usable = True, world = w,
     tk_locked = False, tk_stream = None, tk_connected = False, tk_welcome = None,
     tk_hostname = hostname, tk_port = port,
     tk_username = ''anonymous'', tk_password = None, tk_builder = None, tk_mode = Passive,
     tk_secure = False, tk_accept_invalid_certs = False, tk_accept_invalid_hostnames = False \<rparr>"

definition tokio_username :: "string \<Rightarrow> ('s, 'c) tokio_ftp_fs \<Rightarrow> ('s, 'c) tokio_ftp_fs" where
  "tokio_username u s = s\<lparr>tk_username := u\<rparr>"

definition tokio_password :: "string \<Rightarrow> ('s, 'c) tokio_ftp_fs \<Rightarrow> ('s, 'c) tokio_ftp_fs" where
  "tokio_password p s = s\<lparr>tk_password := Some p\<rparr>"

definition tokio_active_mode :: "('s, 'c) tokio_ftp_fs \<Rightarrow> ('s, 'c) tokio_ftp_fs" where
  "tokio_active_mode s = s\<lparr>tk_mode := Active\<rparr>"

definition tokio_passive_mode :: "('s, 'c) tokio_ftp_fs \<Rightarrow> ('s, 'c) tokio_ftp_fs" where
  "tokio_passive_mode s = s\<lparr>tk_mode := Passive\<rparr>"

definition tokio_secure :: "bool \<Rightarrow> bool \<Rightarrow> ('s, 'c) tokio_ftp_fs \<Rightarrow> ('s, 'c) tokio_ftp_fs" where
  "tokio_secure certs hostnames s =
     s\<lparr>tk_secure := True, tk_accept_invalid_certs := certs, tk_accept_invalid_hostnames := hostnames\<rparr>"

definition tokio_passive_stream_builder :: "nat \<Rightarrow> ('s, 'c) tokio_ftp_fs \<Rightarrow> ('s, 'c) tokio_ftp_fs" where
  "tokio_passive_stream_builder builder s = s\<lparr>tk_builder := Some builder\<rparr>"

definition tokio_stream :: "('s, 'c) tokio_ftp_fs \<Rightarrow> 'c control option" where
  "tokio_stream s = (if transfer_active s \<or> \<not> connection_usable s then None else tk_stream s)"

definition tokio_welcome_message :: "('s, 'c) tokio_ftp_fs \<Rightarrow> string option" where
  "tokio_welcome_message s = tk_welcome s"

section \<open>Flags and guards\<close>

definition tokio_mark_connection_unusable :: "(('s, 'z) conn_scheme, unit) act" where
  "tokio_mark_connection_unusable = update (\<lambda>s. s\<lparr>connection_usable := False\<rparr>)"

definition tokio_check_operation_state :: "(('s, 'z) conn_scheme, remote_error + unit) act" where
  "tokio_check_operation_state =
     seq (gets transfer_active) (\<lambda>active.
     if active then raise busy_error
     else seq (gets connection_usable) (\<lambda>usable.
     if \<not> usable then raise unusable_error
     else ok ()))"

definition tokio_record_ftp_error :: "FtpError \<Rightarrow> (('s, 'z) conn_scheme, unit) act" where
  "tokio_record_ftp_error err =
     (if transfer_setup_requires_reconnect err then tokio_mark_connection_unusable else ret ())"

definition tokio_record_remote_error :: "remote_error \<Rightarrow> (('s, 'z) conn_scheme, unit) act" where
  "tokio_record_remote_error err =
     (if remote_error_requires_reconnect err then tokio_mark_connection_unusable else ret ())"

definition tokio_start_transfer :: "(('s, 'z) conn_scheme, unit) act" where
  "tokio_start_transfer = update (\<lambda>s. s\<lparr>transfer_active := True\<rparr>)"

text \<open>
  The cancellation guard of an operation. A stream guard holds the mutex too, and its fields are
  dropped in their order: the mutex first, then the operation.
\<close>

record operation_guard =
  og_completed :: bool

definition drop_operation :: "operation_guard \<Rightarrow> (('s, 'z) conn_scheme, unit) act" where
  "drop_operation g = (if \<not> og_completed g then tokio_mark_connection_unusable else ret ())"

definition operation_complete :: "operation_guard \<Rightarrow> (('s, 'z) conn_scheme, unit) act" where
  "operation_complete g = drop_operation (g\<lparr>og_completed := True\<rparr>)"

definition tokio_lock :: "(('s, 'c) tokio_ftp_fs, unit) act" where
  "tokio_lock = (\<lambda>s. if tk_locked s then None else Some ((), s\<lparr>tk_locked := True\<rparr>))"

definition tokio_unlock :: "(('s, 'c) tokio_ftp_fs, unit) act" where
  "tokio_unlock = update (\<lambda>s. s\<lparr>tk_locked := False\<rparr>)"

definition drop_stream_guard :: "operation_guard \<Rightarrow> (('s, 'c) tokio_ftp_fs, unit) act" where
  "drop_stream_guard g = seq tokio_unlock (\<lambda>_. drop_operation g)"

definition stream_guard_complete :: "operation_guard \<Rightarrow> (('s, 'c) tokio_ftp_fs, unit) act" where
  "stream_guard_complete g = seq (operation_complete g) (\<lambda>_. tokio_unlock)"

definition guard_stream :: "(('s, 'c) tokio_ftp_fs, 'c control) act" where
  "guard_stream = seq (gets tk_stream) expect"

definition lock_stream :: "(('s, 'c) tokio_ftp_fs, remote_error + operation_guard) act" where
  "lock_stream =
     seq tokio_lock (\<lambda>_.
     seq tokio_check_operation_state (\<lambda>r.
     case r of
       Inl e \<Rightarrow> seq tokio_unlock (\<lambda>_. raise e)
     | Inr _ \<Rightarrow>
         seq (gets tk_stream) (\<lambda>guard.
         if guard = None then seq tokio_unlock (\<lambda>_. raise (new_error KNotConnected))
         else ok \<lparr> og_completed = False \<rparr>)))"

text \<open>
  A command whose future is dropped while it waits for the server: the guards go out of scope,
  with the world wherever the command had taken it.
\<close>

definition cancelled_command :: "('s \<Rightarrow> 's) \<Rightarrow> (('s, 'c) tokio_ftp_fs, remote_error + unit) act" where
  "cancelled_command sent =
     attempt lock_stream (\<lambda>g.
     seq (update (\<lambda>s. s\<lparr>world := sent (world s)\<rparr>)) (\<lambda>_.
     seq (drop_stream_guard g) (\<lambda>_.
     ok ())))"

definition run_command ::
  "('c control \<Rightarrow> (('s, 'c) tokio_ftp_fs, FtpError + 'a) act)
     \<Rightarrow> (('s, 'c) tokio_ftp_fs, remote_error + (FtpError + 'a)) act" where
  "run_command cmd =
     attempt lock_stream (\<lambda>g.
     seq guard_stream (\<lambda>c.
     seq (cmd c) (\<lambda>result.
     seq (stream_guard_complete g) (\<lambda>_.
     seq (on_error tokio_record_ftp_error result) (\<lambda>_.
     ok result)))))"

section \<open>Connecting\<close>

definition tokio_setup_tls_connector :: "('s, 'c, 't) ftp_lib \<Rightarrow> ('s, 'c) tokio_ftp_fs \<Rightarrow> remote_error + nat" where
  "tokio_setup_tls_connector F s =
     Inr (lib_tls_connector F (tk_accept_invalid_certs s) (tk_accept_invalid_hostnames s))"

definition tokio_secure_stream ::
  "('s, 'c, 't) ftp_lib \<Rightarrow> 'c \<Rightarrow> (('s, 'c) tokio_ftp_fs, remote_error + 'c) act" where
  "tokio_secure_stream F c =
     seq (gets tk_secure) (\<lambda>secure.
     if \<not> secure then ok c
     else
       attempt (or_drop F c (seq (gets (tokio_setup_tls_connector F)) ret)) (\<lambda>connector.
       seq (gets tk_hostname) (\<lambda>hostname.
       seq (on_world (lib_into_secure F c connector hostname)) (\<lambda>r.
       ret (map_err (\<lambda>e. with_source KConnectionError (DynFtp e)) r)))))"

definition tokio_install_builder :: "('s, 'c, 't) ftp_lib \<Rightarrow> 'c \<Rightarrow> (('s, 'c) tokio_ftp_fs, bool) act" where
  "tokio_install_builder F c =
     seq (gets tk_builder) (\<lambda>builder.
     case builder of
       None \<Rightarrow> ret False
     | Some b \<Rightarrow> seq (update (\<lambda>s. s\<lparr>world := lib_set_builder F c b (world s)\<rparr>)) (\<lambda>_. ret True))"

definition tokio_log_in :: "('s, 'c, 't) ftp_lib \<Rightarrow> 'c \<Rightarrow> (('s, 'c) tokio_ftp_fs, remote_error + unit) act" where
  "tokio_log_in F c =
     seq (gets tk_username) (\<lambda>user.
     seq (gets (\<lambda>s. case tk_password s of None \<Rightarrow> [] | Some p \<Rightarrow> p)) (\<lambda>pass.
     seq (on_world (lib_login F c user pass)) (\<lambda>r.
     ret (map_err ftp_error r))))"

definition tokio_open_control ::
  "('s, 'c, 't) ftp_lib \<Rightarrow> (('s, 'c) tokio_ftp_fs, remote_error + 'c control) act" where
  "tokio_open_control F =
     seq (gets (\<lambda>s. address (tk_hostname s) (tk_port s))) (\<lambda>addr.
     attempt (seq (on_world (lib_connect F addr)) (\<lambda>r. ret (map_err ftp_error r))) (\<lambda>c.
     seq (tokio_install_builder F c) (\<lambda>hooked.
     seq (gets tk_mode) (\<lambda>mode.
     seq (update (\<lambda>s. s\<lparr>world := lib_set_mode F c mode (world s)\<rparr>)) (\<lambda>_.
     attempt (tokio_secure_stream F c) (\<lambda>c.
     attempt (or_drop F c (tokio_log_in F c)) (\<lambda>_.
     attempt (or_drop F c
       (seq (on_world (lib_transfer_type F c Binary)) (\<lambda>r. ret (map_err ftp_error r)))) (\<lambda>_.
     ok \<lparr> ctl_handle = c, ctl_hooked = hooked \<rparr>))))))))"

text \<open>The stale stream is dropped, but not the banner.\<close>

definition tokio_forget_unusable :: "('s, 'c, 't) ftp_lib \<Rightarrow> (('s, 'c) tokio_ftp_fs, unit) act" where
  "tokio_forget_unusable F =
     seq (gets connection_usable) (\<lambda>usable.
     if \<not> usable then
       seq (gets tk_stream) (\<lambda>old.
       seq (update (\<lambda>s. s\<lparr>tk_stream := None\<rparr>)) (\<lambda>_.
       seq (case old of None \<Rightarrow> ret () | Some c \<Rightarrow> drop_stream F (ctl_handle c)) (\<lambda>_.
       seq (update (\<lambda>s. s\<lparr>tk_connected := False\<rparr>)) (\<lambda>_.
       update (\<lambda>s. s\<lparr>connection_usable := True\<rparr>)))))
     else ret ())"

definition tokio_connect :: "('s, 'c, 't) ftp_lib \<Rightarrow> (('s, 'c) tokio_ftp_fs, remote_error + unit) act" where
  "tokio_connect F =
     seq (gets transfer_active) (\<lambda>active.
     if active then raise busy_error
     else
       seq (gets (\<lambda>s. connection_usable s \<and> tk_stream s \<noteq> None)) (\<lambda>connected.
       if connected then raise (new_error KAlreadyConnected)
       else
         seq (tokio_forget_unusable F) (\<lambda>_.
         attempt (tokio_open_control F) (\<lambda>c.
         seq (update (\<lambda>s. s\<lparr>tk_welcome := lib_welcome F (ctl_handle c) (world s)\<rparr>)) (\<lambda>_.
         seq (update (\<lambda>s. s\<lparr>tk_stream := Some c\<rparr>)) (\<lambda>_.
         seq (update (\<lambda>s. s\<lparr>tk_connected := True\<rparr>)) (\<lambda>_.
         ok ())))))))"

definition tokio_disconnect :: "('s, 'c, 't) ftp_lib \<Rightarrow> (('s, 'c) tokio_ftp_fs, remote_error + unit) act" where
  "tokio_disconnect F =
     seq (gets transfer_active) (\<lambda>active.
     if active then raise busy_error
     else
       seq (gets connection_usable) (\<lambda>usable.
       seq (gets tk_stream) (\<lambda>taken.
       seq (update (\<lambda>s. s\<lparr>tk_stream := None\<rparr>)) (\<lambda>_.
       case taken of
         None \<Rightarrow> raise (new_error KNotConnected)
       | Some c \<Rightarrow>
           seq (update (\<lambda>s. s\<lparr>tk_connected := False, tk_welcome := None, connection_usable := True\<rparr>)) (\<lambda>_.
           if \<not> usable then seq (drop_stream F (ctl_handle c)) (\<lambda>_. raise closed_error)
           else
             seq (on_world (lib_quit F (ctl_handle c))) (\<lambda>r.
             let result = map_err ftp_error r in
             seq (on_error tokio_record_remote_error result) (\<lambda>_.
             seq (drop_stream F (ctl_handle c)) (\<lambda>_.
             ret result))))))))"

text \<open>
  Connecting or disconnecting whose future is dropped while it waits: the stream it was setting up,
  or had taken, is dropped, with the world wherever the library had taken it.
\<close>

definition tokio_cancelled_connect ::
  "('s, 'c, 't) ftp_lib \<Rightarrow> ('s \<Rightarrow> 's) \<Rightarrow> (('s, 'c) tokio_ftp_fs, remote_error + unit) act" where
  "tokio_cancelled_connect F sent =
     seq (gets transfer_active) (\<lambda>active.
     if active then raise busy_error
     else
       seq (gets (\<lambda>s. connection_usable s \<and> tk_stream s \<noteq> None)) (\<lambda>connected.
       if connected then raise (new_error KAlreadyConnected)
       else
         seq (tokio_forget_unusable F) (\<lambda>_.
         seq (update (\<lambda>s. s\<lparr>world := sent (world s)\<rparr>)) (\<lambda>_.
         ok ()))))"

definition tokio_cancelled_disconnect ::
  "('s, 'c, 't) ftp_lib \<Rightarrow> ('s \<Rightarrow> 's) \<Rightarrow> (('s, 'c) tokio_ftp_fs, remote_error + unit) act" where
  "tokio_cancelled_disconnect F sent =
     seq (gets transfer_active) (\<lambda>active.
     if active then raise busy_error
     else
       seq (gets connection_usable) (\<lambda>usable.
       seq (gets tk_stream) (\<lambda>taken.
       seq (update (\<lambda>s. s\<lparr>tk_stream := None\<rparr>)) (\<lambda>_.
       case taken of
         None \<Rightarrow> raise (new_error KNotConnected)
       | Some c \<Rightarrow>
           seq (update (\<lambda>s. s\<lparr>tk_connected := False, tk_welcome := None, connection_usable := True\<rparr>)) (\<lambda>_.
           if \<not> usable then seq (drop_stream F (ctl_handle c)) (\<lambda>_. raise closed_error)
           else seq (update (\<lambda>s. s\<lparr>world := sent (world s)\<rparr>)) (\<lambda>_. ok ()))))))"

definition tokio_is_connected :: "('s, 'c) tokio_ftp_fs \<Rightarrow> bool" where
  "tokio_is_connected s \<longleftrightarrow> connection_usable s \<and> (tk_connected s \<or> transfer_active s)"

definition tokio_capabilities :: "capability set" where
  "tokio_capabilities = {STREAM_READ, STREAM_WRITE, APPEND, RANGE_READ, EXEC}"

end
