(* ===== verification/Tokio_Probe.thy ===== *)
theory Tokio_Probe
  imports Tokio_Client
begin

text \<open>
  Listing, metadata lookup and the classification of refusals in the asynchronous client
  (\<open>src/src/client/tokio.rs\<close>). A listing holds the mutex until its data connection is closed; an
  error is recorded after the guard was completed.
\<close>

section \<open>Raw listings\<close>

definition tokio_read_list_bytes ::
  "('s, 'c, 't) ftp_lib \<Rightarrow> 'c control \<Rightarrow> string \<Rightarrow> (('s, 'z) conn_scheme, (remote_error + string) \<times> bool) act" where
  "tokio_read_list_bytes F c remote =
     seq (data_command (\<lambda>h. lib_custom F h (''LIST '' @ remote) [AboutToSend, AlreadyOpen]) c) (\<lambda>r.
     case r of
       Inl err \<Rightarrow> ret (Inl (ftp_error err), transfer_setup_requires_reconnect err)
     | Inr (response, transfer) \<Rightarrow>
         (case lib_read_to_end F (tr_events transfer) of
            (read, rest) \<Rightarrow>
              seq (on_world (lib_finish_read F (transfer\<lparr>tr_events := rest\<rparr>))) (\<lambda>finish.
              ret (case (read, finish) of
                (Inr bytes, Inr _) \<Rightarrow> (Inr bytes, False)
              | (Inl e, Inr _) \<Rightarrow> (Inl (ftp_error (ConnectionError e)), True)
              | (Inr _, Inl f) \<Rightarrow> (Inl (ftp_error f), True)
              | (Inl e, Inl f) \<Rightarrow>
                  (let read = ftp_error (ConnectionError e); finish = ftp_error f in
                   (Inl (with_source (kind read) (DynListCleanupFailure read finish)), True))))))"

definition tokio_list_dir_raw ::
  "('s, 'c, 't) ftp_lib \<Rightarrow> string \<Rightarrow> string \<Rightarrow> (('s, 'c) tokio_ftp_fs, remote_error + remote_file list) act" where
  "tokio_list_dir_raw F path remote =
     attempt lock_stream (\<lambda>g.
     seq guard_stream (\<lambda>c.
     seq (tokio_read_list_bytes F c remote) (\<lambda>(result, requires_reconnect).
     seq (stream_guard_complete g) (\<lambda>_.
     seq (if requires_reconnect then tokio_mark_connection_unusable else ret ()) (\<lambda>_.
     attempt (ret result) (\<lambda>bytes.
     case decode_list_bytes bytes of
       Inl e \<Rightarrow> raise (ftp_error e)
     | Inr lines \<Rightarrow> expect (parse_list_lines (lib_rows F) path lines)))))))"

section \<open>Metadata lookup\<close>

fun tokio_ancestor_loop ::
  "('s, 'c, 't) ftp_lib \<Rightarrow> nat \<Rightarrow> string \<Rightarrow> (('s, 'c) tokio_ftp_fs, remote_error + bool) act" where
  "tokio_ancestor_loop F 0 candidate = ok False"
| "tokio_ancestor_loop F (Suc n) candidate =
     (case parent candidate of
        None \<Rightarrow> ok False
      | Some q \<Rightarrow>
          attempt (ret (remote_path (lib_ensure F) q)) (\<lambda>remote_parent.
          seq (tokio_list_dir_raw F q remote_parent) (\<lambda>r.
          case r of
            Inr entries \<Rightarrow> ok (\<not> list_ex (\<lambda>entry. path_eq (f_path entry) candidate) entries)
          | Inl error \<Rightarrow>
              if is_ambiguous_path_refusal error then tokio_ancestor_loop F n q else ok False)))"

definition tokio_ancestor_proves_absent ::
  "('s, 'c, 't) ftp_lib \<Rightarrow> string \<Rightarrow> (('s, 'c) tokio_ftp_fs, remote_error + bool) act" where
  "tokio_ancestor_proves_absent F path = tokio_ancestor_loop F 8 path"

text \<open>
  A listing, with an ambiguous refusal turned into \<open>NoSuchFileOrDirectory\<close> only when an
  ancestor proves the path absent.
\<close>

definition tokio_list_or_prove_absent ::
  "('s, 'c, 't) ftp_lib \<Rightarrow> string \<Rightarrow> string \<Rightarrow> (('s, 'c) tokio_ftp_fs, remote_error + remote_file list) act" where
  "tokio_list_or_prove_absent F path remote =
     seq (tokio_list_dir_raw F path remote) (\<lambda>r.
     case r of
       Inr entries \<Rightarrow> ok entries
     | Inl error \<Rightarrow>
         if is_ambiguous_path_refusal error then
           attempt (tokio_ancestor_proves_absent F path) (\<lambda>absent.
           if absent then raise (with_source KNoSuchFileOrDirectory (DynRemote error))
           else raise (ambiguous_path_permission error))
         else raise error)"

function tokio_stat ::
  "('s, 'c, 't) ftp_lib \<Rightarrow> string \<Rightarrow> (('s, 'c) tokio_ftp_fs, remote_error + remote_file) act" where
  "tokio_stat F path =
     attempt (ret (remote_path (lib_ensure F) path)) (\<lambda>_.
     if path_eq path ''/'' then
       attempt lock_stream (\<lambda>g. seq (stream_guard_complete g) (\<lambda>_. ok (root_file path)))
     else
       (case parent path of
          None \<Rightarrow> panic
        | Some q \<Rightarrow>
            attempt (ret (remote_path (lib_ensure F) q)) (\<lambda>remote_parent.
            attempt (tokio_list_or_prove_absent F q remote_parent) (\<lambda>entries.
            attempt (
              if lists_itself F q entries then
                seq (tokio_stat F q) (\<lambda>r.
                case r of
                  Inr parent_entry \<Rightarrow>
                    if is_file parent_entry
                    then raise (with_message KBadFile ''the parent path is a regular file'')
                    else ok ()
                | Inl error \<Rightarrow> if kind error = KPermissionDenied then ok () else raise error)
              else ok ()) (\<lambda>_.
            ret (find_entry path entries))))))"
  by pat_completeness auto
termination
  by (relation "measure (\<lambda>(F, path). length path)") (auto dest: parent_shorter)

declare tokio_stat.simps [simp del]

text \<open>\<open>matches!(self.stat(&path), Ok(entry) if entry.is_file())\<close>.\<close>

definition tokio_stat_is_file :: "('s, 'c, 't) ftp_lib \<Rightarrow> string \<Rightarrow> (('s, 'c) tokio_ftp_fs, bool) act" where
  "tokio_stat_is_file F path =
     seq (tokio_stat F path) (\<lambda>r. ret (case r of Inr entry \<Rightarrow> is_file entry | Inl _ \<Rightarrow> False))"

definition tokio_list_dir ::
  "('s, 'c, 't) ftp_lib \<Rightarrow> string \<Rightarrow> (('s, 'c) tokio_ftp_fs, remote_error + remote_file list) act" where
  "tokio_list_dir F path =
     attempt (ret (remote_path (lib_ensure F) path)) (\<lambda>remote.
     attempt (tokio_list_or_prove_absent F path remote) (\<lambda>entries.
     if path_eq path ''/'' then ok entries
     else
       seq (if lists_itself F path entries then tokio_stat_is_file F path else ret False) (\<lambda>target_is_file.
       if target_is_file then raise not_a_directory
       else
         seq (if entries = [] then tokio_stat_is_file F path else ret False) (\<lambda>empty_is_file.
         if empty_is_file then raise not_a_directory
         else ok entries))))"

definition tokio_exists :: "('s, 'c, 't) ftp_lib \<Rightarrow> string \<Rightarrow> (('s, 'c) tokio_ftp_fs, remote_error + bool) act" where
  "tokio_exists F path =
     seq (tokio_stat F path) (\<lambda>r.
     case r of
       Inr _ \<Rightarrow> ok True
     | Inl err \<Rightarrow> if kind err = KNoSuchFileOrDirectory then ok False else raise err)"

section \<open>Classifying refusals\<close>

definition tokio_destination_parent_is_missing ::
  "('s, 'c, 't) ftp_lib \<Rightarrow> string \<Rightarrow> (('s, 'c) tokio_ftp_fs, bool) act" where
  "tokio_destination_parent_is_missing F path =
     (case parent path of
        None \<Rightarrow> ret False
      | Some q \<Rightarrow>
          seq (tokio_stat F q) (\<lambda>r.
          ret (case r of Inl error \<Rightarrow> kind error = KNoSuchFileOrDirectory | Inr _ \<Rightarrow> False)))"

definition tokio_classify_file_refusal ::
  "('s, 'c, 't) ftp_lib \<Rightarrow> string \<Rightarrow> FtpError \<Rightarrow> (('s, 'c) tokio_ftp_fs, remote_error) act" where
  "tokio_classify_file_refusal F path err =
     (if \<not> is_file_unavailable err then ret (ftp_error err)
      else
        seq (tokio_stat F path) (\<lambda>r.
        ret (case r of
          Inr f \<Rightarrow> if is_dir f then with_source KBadFile (DynFtp err) else ftp_error err
        | Inl probe \<Rightarrow>
            if kind probe = KNoSuchFileOrDirectory
            then with_source KNoSuchFileOrDirectory (DynFtp err)
            else ftp_error err)))"

definition tokio_classify_create_refusal ::
  "('s, 'c, 't) ftp_lib \<Rightarrow> string \<Rightarrow> FtpError \<Rightarrow> (('s, 'c) tokio_ftp_fs, remote_error) act" where
  "tokio_classify_create_refusal F path err =
     (if \<not> is_creation_refusal err then ret (ftp_error err)
      else
        seq (tokio_stat F path) (\<lambda>r.
        case r of
          Inr f \<Rightarrow>
            ret (if is_dir f then with_source KAlreadyExists (DynFtp err)
                 else with_source KPermissionDenied (DynFtp err))
        | Inl error \<Rightarrow>
            seq (if kind error = KNoSuchFileOrDirectory then tokio_destination_parent_is_missing F path
                 else ret False) (\<lambda>missing.
            ret (if missing then with_source KNoSuchFileOrDirectory (DynFtp err)
                 else with_source KPermissionDenied (DynFtp err)))))"

definition tokio_classify_remove_dir_refusal ::
  "('s, 'c, 't) ftp_lib \<Rightarrow> string \<Rightarrow> FtpError \<Rightarrow> (('s, 'c) tokio_ftp_fs, remote_error) act" where
  "tokio_classify_remove_dir_refusal F path err =
     (if \<not> is_file_unavailable err then ret (ftp_error err)
      else
        seq (tokio_stat F path) (\<lambda>r.
        case r of
          Inr f \<Rightarrow>
            if \<not> is_dir f then ret (with_source KBadFile (DynFtp err))
            else
              seq (tokio_list_dir F path) (\<lambda>l.
              ret (case l of
                Inr entries \<Rightarrow>
                  if entries \<noteq> [] then with_source KDirectoryNotEmpty (DynFtp err)
                  else with_source KPermissionDenied (DynFtp err)
              | Inl _ \<Rightarrow> with_source KPermissionDenied (DynFtp err)))
        | Inl probe \<Rightarrow>
            ret (if kind probe = KNoSuchFileOrDirectory
                 then with_source KNoSuchFileOrDirectory (DynFtp err)
                 else with_source KPermissionDenied (DynFtp err))))"

definition tokio_classify_create_dir_refusal ::
  "('s, 'c, 't) ftp_lib \<Rightarrow> string \<Rightarrow> FtpError \<Rightarrow> (('s, 'c) tokio_ftp_fs, remote_error) act" where
  "tokio_classify_create_dir_refusal F path err =
     (if \<not> is_creation_refusal err then ret (ftp_error err)
      else
        seq (tokio_stat F path) (\<lambda>r.
        case r of
          Inr _ \<Rightarrow> ret (with_source KAlreadyExists (DynFtp err))
        | Inl error \<Rightarrow>
            seq (if kind error = KNoSuchFileOrDirectory then tokio_destination_parent_is_missing F path
                 else ret False) (\<lambda>missing.
            ret (if missing then with_source KNoSuchFileOrDirectory (DynFtp err)
                 else with_source KPermissionDenied (DynFtp err)))))"

definition tokio_classify_rename_refusal ::
  "('s, 'c, 't) ftp_lib \<Rightarrow> string \<Rightarrow> string \<Rightarrow> FtpError \<Rightarrow> (('s, 'c) tokio_ftp_fs, remote_error) act" where
  "tokio_classify_rename_refusal F src dest err =
     (if \<not> is_creation_refusal err then ret (ftp_error err)
      else
        seq (tokio_stat F src) (\<lambda>r.
        case r of
          Inl error \<Rightarrow>
            ret (if kind error = KNoSuchFileOrDirectory
                 then with_source KNoSuchFileOrDirectory (DynFtp err)
                 else with_source KPermissionDenied (DynFtp err))
        | Inr _ \<Rightarrow>
            seq (tokio_destination_parent_is_missing F dest) (\<lambda>missing.
            ret (if missing then with_source KNoSuchFileOrDirectory (DynFtp err)
                 else with_source KPermissionDenied (DynFtp err)))))"

end
