(* ===== verification/Tokio_Ops.thy ===== *)
theory Tokio_Ops
  imports Tokio_Probe Sync_Ops
begin

text \<open>
  The filesystem operations of the asynchronous client: the rest of \<open>impl AsyncRemoteFs for
  TokioFtpFs\<close> in \<open>src/src/client/tokio.rs\<close>. The transfer operations hold the guard themselves,
  record errors before they complete it, and read ahead after they have released the mutex.
\<close>

section \<open>Commands\<close>

definition tokio_set_metadata ::
  "('s, 'c, 't) ftp_lib \<Rightarrow> string \<Rightarrow> metadata \<Rightarrow> (('s, 'c) tokio_ftp_fs, remote_error + unit) act" where
  "tokio_set_metadata F path md =
     attempt (ret (remote_path (lib_ensure F) path)) (\<lambda>_. raise (new_error KUnsupportedFeature))"

definition tokio_create_dir ::
  "('s, 'c, 't) ftp_lib \<Rightarrow> string \<Rightarrow> unix_pex option \<Rightarrow> (('s, 'c) tokio_ftp_fs, remote_error + unit) act" where
  "tokio_create_dir F path mode =
     attempt (ret (remote_path (lib_ensure F) path)) (\<lambda>remote.
     attempt (run_command (command (\<lambda>h. lib_mkdir F h remote))) (\<lambda>result.
     case result of
       Inr _ \<Rightarrow> ok ()
     | Inl e \<Rightarrow>
         (case e of
            UnexpectedResponse response \<Rightarrow>
              if status response \<in> {FileUnavailable, BadFilename}
              then seq (tokio_classify_create_dir_refusal F path e) raise
              else raise (ftp_error e)
          | _ \<Rightarrow> raise (ftp_error e))))"

definition tokio_remove_file :: "('s, 'c, 't) ftp_lib \<Rightarrow> string \<Rightarrow> (('s, 'c) tokio_ftp_fs, remote_error + unit) act" where
  "tokio_remove_file F path =
     attempt (ret (remote_path (lib_ensure F) path)) (\<lambda>remote.
     attempt (run_command (command (\<lambda>h. lib_rm F h remote))) (\<lambda>result.
     case result of
       Inr _ \<Rightarrow> ok ()
     | Inl err \<Rightarrow> seq (tokio_classify_file_refusal F path err) raise))"

definition tokio_remove_dir :: "('s, 'c, 't) ftp_lib \<Rightarrow> string \<Rightarrow> (('s, 'c) tokio_ftp_fs, remote_error + unit) act" where
  "tokio_remove_dir F path =
     attempt (ret (remote_path (lib_ensure F) path)) (\<lambda>remote.
     attempt (run_command (command (\<lambda>h. lib_rmdir F h remote))) (\<lambda>result.
     case result of
       Inr _ \<Rightarrow> ok ()
     | Inl err \<Rightarrow> seq (tokio_classify_remove_dir_refusal F path err) raise))"

definition tokio_rename ::
  "('s, 'c, 't) ftp_lib \<Rightarrow> string \<Rightarrow> string \<Rightarrow> (('s, 'c) tokio_ftp_fs, remote_error + unit) act" where
  "tokio_rename F src dest =
     attempt (ret (remote_path (lib_ensure F) src)) (\<lambda>remote_src.
     attempt (ret (remote_path (lib_ensure F) dest)) (\<lambda>remote_dest.
     attempt (run_command (command (\<lambda>h. lib_rename F h remote_src remote_dest))) (\<lambda>result.
     case result of
       Inr _ \<Rightarrow> ok ()
     | Inl err \<Rightarrow> seq (tokio_classify_rename_refusal F src dest err) raise)))"

definition tokio_copy ::
  "('s, 'c, 't) ftp_lib \<Rightarrow> string \<Rightarrow> string \<Rightarrow> (('s, 'c) tokio_ftp_fs, remote_error + unit) act" where
  "tokio_copy F src dest =
     attempt (ret (remote_path (lib_ensure F) src)) (\<lambda>_.
     attempt (ret (remote_path (lib_ensure F) dest)) (\<lambda>_.
     raise (new_error KUnsupportedFeature)))"

definition tokio_symlink ::
  "('s, 'c, 't) ftp_lib \<Rightarrow> string \<Rightarrow> string \<Rightarrow> (('s, 'c) tokio_ftp_fs, remote_error + unit) act" where
  "tokio_symlink F path target =
     attempt (ret (remote_path (lib_ensure F) path)) (\<lambda>_.
     attempt (ret (remote_path (lib_ensure F) target)) (\<lambda>_.
     raise (new_error KUnsupportedFeature)))"

definition tokio_exec :: "('s, 'c, 't) ftp_lib \<Rightarrow> string \<Rightarrow> (('s, 'c) tokio_ftp_fs, remote_error + exec_output) act" where
  "tokio_exec F cmd =
     attempt lock_stream (\<lambda>g.
     seq guard_stream (\<lambda>c.
     seq (command (\<lambda>h. lib_site F h cmd) c) (\<lambda>result.
     seq (stream_guard_complete g) (\<lambda>_.
     case result of
       Inl e \<Rightarrow>
         let error = ftp_error e in
         seq (tokio_record_remote_error error) (\<lambda>_. raise error)
     | Inr response \<Rightarrow>
         ok \<lparr> eo_status = lib_status_code F (status response),
              eo_output = from_utf8_lossy (body response) \<rparr>))))"

section \<open>Transfers\<close>

definition tokio_request_offset ::
  "('s, 'c, 't) ftp_lib \<Rightarrow> 'c control \<Rightarrow> 64 word \<Rightarrow> (('s, 'z) conn_scheme, remote_error + bool) act" where
  "tokio_request_offset F c offset =
     (case usize_try_from F offset of
        None \<Rightarrow> ok False
      | Some n \<Rightarrow>
          seq (command (\<lambda>h. lib_resume_transfer F h n) c) (\<lambda>r.
          case r of
            Inr _ \<Rightarrow> ok True
          | Inl (UnexpectedResponse response) \<Rightarrow>
              if status response \<noteq> NotAvailable then ok False
              else raise (ftp_error (UnexpectedResponse response))
          | Inl error \<Rightarrow> raise (ftp_error error)))"

text \<open>
  The part of \<open>open\<close> under the guard: every return completes it. A marker that was refused is
  recorded; a marker that could not be reset makes the connection unusable.
\<close>

definition tokio_restart ::
  "('s, 'c, 't) ftp_lib \<Rightarrow> operation_guard \<Rightarrow> 'c control \<Rightarrow> 64 word
     \<Rightarrow> (('s, 'c) tokio_ftp_fs, remote_error + bool) act" where
  "tokio_restart F g c offset =
     (if offset > 0 then
        seq (tokio_request_offset F c offset) (\<lambda>r.
        case r of
          Inr value \<Rightarrow> ok value
        | Inl error \<Rightarrow>
            seq (tokio_record_remote_error error) (\<lambda>_.
            seq (stream_guard_complete g) (\<lambda>_.
            raise error)))
      else ok False)"

definition tokio_retry_from_start ::
  "('s, 'c, 't) ftp_lib \<Rightarrow> operation_guard \<Rightarrow> 'c control \<Rightarrow> string \<Rightarrow> bool \<Rightarrow> 't transfer outcome
     \<Rightarrow> (('s, 'c) tokio_ftp_fs, remote_error + (bool \<times> 't transfer outcome)) act" where
  "tokio_retry_from_start F g c remote resumed result =
     (if resumed \<and> isl result then
        seq (command (\<lambda>h. lib_resume_transfer F h 0) c) (\<lambda>r.
        case r of
          Inr _ \<Rightarrow>
            seq (data_command (\<lambda>h. lib_retr F h remote) c) (\<lambda>result'.
            ok (False, result'))
        | Inl error \<Rightarrow>
            seq tokio_mark_connection_unusable (\<lambda>_.
            seq (stream_guard_complete g) (\<lambda>_.
            raise (ftp_error error))))
      else ok (resumed, result))"

definition tokio_skip_locally ::
  "('s, 'c, 't) ftp_lib \<Rightarrow> 't read_stream \<Rightarrow> 64 word
     \<Rightarrow> (('s, 'c) tokio_ftp_fs, remote_error + 't read_stream) act" where
  "tokio_skip_locally F reader offset =
     seq (tokio_skip_prefix F reader offset) (\<lambda>(r, reader).
     case r of
       Inl skip \<Rightarrow> seq (tokio_finish_after_skip F reader skip) raise
     | Inr _ \<Rightarrow> ok reader)"

definition tokio_open ::
  "('s, 'c, 't) ftp_lib \<Rightarrow> string \<Rightarrow> read_options \<Rightarrow> (('s, 'c) tokio_ftp_fs, remote_error + 't read_stream) act" where
  "tokio_open F path opts =
     attempt (ret (remote_path (lib_ensure F) path)) (\<lambda>remote.
     let offset = offset_of opts in
     attempt lock_stream (\<lambda>g.
     seq guard_stream (\<lambda>c.
     attempt (tokio_restart F g c offset) (\<lambda>resumed.
     seq (data_command (\<lambda>h. lib_retr F h remote) c) (\<lambda>result.
     attempt (tokio_retry_from_start F g c remote resumed result) (\<lambda>(resumed, result).
     seq (on_error tokio_record_ftp_error result) (\<lambda>_.
     case result of
       Inl err \<Rightarrow>
         seq (stream_guard_complete g) (\<lambda>_.
         seq (tokio_classify_file_refusal F path err) raise)
     | Inr transfer \<Rightarrow>
         seq tokio_start_transfer (\<lambda>_.
         seq (stream_guard_complete g) (\<lambda>_.
         let reader = tokio_new_read_stream transfer (ro_length opts) in
         if offset > 0 \<and> \<not> resumed then tokio_skip_locally F reader offset
         else ok reader)))))))))"

definition tokio_create ::
  "('s, 'c, 't) ftp_lib \<Rightarrow> string \<Rightarrow> write_options \<Rightarrow> (('s, 'c) tokio_ftp_fs, remote_error + 't write_stream) act" where
  "tokio_create F path opts =
     attempt (ret (remote_path (lib_ensure F) path)) (\<lambda>remote.
     attempt lock_stream (\<lambda>g.
     seq guard_stream (\<lambda>c.
     seq (data_command (\<lambda>h. lib_put F h remote) c) (\<lambda>result.
     seq (on_error tokio_record_ftp_error result) (\<lambda>_.
     case result of
       Inl err \<Rightarrow>
         seq (stream_guard_complete g) (\<lambda>_.
         seq (tokio_classify_create_refusal F path err) raise)
     | Inr transfer \<Rightarrow>
         seq tokio_start_transfer (\<lambda>_.
         seq (stream_guard_complete g) (\<lambda>_.
         ok (tokio_new_write_stream transfer))))))))"

definition tokio_append ::
  "('s, 'c, 't) ftp_lib \<Rightarrow> string \<Rightarrow> write_options \<Rightarrow> (('s, 'c) tokio_ftp_fs, remote_error + 't write_stream) act" where
  "tokio_append F path opts =
     attempt (ret (remote_path (lib_ensure F) path)) (\<lambda>remote.
     attempt lock_stream (\<lambda>g.
     seq guard_stream (\<lambda>c.
     seq (data_command (\<lambda>h. lib_append F h remote) c) (\<lambda>result.
     seq (on_error tokio_record_ftp_error result) (\<lambda>_.
     case result of
       Inl err \<Rightarrow>
         seq (stream_guard_complete g) (\<lambda>_.
         seq (tokio_classify_create_refusal F path err) raise)
     | Inr transfer \<Rightarrow>
         seq tokio_start_transfer (\<lambda>_.
         seq (stream_guard_complete g) (\<lambda>_.
         ok (tokio_new_write_stream transfer))))))))"

end
