(* ===== verification/Simulation.thy ===== *)
theory Simulation
  imports Guard
begin

text \<open>
  Functional refinement between two clients whose states share the flags and the world. The
  abstraction is a function; a concrete action follows an abstract one when, from every state with
  the invariant, both answer alike and end in states the abstraction relates. The rules follow
  the constructors of actions, so a refinement proof walks through two handlers side by side.
\<close>

named_theorems sim_intros \<open>rules that match two actions constructor by constructor\<close>

section \<open>Following through an abstraction of the world\<close>

text \<open>What the abstraction and the invariant owe to a handler that touches the shared part.\<close>

locale same_world =
  fixes abs :: "('s, 'y) conn_scheme \<Rightarrow> ('s, 'z) conn_scheme" and J :: "('s, 'y) conn_scheme \<Rightarrow> bool"
  assumes abs_world: "world (abs s) = world s"
    and abs_set_world: "abs (s\<lparr>world := w\<rparr>) = (abs s)\<lparr>world := w\<rparr>"
    and keep_set_world: "J s \<Longrightarrow> J (s\<lparr>world := w\<rparr>)"
    and abs_set_usable: "abs (s\<lparr>connection_usable := b\<rparr>) = (abs s)\<lparr>connection_usable := b\<rparr>"
    and keep_set_usable: "J s \<Longrightarrow> J (s\<lparr>connection_usable := b\<rparr>)"
begin

definition follows ::
  "(('s, 'y) conn_scheme, 'a) act \<Rightarrow> (('s, 'z) conn_scheme, 'a) act \<Rightarrow> ('a \<Rightarrow> bool) \<Rightarrow> bool" where
  "follows m n Q \<longleftrightarrow> (\<forall>s. J s \<longrightarrow>
     n (abs s) = map_option (map_prod id abs) (m s)
     \<and> (\<forall>x t. m s = Some (x, t) \<longrightarrow> J t \<and> Q x))"

lemma followsI:
  assumes "\<And>s. J s \<Longrightarrow> n (abs s) = map_option (map_prod id abs) (m s)"
    and "\<And>s x t. J s \<Longrightarrow> m s = Some (x, t) \<Longrightarrow> J t \<and> Q x"
  shows "follows m n Q"
  using assms by (auto simp: follows_def)

lemma followsD:
  assumes "follows m n Q" "J s"
  shows "n (abs s) = map_option (map_prod id abs) (m s)"
    and "m s = Some (x, t) \<Longrightarrow> J t \<and> Q x"
  using assms by (auto simp: follows_def)

lemma follows_weaken: "follows m n P \<Longrightarrow> (\<And>x. P x \<Longrightarrow> Q x) \<Longrightarrow> follows m n Q"
  unfolding follows_def by blast

lemma follows_seq:
  assumes "follows m n P" "\<And>x. P x \<Longrightarrow> follows (k x) (l x) Q"
  shows "follows (seq m k) (seq n l) Q"
proof (rule followsI)
  fix s assume s: "J s"
  show "seq n l (abs s) = map_option (map_prod id abs) (seq m k s)"
    using followsD [OF assms(1) s] followsD(1) [OF assms(2)]
    by (cases "m s") (auto simp: seq_def)
  fix y u assume "seq m k s = Some (y, u)"
  then show "J u \<and> Q y"
    using followsD(2) [OF assms(1) s] followsD(2) [OF assms(2)] by (blast elim: seq_SomeE)
qed

lemma follows_ret: "Q x \<Longrightarrow> follows (ret x) (ret x) Q"
  by (rule followsI) auto

lemma follows_gets: "(\<And>s. J s \<Longrightarrow> g (abs s) = f s \<and> Q (f s)) \<Longrightarrow> follows (gets f) (gets g) Q"
  by (rule followsI) auto

text \<open>Without a claim about the answer, the rules chain automatically.\<close>

abbreviation simulates ::
  "(('s, 'y) conn_scheme, 'a) act \<Rightarrow> (('s, 'z) conn_scheme, 'a) act \<Rightarrow> bool" where
  "simulates m n \<equiv> follows m n (\<lambda>_. True)"

lemma sim_primitive [sim_intros]:
  "simulates (ret x) (ret x)" "simulates (ok y) (ok y)" "simulates (raise e) (raise e)"
  "simulates panic panic" "simulates (expect v) (expect v)"
  by (rule followsI; simp add: expect_def split: option.splits)+

lemma sim_seq [sim_intros]:
  "simulates m n \<Longrightarrow> (\<And>x. simulates (k x) (l x)) \<Longrightarrow> simulates (seq m k) (seq n l)"
  by (rule follows_seq)

lemma sim_attempt [sim_intros]:
  "simulates m n \<Longrightarrow> (\<And>x. simulates (k x) (l x)) \<Longrightarrow> simulates (attempt m k) (attempt n l)"
  unfolding attempt_def by (intro sim_seq) (auto intro: sim_primitive split: sum.split)

lemma sim_if [sim_intros]:
  "simulates m n \<Longrightarrow> simulates k l \<Longrightarrow> simulates (if b then m else k) (if b then n else l)"
  by simp

lemma sim_case_sum [sim_intros]:
  "(\<And>e. simulates (f e) (f' e)) \<Longrightarrow> (\<And>x. simulates (g x) (g' x))
    \<Longrightarrow> simulates (case r of Inl e \<Rightarrow> f e | Inr x \<Rightarrow> g x) (case r of Inl e \<Rightarrow> f' e | Inr x \<Rightarrow> g' x)"
  by (cases r) simp_all

lemma sim_case_option [sim_intros]:
  "simulates m n \<Longrightarrow> (\<And>x. simulates (g x) (g' x))
    \<Longrightarrow> simulates (case v of None \<Rightarrow> m | Some x \<Rightarrow> g x) (case v of None \<Rightarrow> n | Some x \<Rightarrow> g' x)"
  by (cases v) simp_all

lemma sim_case_prod [sim_intros]:
  "(\<And>a b. simulates (f a b) (g a b)) \<Longrightarrow> simulates (case p of (a, b) \<Rightarrow> f a b) (case p of (a, b) \<Rightarrow> g a b)"
  by (cases p) simp

lemma sim_case_ftp_error [sim_intros]:
  "(\<And>r. simulates (f r) (f' r)) \<Longrightarrow> simulates m n
    \<Longrightarrow> simulates (case e of UnexpectedResponse r \<Rightarrow> f r | _ \<Rightarrow> m) (case e of UnexpectedResponse r \<Rightarrow> f' r | _ \<Rightarrow> n)"
  by (cases e) simp_all

lemma sim_Let [sim_intros]: "(\<And>x. simulates (f x) (g x)) \<Longrightarrow> simulates (Let v f) (Let v g)"
  by simp

lemma sim_gets: "(\<And>s. g (abs s) = f s) \<Longrightarrow> simulates (gets f) (gets g)"
  by (rule followsI) auto

lemma sim_update:
  "(\<And>s. abs (f s) = g (abs s)) \<Longrightarrow> (\<And>s. J s \<Longrightarrow> J (f s)) \<Longrightarrow> simulates (update f) (update g)"
  by (rule followsI) auto

lemma sim_on_world [sim_intros]: "simulates (on_world f) (on_world f)"
  by (rule followsI)
    (auto simp: on_world_def abs_world abs_set_world intro: keep_set_world split: prod.splits)

lemma sim_set_world [sim_intros]:
  "simulates (update (\<lambda>s. s\<lparr>world := f (world s)\<rparr>)) (update (\<lambda>s. s\<lparr>world := f (world s)\<rparr>))"
  by (rule sim_update) (simp_all add: abs_world abs_set_world keep_set_world)

lemma sim_invalidate [sim_intros]: "simulates guard_invalidate guard_invalidate"
  unfolding guard_invalidate_def by (rule sim_update) (simp_all add: abs_set_usable keep_set_usable)

lemma sim_unusable [sim_intros]:
  "simulates (update (\<lambda>s. s\<lparr>connection_usable := b\<rparr>)) (update (\<lambda>s. s\<lparr>connection_usable := b\<rparr>))"
  by (rule sim_update) (simp_all add: abs_set_usable keep_set_usable)

end

section \<open>Following through an abstraction of both flags\<close>

locale same_flags = same_world +
  assumes abs_usable: "connection_usable (abs s) = connection_usable s"
    and abs_active: "transfer_active (abs s) = transfer_active s"
    and abs_set_active: "abs (s\<lparr>transfer_active := b\<rparr>) = (abs s)\<lparr>transfer_active := b\<rparr>"
    and keep_set_active: "J s \<Longrightarrow> J (s\<lparr>transfer_active := b\<rparr>)"
begin

lemma sim_flags [sim_intros]:
  "simulates (gets connection_usable) (gets connection_usable)"
  "simulates (gets transfer_active) (gets transfer_active)"
  by (rule sim_gets; simp add: abs_usable abs_active)+

lemma sim_set_active [sim_intros]:
  "simulates (update (\<lambda>s. s\<lparr>transfer_active := b\<rparr>)) (update (\<lambda>s. s\<lparr>transfer_active := b\<rparr>))"
  by (rule sim_update) (simp_all add: abs_set_active keep_set_active)

lemma sim_guard_drop [sim_intros]: "simulates guard_drop guard_drop"
  unfolding guard_drop_def by (rule sim_set_active)

end

end
