(* ===== verification/Tokio_Refines.thy ===== *)
theory Tokio_Refines
  imports Tokio_Ops Sync_Facts Simulation
begin

text \<open>
  The asynchronous client refines the blocking one: run to its end, every operation of
  \<open>TokioFtpFs\<close> answers as the operation of \<open>FtpFs\<close> on the same state and leaves the same state.
\<close>

section \<open>What the asynchronous reads owe\<close>

text \<open>A script without interruptions: a socket driven by a readiness loop reports none.\<close>

fun calm_event :: "read_event \<Rightarrow> bool" where
  "calm_event (Chunk bs) \<longleftrightarrow> True"
| "calm_event (ReadErr e) \<longleftrightarrow> io_error_kind e \<noteq> Interrupted"

definition calm :: "script \<Rightarrow> bool" where
  "calm es \<longleftrightarrow> list_all calm_event es"

text \<open>
  The documented behaviour the comparison rests on: \<open>tokio::io::copy\<close> and \<open>read_to_end\<close> do what
  their blocking namesakes do when no read is interrupted, no read of a transfer is, and the
  blocking TLS builder succeeds, as the asynchronous one always does.
\<close>

definition async_contract :: "('s, 'c, 't) ftp_lib \<Rightarrow> bool" where
  "async_contract F \<longleftrightarrow>
     (\<forall>limit es. calm es \<longrightarrow> lib_copy F limit es = io_copy limit es)
     \<and> (\<forall>es. calm es \<longrightarrow> lib_read_to_end F es = read_to_end es)
     \<and> (\<forall>certs hostnames. lib_tls_build F certs hostnames = Inr (lib_tls_connector F certs hostnames))
     \<and> (\<forall>c path w tr b w'. lib_retr F c path w = ((Inr tr, b), w') \<longrightarrow> calm (tr_events tr))
     \<and> (\<forall>c cmd sts w resp tr b w'. lib_custom F c cmd sts w = ((Inr (resp, tr), b), w') \<longrightarrow> calm (tr_events tr))"

lemma contract_copy: "async_contract F \<Longrightarrow> calm es \<Longrightarrow> lib_copy F limit es = io_copy limit es"
  by (simp add: async_contract_def)

lemma contract_read_to_end: "async_contract F \<Longrightarrow> calm es \<Longrightarrow> lib_read_to_end F es = read_to_end es"
  by (simp add: async_contract_def)

lemma contract_tls: "async_contract F \<Longrightarrow> lib_tls_build F a b = Inr (lib_tls_connector F a b)"
  by (simp add: async_contract_def)

lemma contract_retr:
  "async_contract F \<Longrightarrow> lib_retr F c path w = ((Inr tr, b), w') \<Longrightarrow> calm (tr_events tr)"
  unfolding async_contract_def by blast

lemma contract_custom:
  "async_contract F \<Longrightarrow> lib_custom F c cmd sts w = ((Inr (resp, tr), b), w') \<Longrightarrow> calm (tr_events tr)"
  unfolding async_contract_def by blast

section \<open>The abstraction\<close>

definition blocking :: "('s, 'c) tokio_ftp_fs \<Rightarrow> ('s, 'c) ftp_fs" where
  "blocking s = \<lparr>
     transfer_active = transfer_active s, connection_usable = connection_usable s, world = world s,
     fs_locked = tk_locked s, fs_stream = tk_stream s, fs_hostname = tk_hostname s, fs_port = tk_port s,
     fs_username = tk_username s, fs_password = tk_password s, fs_builder = tk_builder s,
     fs_mode = tk_mode s, fs_secure = tk_secure s,
     fs_accept_invalid_certs = tk_accept_invalid_certs s,
     fs_accept_invalid_hostnames = tk_accept_invalid_hostnames s \<rparr>"

text \<open>\<open>connected\<close> mirrors the presence of the control stream.\<close>

definition mirrored :: "('s, 'c) tokio_ftp_fs \<Rightarrow> bool" where
  "mirrored s \<longleftrightarrow> (tk_connected s \<longleftrightarrow> tk_stream s \<noteq> None)"

definition released :: "('s, 'c) tokio_ftp_fs \<Rightarrow> bool" where
  "released s \<longleftrightarrow> \<not> tk_locked s \<and> mirrored s"

definition held :: "('s, 'c) tokio_ftp_fs \<Rightarrow> bool" where
  "held s \<longleftrightarrow> tk_locked s \<and> mirrored s"

text \<open>During a listing the blocking client has taken its stream out and raised the flag.\<close>

definition exclusive :: "('s, 'c) tokio_ftp_fs \<Rightarrow> ('s, 'c) ftp_fs" where
  "exclusive s = (blocking s)\<lparr>fs_locked := False, fs_stream := None, transfer_active := True\<rparr>"

lemma blocking_simps [simp]:
  "transfer_active (blocking s) = transfer_active s" "connection_usable (blocking s) = connection_usable s"
  "world (blocking s) = world s" "fs_locked (blocking s) = tk_locked s" "fs_stream (blocking s) = tk_stream s"
  "fs_hostname (blocking s) = tk_hostname s" "fs_port (blocking s) = tk_port s"
  "fs_username (blocking s) = tk_username s" "fs_password (blocking s) = tk_password s"
  "fs_builder (blocking s) = tk_builder s" "fs_mode (blocking s) = tk_mode s" "fs_secure (blocking s) = tk_secure s"
  "fs_accept_invalid_certs (blocking s) = tk_accept_invalid_certs s"
  "fs_accept_invalid_hostnames (blocking s) = tk_accept_invalid_hostnames s"
  by (simp_all add: blocking_def)

lemma blocking_update [simp]:
  "blocking (s\<lparr>world := w\<rparr>) = (blocking s)\<lparr>world := w\<rparr>"
  "blocking (s\<lparr>connection_usable := b\<rparr>) = (blocking s)\<lparr>connection_usable := b\<rparr>"
  "blocking (s\<lparr>transfer_active := b\<rparr>) = (blocking s)\<lparr>transfer_active := b\<rparr>"
  "blocking (s\<lparr>tk_locked := b\<rparr>) = (blocking s)\<lparr>fs_locked := b\<rparr>"
  "blocking (s\<lparr>tk_stream := c\<rparr>) = (blocking s)\<lparr>fs_stream := c\<rparr>"
  "blocking (s\<lparr>tk_connected := b\<rparr>) = blocking s"
  "blocking (s\<lparr>tk_welcome := m\<rparr>) = blocking s"
  by (simp_all add: blocking_def)

lemma mirrored_update [simp]:
  "mirrored (s\<lparr>world := w\<rparr>) = mirrored s" "mirrored (s\<lparr>connection_usable := b\<rparr>) = mirrored s"
  "mirrored (s\<lparr>transfer_active := b\<rparr>) = mirrored s" "mirrored (s\<lparr>tk_locked := b\<rparr>) = mirrored s"
  by (simp_all add: mirrored_def)

lemma idle_blocking [simp]: "idle (blocking s) \<longleftrightarrow> \<not> tk_locked s"
  by (simp add: idle_def)

interpretation free: same_flags blocking released
  by unfold_locales (simp_all add: released_def)

interpretation locked: same_flags blocking held
  by unfold_locales (simp_all add: held_def)

definition listed :: "'c control \<Rightarrow> ('s, 'c) tokio_ftp_fs \<Rightarrow> bool" where
  "listed c s \<longleftrightarrow> held s \<and> tk_stream s = Some c \<and> \<not> transfer_active s"

interpretation listing: same_world exclusive "listed c" for c
  by unfold_locales (simp_all add: exclusive_def held_def listed_def)

section \<open>Code both clients share\<close>

text \<open>The helpers of the asynchronous client that only touch the flags are those of the other.\<close>

lemma shared_code:
  "tokio_mark_connection_unusable = mark_connection_unusable"
  "tokio_check_operation_state = check_operation_state"
  "tokio_record_ftp_error = record_ftp_error" "tokio_record_remote_error = record_remote_error"
  "tokio_start_transfer = start_transfer" "tokio_request_offset = request_offset"
  "tokio_finish_read_result = finish_read_result" "tokio_finish_write_result = finish_write_result"
  "tokio_finish_write = finish_write" "tokio_new_read_stream = new_read_stream"
  "tokio_new_write_stream = new_write_stream" "aggregate_skip_failure = skip_result"
  by (simp_all add: fun_eq_iff tokio_mark_connection_unusable_def mark_connection_unusable_def
      tokio_check_operation_state_def check_operation_state_def tokio_record_ftp_error_def
      record_ftp_error_def tokio_record_remote_error_def record_remote_error_def
      tokio_start_transfer_def start_transfer_def tokio_request_offset_def request_offset_def
      tokio_finish_read_result_def finish_read_result_def tokio_finish_write_result_def
      finish_write_result_def tokio_finish_write_def finish_write_def
      tokio_new_read_stream_def new_read_stream_def tokio_new_write_stream_def
      new_write_stream_def aggregate_skip_failure_def skip_result_def)

context same_world begin

lemma sim_mark [sim_intros]: "simulates mark_connection_unusable mark_connection_unusable"
  unfolding mark_connection_unusable_def by (rule sim_unusable)

lemma sim_record [sim_intros]:
  "simulates (record_ftp_error e) (record_ftp_error e)" "simulates (record_remote_error d) (record_remote_error d)"
  unfolding record_ftp_error_def record_remote_error_def by (intro sim_intros)+

lemma sim_on_error [sim_intros]:
  "(\<And>e. simulates (f e) (g e)) \<Longrightarrow> simulates (on_error f r) (on_error g r)"
  unfolding on_error_def by (intro sim_intros)

lemma sim_command [sim_intros]:
  "simulates (command op c) (command op c)" "simulates (data_command op2 c) (data_command op2 c)"
  unfolding command_def data_command_def by (intro sim_intros)+

lemma sim_recorded [sim_intros]: "simulates m n \<Longrightarrow> simulates (recorded m) (recorded n)"
  unfolding recorded_def by (intro sim_intros)

lemma sim_request_offset [sim_intros]: "simulates (request_offset F c n) (request_offset F c n)"
  unfolding request_offset_def
  by (auto intro!: sim_intros split: option.splits sum.splits FtpError.splits)

lemma sim_drop_stream [sim_intros]: "simulates (drop_stream F c) (drop_stream F c)"
  unfolding drop_stream_def by (rule sim_set_world)

lemma sim_or_drop [sim_intros]: "simulates m n \<Longrightarrow> simulates (or_drop F c m) (or_drop F c n)"
  unfolding or_drop_def by (intro sim_intros)

text \<open>A data command hands out a transfer no read of which is interrupted.\<close>

lemma data_command_calm:
  assumes "\<And>h w x b w'. op h w = ((x, b), w') \<Longrightarrow> Q x"
  shows "follows (data_command op c) (data_command op c) Q"
proof (rule followsI)
  fix s assume "J s"
  show "data_command op c (abs s) = map_option (map_prod id abs) (data_command op c s)"
    by (rule followsD(1) [OF sim_command(2) \<open>J s\<close>])
  fix x t assume d: "data_command op c s = Some (x, t)"
  have "J t" using followsD(2) [OF sim_command(2) \<open>J s\<close>, of op c] d by blast
  moreover have "Q x"
    using d assms by (auto simp: data_command_def run_seq run_on_world split: prod.splits option.splits if_splits)
  ultimately show "J t \<and> Q x" by simp
qed

lemma sim_read_list_bytes [sim_intros]:
  assumes "async_contract F"
  shows "simulates (tokio_read_list_bytes F c remote) (read_list_bytes F c remote)"
  unfolding tokio_read_list_bytes_def read_list_bytes_def
  apply (rule follows_seq [where P = "\<lambda>x. \<forall>resp tr. x = Inr (resp, tr) \<longrightarrow> lib_read_to_end F (tr_events tr) = read_to_end (tr_events tr)"])
  subgoal
    by (rule data_command_calm) (use contract_custom [OF assms] contract_read_to_end [OF assms] in blast)
  subgoal for x
    by (cases x) (auto intro!: sim_intros split: prod.splits)
  done

end

context same_flags begin

lemma sim_check [sim_intros]: "simulates check_operation_state check_operation_state"
  unfolding check_operation_state_def by (intro sim_intros)

lemma sim_start_transfer [sim_intros]: "simulates start_transfer start_transfer"
  unfolding start_transfer_def by (rule sim_set_active)

end

end
