(* ===== verification/Tokio_Guarded.thy ===== *)
theory Tokio_Guarded
  imports Tokio_Refines
begin

text \<open>
  From guards to locks: every asynchronous operation rewritten as a body between taking and
  completing one guard, and the refinement of such an operation by \<open>with_stream\<close>; then the raw
  listing, whose blocking counterpart takes the control stream out of the client.
\<close>

section \<open>One guarded operation\<close>

text \<open>
  Every asynchronous operation is the shared body of the blocking one between taking and
  completing a guard; that the guard is completed before or after an error is recorded makes no
  difference to an operation that runs alone.
\<close>

definition guarded ::
  "('c control \<Rightarrow> (('s, 'c) tokio_ftp_fs, remote_error + 'a) act) \<Rightarrow> (('s, 'c) tokio_ftp_fs, remote_error + 'a) act" where
  "guarded f =
     attempt lock_stream (\<lambda>g.
     seq guard_stream (\<lambda>c.
     seq (f c) (\<lambda>r.
     seq (on_error record_remote_error r) (\<lambda>_.
     seq tokio_unlock (\<lambda>_. ret r)))))"

lemma run_complete [run_simps]: "stream_guard_complete g s = Some ((), s\<lparr>tk_locked := False\<rparr>)"
  by (simp add: stream_guard_complete_def operation_complete_def drop_operation_def tokio_unlock_def run_seq)

lemma run_unlock [run_simps]: "tokio_unlock s = Some ((), s\<lparr>tk_locked := False\<rparr>)"
  by (simp add: tokio_unlock_def)

lemma run_marking [run_simps]:
  "mark_connection_unusable s = Some ((), s\<lparr>connection_usable := False\<rparr>)"
  "record_ftp_error e s = Some ((), if transfer_setup_requires_reconnect e then s\<lparr>connection_usable := False\<rparr> else s)"
  "record_remote_error d s = Some ((), if remote_error_requires_reconnect d then s\<lparr>connection_usable := False\<rparr> else s)"
  "start_transfer s = Some ((), s\<lparr>transfer_active := True\<rparr>)"
  by (simp_all add: mark_connection_unusable_def record_ftp_error_def record_remote_error_def start_transfer_def)

lemma run_on_error [run_simps]:
  "on_error f r s = (case r of Inl e \<Rightarrow> f e s | Inr x \<Rightarrow> Some ((), s))"
  by (simp add: on_error_def split: sum.splits)

lemma run_command_guarded: "run_command cmd = guarded (\<lambda>c. recorded (cmd c))"
  unfolding run_command_def guarded_def
  apply (rule ext, rule attempt_cong_run, rule seq_cong_run)
  by (auto simp: shared_code recorded_def run_simps split: option.splits sum.splits)

lemma tokio_exec_guarded:
  "tokio_exec F cmd =
     attempt (guarded (\<lambda>c.
       seq (command (\<lambda>h. lib_site F h cmd) c) (\<lambda>r. ret (map_err ftp_error r)))) (\<lambda>response.
     ok \<lparr> eo_status = lib_status_code F (status response),
          eo_output = from_utf8_lossy (body response) \<rparr>)"
  unfolding tokio_exec_def guarded_def attempt_assoc attempt_seq
  apply (rule ext, rule attempt_cong_run, rule seq_cong_run)
  by (auto simp: shared_code run_simps Let_def split: option.splits sum.splits)

lemma run_tokio_restart:
  "tokio_restart F g c offset s =
     (case (if offset > 0 then request_offset F c offset else ok False) s of
        None \<Rightarrow> None
      | Some (Inl e, t) \<Rightarrow>
          Some (Inl e, (if remote_error_requires_reconnect e then t\<lparr>connection_usable := False\<rparr> else t)\<lparr>tk_locked := False\<rparr>)
      | Some (Inr b, t) \<Rightarrow> Some (Inr b, t))"
  unfolding tokio_restart_def shared_code by (simp add: run_simps split: option.splits sum.splits)

lemma run_tokio_retry:
  "tokio_retry_from_start F g c remote resumed result s =
     (case retry_from_start F c remote resumed result s of
        None \<Rightarrow> None
      | Some (Inl e, t) \<Rightarrow> Some (Inl e, t\<lparr>tk_locked := False\<rparr>)
      | Some (Inr b, t) \<Rightarrow> Some (Inr b, t))"
  unfolding tokio_retry_from_start_def shared_code retry_from_start_def
  by (simp add: run_simps split: option.splits sum.splits prod.splits)

lemma retry_failed_unusable:
  "retry_from_start F c remote resumed result s = Some (Inl e, t) \<Longrightarrow> t\<lparr>connection_usable := False\<rparr> = t"
  unfolding retry_from_start_def
  by (auto simp: run_simps split: option.splits sum.splits prod.splits if_splits)

lemma data_command_total: "\<exists>r t. data_command op c s = Some (r, t)"
  by (cases "op (ctl_handle c) (world s)")
    (auto simp: data_command_def run_seq run_on_world run_marking)

text \<open>The bodies of \<open>open\<close>, from the marker to the moment the mutex is free again.\<close>

lemma open_body:
  "attempt (tokio_restart F g c offset) (\<lambda>resumed.
     seq (data_command (\<lambda>h. lib_retr F h remote) c) (\<lambda>result.
     attempt (tokio_retry_from_start F g c remote resumed result) (\<lambda>(resumed, result).
     seq (on_error record_ftp_error result) (\<lambda>_.
     case result of
       Inl err \<Rightarrow> seq (stream_guard_complete g) (\<lambda>_. k (Inl err))
     | Inr transfer \<Rightarrow>
         seq start_transfer (\<lambda>_. seq (stream_guard_complete g) (\<lambda>_. k (Inr (transfer, resumed)))))))) s
   = seq (start_download F remote offset c) (\<lambda>r.
     seq (on_error record_remote_error r) (\<lambda>_.
     seq tokio_unlock (\<lambda>_. attempt (ret r) k))) s"
  (is "?lhs = ?rhs")
proof (cases "(if offset > 0 then request_offset F c offset else ok False) s")
  case None
  then show ?thesis
    by (simp add: run_attempt run_seq start_download_def run_tokio_restart)
next
  case (Some p)
  show ?thesis
  proof (cases p)
    case (Pair r t)
    show ?thesis
    proof (cases r)
      case (Inl e)
      with Some Pair show ?thesis
        by (simp add: run_attempt run_seq start_download_def run_tokio_restart run_on_error run_marking run_unlock)
    next
      case (Inr resumed)
      obtain result u where d: "data_command (\<lambda>h. lib_retr F h remote) c t = Some (result, u)"
        using data_command_total [of "\<lambda>h. lib_retr F h remote" c t] by blast
      show ?thesis
      proof (cases "retry_from_start F c remote resumed result u")
        case None
        with Some Pair Inr d show ?thesis
          by (simp add: run_attempt run_seq start_download_def run_tokio_restart run_tokio_retry)
      next
        case retry: (Some q)
        show ?thesis
        proof (cases q)
          case q: (Pair x v)
          show ?thesis
          proof (cases x)
            case (Inl e)
            have "v\<lparr>connection_usable := False\<rparr> = v" using retry q Inl retry_failed_unusable by blast
            with Inl q retry Some Pair Inr d show ?thesis
              by (simp add: run_attempt run_seq start_download_def run_tokio_restart run_tokio_retry
                  run_on_error run_marking run_unlock)
          next
            case x: (Inr y)
            obtain resumed' result' where y: "y = (resumed', result')" by (cases y)
            with x q retry Some Pair Inr d show ?thesis
              by (cases result')
                (simp_all add: run_attempt run_seq start_download_def run_tokio_restart run_tokio_retry
                  run_on_error run_marking run_unlock run_complete)
          qed
        qed
      qed
    qed
  qed
qed

lemma tokio_open_guarded:
  "tokio_open F path opts =
     attempt (ret (remote_path (lib_ensure F) path)) (\<lambda>remote.
     let offset = offset_of opts in
     attempt (guarded (start_download F remote offset)) (\<lambda>transfer_result.
     case transfer_result of
       Inl err \<Rightarrow> seq (tokio_classify_file_refusal F path err) raise
     | Inr (transfer, resumed) \<Rightarrow>
         let reader = new_read_stream transfer (ro_length opts) in
         if offset > 0 \<and> \<not> resumed then tokio_skip_locally F reader offset
         else ok reader))"
  unfolding tokio_open_def guarded_def Let_def attempt_assoc attempt_seq
  apply (rule ext, rule attempt_cong_run, rule attempt_cong_run, rule seq_cong_run)
  subgoal for s remote s1 g s2 c s3
    using open_body [of F g c "offset_of opts" remote "\<lambda>transfer_result. case transfer_result of
       Inl err \<Rightarrow> seq (tokio_classify_file_refusal F path err) raise
     | Inr (transfer, resumed) \<Rightarrow>
         if offset_of opts > 0 \<and> \<not> resumed then tokio_skip_locally F (new_read_stream transfer (ro_length opts)) (offset_of opts)
         else ok (new_read_stream transfer (ro_length opts))" s3]
    by (simp only: shared_code sum.case prod.case)
  done

lemma run_start_upload:
  "start_upload op c s =
     (case data_command op c s of None \<Rightarrow> None
      | Some (Inl e, t) \<Rightarrow>
          Some (Inr (Inl e), if transfer_setup_requires_reconnect e then t\<lparr>connection_usable := False\<rparr> else t)
      | Some (Inr x, t) \<Rightarrow> Some (Inr (Inr x), t\<lparr>transfer_active := True\<rparr>))"
  unfolding start_upload_def by (simp add: run_simps split: option.splits sum.splits)

lemma upload_body:
  "seq (data_command op c) (\<lambda>result.
     seq (on_error record_ftp_error result) (\<lambda>_.
     case result of
       Inl err \<Rightarrow> seq (stream_guard_complete g) (\<lambda>_. k (Inl err))
     | Inr transfer \<Rightarrow>
         seq start_transfer (\<lambda>_. seq (stream_guard_complete g) (\<lambda>_. k (Inr transfer))))) s
   = seq (start_upload op c) (\<lambda>r.
     seq (on_error record_remote_error r) (\<lambda>_.
     seq tokio_unlock (\<lambda>_. attempt (ret r) k))) s"
  using data_command_total [of op c s]
  by (elim exE; rename_tac r t; case_tac r)
    (simp_all add: run_seq run_start_upload run_on_error run_marking run_complete run_unlock)

lemma tokio_upload_guarded:
  "tokio_create F path opts =
     attempt (ret (remote_path (lib_ensure F) path)) (\<lambda>remote.
     attempt (guarded (start_upload (\<lambda>h. lib_put F h remote))) (\<lambda>transfer_result.
     case transfer_result of
       Inl err \<Rightarrow> seq (tokio_classify_create_refusal F path err) raise
     | Inr transfer \<Rightarrow> ok (new_write_stream transfer)))"
  "tokio_append F path opts =
     attempt (ret (remote_path (lib_ensure F) path)) (\<lambda>remote.
     attempt (guarded (start_upload (\<lambda>h. lib_append F h remote))) (\<lambda>transfer_result.
     case transfer_result of
       Inl err \<Rightarrow> seq (tokio_classify_create_refusal F path err) raise
     | Inr transfer \<Rightarrow> ok (new_write_stream transfer)))"
  unfolding tokio_create_def tokio_append_def guarded_def attempt_assoc attempt_seq
  by (rule ext, rule attempt_cong_run, rule attempt_cong_run, rule seq_cong_run;
      simp only: shared_code upload_body [where k = "\<lambda>transfer_result. case transfer_result of
       Inl err \<Rightarrow> seq (tokio_classify_create_refusal F path err) raise
     | Inr transfer \<Rightarrow> ok (new_write_stream transfer)", unfolded sum.case])+

section \<open>Guards refine locks\<close>

definition refused :: "('s, 'c) tokio_ftp_fs \<Rightarrow> remote_error option" where
  "refused s = refusal (blocking s)"

lemma run_lock_stream:
  "\<not> tk_locked s \<Longrightarrow> lock_stream s =
     (case refused s of
        Some e \<Rightarrow> Some (Inl e, s)
      | None \<Rightarrow> Some (Inr \<lparr> og_completed = False \<rparr>, s\<lparr>tk_locked := True\<rparr>))"
  by (auto simp: lock_stream_def tokio_lock_def shared_code run_seq run_check refused_def refusal_def
      tokio_unlock_def)

lemma refused_None: "refused s = None \<Longrightarrow> \<exists>c. tk_stream s = Some c"
  using refusal_None [of "blocking s"] by (simp add: refused_def)

lemma run_guarded:
  assumes "\<not> tk_locked s" "refused s = None" "tk_stream s = Some c"
  shows "guarded f s =
     (case f c (s\<lparr>tk_locked := True\<rparr>) of None \<Rightarrow> None
      | Some (r, t) \<Rightarrow> Some (r, (case r of
          Inl e \<Rightarrow> if remote_error_requires_reconnect e then t\<lparr>connection_usable := False\<rparr> else t
        | Inr _ \<Rightarrow> t)\<lparr>tk_locked := False\<rparr>))"
  using assms
  by (auto simp: guarded_def run_attempt run_lock_stream guard_stream_def run_simps split: option.splits sum.splits)

lemma guarded_follows:
  assumes f: "\<And>c. locked.follows (f c) (g c) Q"
    and e: "Q (Inl busy_error)" "Q (Inl unusable_error)" "Q (Inl (new_error KNotConnected))"
  shows "free.follows (guarded f) (with_stream g) Q"
proof (rule free.followsI)
  fix s :: "('b, 'a) tokio_ftp_fs" assume s: "released s"
  then have i: "idle (blocking s)" by (simp add: released_def)
  have "with_stream g (blocking s) = map_option (map_prod id blocking) (guarded f s)
     \<and> (\<forall>x t. guarded f s = Some (x, t) \<longrightarrow> released t \<and> Q x)"
  proof (cases "refused s")
    case (Some d)
    then have "guarded f s = Some (Inl d, s)" using s by (simp add: guarded_def run_attempt run_lock_stream released_def)
    moreover have "with_stream g (blocking s) = Some (Inl d, blocking s)"
      using with_stream_refused [OF i, of d g] Some by (simp add: refused_def)
    ultimately show ?thesis using s Some gate_errors [OF e, of "blocking s" d] by (auto simp: refused_def)
  next
    case None
    then obtain c where c: "tk_stream s = Some c" using refused_None by blast
    have h: "held (s\<lparr>tk_locked := True\<rparr>)" using s by (simp add: held_def released_def)
    have g: "g c ((blocking s)\<lparr>fs_locked := True\<rparr>)
        = map_option (map_prod id blocking) (f c (s\<lparr>tk_locked := True\<rparr>))"
      using locked.followsD(1) [OF f h] by simp
    have r: "guarded f s = (case f c (s\<lparr>tk_locked := True\<rparr>) of None \<Rightarrow> None
      | Some (r, t) \<Rightarrow> Some (r, (case r of
          Inl e \<Rightarrow> if remote_error_requires_reconnect e then t\<lparr>connection_usable := False\<rparr> else t
        | Inr _ \<Rightarrow> t)\<lparr>tk_locked := False\<rparr>))"
      using s None c by (intro run_guarded) (simp_all add: released_def)
    have w: "with_stream g (blocking s) = (case g c ((blocking s)\<lparr>fs_locked := True\<rparr>) of None \<Rightarrow> None
      | Some (r, t) \<Rightarrow> Some (r, (noted r t)\<lparr>fs_locked := False\<rparr>))"
      using with_stream_admitted [OF i, of c g] None c by (simp add: refused_def)
    show ?thesis
    proof (cases "f c (s\<lparr>tk_locked := True\<rparr>)")
      case (Some p)
      obtain x t where p: "p = (x, t)" by (cases p)
      from locked.followsD(2) [OF f h] Some p have "held t" "Q x" by auto
      then show ?thesis unfolding r w g using Some p
        by (cases x) (auto simp: noted_def released_def held_def)
    qed (simp add: r w g)
  qed
  then show "with_stream g (blocking s) = map_option (map_prod id blocking) (guarded f s)"
    "\<And>x t. guarded f s = Some (x, t) \<Longrightarrow> released t \<and> Q x" by auto
qed

lemma guarded_simulates [sim_intros]:
  "(\<And>c. locked.simulates (f c) (g c)) \<Longrightarrow> free.simulates (guarded f) (with_stream g)"
  by (rule guarded_follows) simp_all

text \<open>A failed listing that calls for a reconnect says so itself.\<close>

lemma read_list_bytes_reports:
  "inner.meets (read_list_bytes F c remote)
     (\<lambda>(r, rr). \<forall>e. r = Inl e \<longrightarrow> remote_error_requires_reconnect e \<longrightarrow> rr)"
  unfolding read_list_bytes_def
  apply (rule inner.meets_seq [OF inner.framed_meets [OF inner_command(2)]])
  subgoal for r
    by (cases r) (auto intro!: inner.meets_ret inner.meets_seq [OF inner.framed_meets] inner_on_world
        simp: Let_def split: prod.splits sum.splits)
  done

text \<open>A listing that keeps its lock refines one that takes the stream out.\<close>

lemma exclusive_taken: "\<not> tk_locked s \<Longrightarrow> exclusive (s\<lparr>tk_locked := True\<rparr>) = taken (blocking s)"
  by (cases s) (simp add: exclusive_def taken_def blocking_def)

lemma put_back_exclusive:
  "listed c t \<Longrightarrow> put_back c (exclusive t) = blocking (t\<lparr>tk_locked := False\<rparr>)"
  by (cases t) (simp add: exclusive_def put_back_def blocking_def listed_def)

lemma listing_run:
  assumes F: "async_contract F" and s: "released s" "refused s = None" "tk_stream s = Some c"
  obtains r rr t where "tokio_read_list_bytes F c remote (s\<lparr>tk_locked := True\<rparr>) = Some ((r, rr), t)"
    and "listed c t"
    and "read_list_bytes F c remote (taken (blocking s)) = Some ((r, rr), exclusive t)"
    and "\<And>e. r = Inl e \<Longrightarrow> remote_error_requires_reconnect e \<Longrightarrow> rr"
proof -
  have l: "listed c (s\<lparr>tk_locked := True\<rparr>)"
    using s by (auto simp: listed_def held_def released_def refused_def refusal_def split: if_splits)
  have n: "\<not> tk_locked s" using s(1) by (simp add: released_def)
  obtain p u where p: "read_list_bytes F c remote (taken (blocking s)) = Some (p, u)"
      "case p of (r, rr) \<Rightarrow> \<forall>e. r = Inl e \<longrightarrow> remote_error_requires_reconnect e \<longrightarrow> rr"
    using inner.meetsE [OF read_list_bytes_reports [of F c remote], of "taken (blocking s)"]
    by blast
  have "read_list_bytes F c remote (taken (blocking s))
      = map_option (map_prod id exclusive) (tokio_read_list_bytes F c remote (s\<lparr>tk_locked := True\<rparr>))"
    using listing.followsD(1) [OF listing.sim_read_list_bytes [OF F] l, of c remote] exclusive_taken [OF n] by simp
  with p(1) obtain t where t: "tokio_read_list_bytes F c remote (s\<lparr>tk_locked := True\<rparr>) = Some (p, t)"
    "u = exclusive t" by auto
  moreover have "listed c t"
    using listing.followsD(2) [OF listing.sim_read_list_bytes [OF F] l, of c remote] t(1) by auto
  ultimately show thesis using p that [of "fst p" "snd p" t] by (auto simp: split_def)
qed

lemma list_dir_raw_simulates [sim_intros]:
  assumes "async_contract F"
  shows "free.simulates (tokio_list_dir_raw F path remote) (list_dir_raw F path remote)"
proof -
  have main: "list_dir_raw F path remote (blocking s) = map_option (map_prod id blocking) (tokio_list_dir_raw F path remote s)
     \<and> (\<forall>x t. tokio_list_dir_raw F path remote s = Some (x, t) \<longrightarrow> released t)"
    if s: "released s" for s :: "('a, 'b) tokio_ftp_fs"
  proof (cases "refused s")
    case (Some d)
    have i: "idle (blocking s)" using s by (simp add: released_def)
    from Some s show ?thesis
      using with_exclusive_refused [OF i, of d "\<lambda>c. seq (read_list_bytes F c remote) (\<lambda>(result, requires_reconnect).
       seq (if requires_reconnect then mark_connection_unusable else ret ()) (\<lambda>_. ret result))"]
      by (simp add: tokio_list_dir_raw_def list_dir_raw_def run_attempt run_lock_stream released_def refused_def)
  next
    case None
    then obtain c where c: "tk_stream s = Some c" using refused_None by blast
    have i: "idle (blocking s)" "\<not> tk_locked s" using s by (simp_all add: released_def)
    from listing_run [OF assms s None c, of remote] obtain r rr t where
      t: "tokio_read_list_bytes F c remote (s\<lparr>tk_locked := True\<rparr>) = Some ((r, rr), t)" "listed c t"
      "read_list_bytes F c remote (taken (blocking s)) = Some ((r, rr), exclusive t)"
      "\<And>e. r = Inl e \<Longrightarrow> remote_error_requires_reconnect e \<Longrightarrow> rr" by metis
    let ?t = "if rr then t\<lparr>connection_usable := False\<rparr> else t"
    let ?f = "\<lambda>c. seq (read_list_bytes F c remote) (\<lambda>(result, requires_reconnect).
       seq (if requires_reconnect then mark_connection_unusable else ret ()) (\<lambda>_. ret result))"
    have l: "listed c ?t" using t(2) by (simp add: listed_def held_def)
    have f: "?f c (taken (blocking s)) = Some (r, exclusive ?t)"
      using t(3) by (simp add: run_seq run_marking exclusive_def)
    have "with_exclusive_stream ?f (blocking s)
        = (case ?f c (taken (blocking s)) of None \<Rightarrow> None | Some (r, t) \<Rightarrow> Some (r, put_back c (noted r t)))"
      by (rule with_exclusive_admitted) (use i None c f in \<open>auto simp: refused_def exclusive_def idle_def\<close>)
    also have "\<dots> = Some (r, put_back c (exclusive ?t))"
      unfolding f using t(4) by (auto simp: noted_def listing.abs_set_usable [symmetric] split: sum.splits)
    finally have w: "with_exclusive_stream ?f (blocking s) = Some (r, blocking (?t\<lparr>tk_locked := False\<rparr>))"
      by (simp only: put_back_exclusive [OF l])
    have swap: "t\<lparr>tk_locked := False, connection_usable := False\<rparr> = t\<lparr>connection_usable := False, tk_locked := False\<rparr>"
      by (cases t) simp
    have k: "tokio_list_dir_raw F path remote s = attempt (ret r) (\<lambda>bytes.
       case decode_list_bytes bytes of
         Inl e \<Rightarrow> raise (ftp_error e)
       | Inr lines \<Rightarrow> expect (parse_list_lines (lib_rows F) path lines)) (?t\<lparr>tk_locked := False\<rparr>)"
      using t(1) None c i
      by (simp add: tokio_list_dir_raw_def run_attempt [of lock_stream] run_lock_stream run_seq guard_stream_def
          run_complete shared_code run_marking swap)
    have "released (?t\<lparr>tk_locked := False\<rparr>)" using l by (simp add: listed_def held_def released_def)
    then show ?thesis unfolding k list_dir_raw_def using w
      by (auto simp: run_attempt expect_def split: sum.splits option.splits)
  qed
  then show ?thesis by (intro free.followsI) auto
qed

end
