(* ===== verification/Tokio_Sim.thy ===== *)
theory Tokio_Sim
  imports Tokio_Guarded
begin

text \<open>
  Every lookup, command and transfer of the asynchronous client follows its blocking counterpart,
  and so do finishing a stream and skipping a prefix.
\<close>

section \<open>Probes\<close>

lemma sim_ancestor_loop:
  assumes "async_contract F"
  shows "free.simulates (tokio_ancestor_loop F n path) (ancestor_loop F n path)"
proof (induction n arbitrary: path)
  case (Suc n)
  show ?case unfolding ancestor_loop.simps tokio_ancestor_loop.simps
    by (intro sim_intros Suc assms)
qed (simp add: sim_intros)

lemma sim_list_or [sim_intros]:
  assumes "async_contract F"
  shows "free.simulates (tokio_list_or_prove_absent F path remote) (list_or_prove_absent F path remote)"
  unfolding tokio_list_or_prove_absent_def list_or_prove_absent_def
    tokio_ancestor_proves_absent_def ancestor_proves_absent_def
  by (intro sim_intros sim_ancestor_loop assms)

lemma root_guarded:
  "attempt lock_stream (\<lambda>g. seq (stream_guard_complete g) (\<lambda>_. ok x)) = guarded (\<lambda>_. ok x)"
  unfolding guarded_def
  by (rule ext, rule attempt_cong_run)
    (auto simp: run_simps guard_stream_def lock_stream_def tokio_lock_def shared_code run_check
      split: if_splits)

lemma sim_stat [sim_intros]:
  assumes F: "async_contract F"
  shows "free.simulates (tokio_stat F path) (stat F path)"
proof (induction "length path" arbitrary: path rule: less_induct)
  case less
  show ?case
  proof (cases "parent path")
    case None
    then show ?thesis
      by (subst tokio_stat.simps, subst stat.simps)
        (auto simp: root_guarded intro!: sim_intros F)
  next
    case (Some q)
    then have IH: "free.simulates (tokio_stat F q) (stat F q)" by (simp add: less parent_shorter)
    from Some show ?thesis
      by (subst tokio_stat.simps, subst stat.simps)
        (auto simp: root_guarded intro!: sim_intros F IH)
  qed
qed

lemma sim_probes [sim_intros]:
  assumes "async_contract F"
  shows "free.simulates (tokio_stat_is_file F path) (stat_is_file F path)"
    and "free.simulates (tokio_exists F path) (exists F path)"
    and "free.simulates (tokio_destination_parent_is_missing F path) (destination_parent_is_missing F path)"
  unfolding tokio_stat_is_file_def stat_is_file_def tokio_exists_def exists_def
    tokio_destination_parent_is_missing_def destination_parent_is_missing_def
  by (intro sim_intros assms)+

lemma sim_list_dir [sim_intros]:
  assumes "async_contract F"
  shows "free.simulates (tokio_list_dir F path) (list_dir F path)"
  unfolding tokio_list_dir_def list_dir_def by (intro sim_intros assms)

section \<open>Refusals and commands\<close>

lemma sim_classify [sim_intros]:
  assumes "async_contract F"
  shows "free.simulates (tokio_classify_file_refusal F path err) (classify_file_refusal F path err)"
    and "free.simulates (tokio_classify_create_refusal F path err) (classify_create_refusal F path err)"
    and "free.simulates (tokio_classify_remove_dir_refusal F path err) (classify_remove_dir_refusal F path err)"
    and "free.simulates (tokio_classify_create_dir_refusal F path err) (classify_create_dir_refusal F path err)"
    and "free.simulates (tokio_classify_rename_refusal F path dest err) (classify_rename_refusal F path dest err)"
  unfolding tokio_classify_file_refusal_def classify_file_refusal_def
    tokio_classify_create_refusal_def classify_create_refusal_def
    tokio_classify_remove_dir_refusal_def classify_remove_dir_refusal_def
    tokio_classify_create_dir_refusal_def classify_create_dir_refusal_def
    tokio_classify_rename_refusal_def classify_rename_refusal_def
  by (intro sim_intros assms)+

lemma creation_refusal_case:
  "(case e of
      UnexpectedResponse response \<Rightarrow>
        if status response \<in> {FileUnavailable, BadFilename} then x else y
    | _ \<Rightarrow> y) = (if is_creation_refusal e then x else y)"
  by (cases e) auto

text \<open>The blocking \<open>remove_dir\<close> records its error a second time, to no effect.\<close>

lemma already_unusable: "\<not> connection_usable t \<Longrightarrow> t\<lparr>connection_usable := False\<rparr> = t"
  by (cases t) simp

lemma recorded_twice:
  "attempt (with_stream (\<lambda>c. recorded (m c))) (\<lambda>result. case result of
       Inr x \<Rightarrow> k x | Inl err \<Rightarrow> seq (record_ftp_error err) (\<lambda>_. l err)) s
   = attempt (with_stream (\<lambda>c. recorded (m c))) (\<lambda>result. case result of Inr x \<Rightarrow> k x | Inl err \<Rightarrow> l err) s"
proof (rule attempt_cong_run)
  fix result t assume "with_stream (\<lambda>c. recorded (m c)) s = Some (Inr result, t)"
  then have "connection_usable t \<longrightarrow> \<not> transfer_setup_requires_reconnect e" if "result = Inl e" for e
    using that
    by (auto simp: with_stream_def with_lock_def run_simps recorded_def run_check split: option.splits sum.splits if_splits
        prod.splits)
  then show "(case result of Inr x \<Rightarrow> k x | Inl err \<Rightarrow> seq (record_ftp_error err) (\<lambda>_. l err)) t
     = (case result of Inr x \<Rightarrow> k x | Inl err \<Rightarrow> l err) t"
    by (cases result) (auto simp: run_simps already_unusable)
qed

lemma remove_dir_once:
  "remove_dir F path =
     attempt (ret (remote_path (lib_ensure F) path)) (\<lambda>remote.
     attempt (with_stream (\<lambda>c. recorded (command (\<lambda>h. lib_rmdir F h remote) c))) (\<lambda>result.
     case result of
       Inr _ \<Rightarrow> ok ()
     | Inl err \<Rightarrow> seq (classify_remove_dir_refusal F path err) raise))"
  unfolding remove_dir_def by (rule ext, rule attempt_cong_run) (rule recorded_twice)

lemma sim_commands [sim_intros]:
  assumes "async_contract F"
  shows "free.simulates (tokio_set_metadata F path md) (set_metadata F path md)"
    and "free.simulates (tokio_create_dir F path mode) (create_dir F path mode)"
    and "free.simulates (tokio_remove_file F path) (remove_file F path)"
    and "free.simulates (tokio_rename F path dest) (rename F path dest)"
    and "free.simulates (tokio_copy F path dest) (copy F path dest)"
    and "free.simulates (tokio_symlink F path dest) (symlink F path dest)"
    and "free.simulates (tokio_exec F cmd) (exec F cmd)"
  unfolding tokio_set_metadata_def set_metadata_def tokio_create_dir_def create_dir_def
    tokio_remove_file_def remove_file_def tokio_rename_def rename_def tokio_copy_def copy_def
    tokio_symlink_def symlink_def tokio_exec_guarded exec_def run_command_guarded creation_refusal_case
  by (intro sim_intros assms)+

lemma sim_remove_dir [sim_intros]:
  assumes "async_contract F"
  shows "free.simulates (tokio_remove_dir F path) (remove_dir F path)"
  unfolding tokio_remove_dir_def run_command_guarded remove_dir_once
  by (intro sim_intros assms)

section \<open>Transfers\<close>

context same_flags begin

lemma sim_start_upload [sim_intros]: "simulates (start_upload op c) (start_upload op c)"
  unfolding start_upload_def by (intro sim_intros)

lemma sim_finish_write [sim_intros]: "simulates (finish_write F inner) (finish_write F inner)"
  unfolding finish_write_def by (intro sim_intros)

lemma retry_calm:
  assumes "async_contract F" "\<And>tr. result = Inr tr \<Longrightarrow> calm (tr_events tr)"
  shows "follows (retry_from_start F c remote resumed result) (retry_from_start F c remote resumed result)
     (\<lambda>r. \<forall>b tr. r = Inr (b, Inr tr) \<longrightarrow> calm (tr_events tr))"
proof -
  have again: "follows (data_command (\<lambda>h. lib_retr F h remote) c) (data_command (\<lambda>h. lib_retr F h remote) c)
     (\<lambda>r. \<forall>tr. r = Inr tr \<longrightarrow> calm (tr_events tr))"
    by (rule data_command_calm) (use contract_retr [OF assms(1)] in blast)
  show ?thesis
  proof (cases result)
    case (Inl e)
    then show ?thesis
      unfolding retry_from_start_def
      by (auto intro!: follows_ret follows_seq [OF sim_command(1)] follows_seq [OF again] follows_seq [OF sim_mark]
          simp: ok_def raise_def split: sum.split)
  qed (use assms(2) in \<open>auto simp: retry_from_start_def ok_def intro!: follows_ret\<close>)
qed

lemma start_download_calm:
  assumes "async_contract F"
  shows "follows (start_download F remote offset c) (start_download F remote offset c)
     (\<lambda>r. \<forall>tr b. r = Inr (Inr (tr, b)) \<longrightarrow> calm (tr_events tr))"
proof -
  have first: "follows (data_command (\<lambda>h. lib_retr F h remote) c) (data_command (\<lambda>h. lib_retr F h remote) c)
     (\<lambda>r. \<forall>tr. r = Inr tr \<longrightarrow> calm (tr_events tr))"
    by (rule data_command_calm) (use contract_retr [OF assms(1)] in blast)
  have marker: "simulates (if offset > 0 then request_offset F c offset else ok False)
      (if offset > 0 then request_offset F c offset else ok False)" by (intro sim_intros)
  have last: "follows (seq (on_error record_ftp_error result) (\<lambda>_.
     case result of
       Inl err \<Rightarrow> ok (Inl err)
     | Inr transfer \<Rightarrow> seq start_transfer (\<lambda>_. ok (Inr (transfer, resumed)))))
    (seq (on_error record_ftp_error result) (\<lambda>_.
     case result of
       Inl err \<Rightarrow> ok (Inl err)
     | Inr transfer \<Rightarrow> seq start_transfer (\<lambda>_. ok (Inr (transfer, resumed)))))
     (\<lambda>r :: remote_error + (_ \<times> bool) outcome. \<forall>tr b. r = Inr (Inr (tr, b)) \<longrightarrow> calm (tr_events tr))"
    if "\<forall>tr. result = Inr tr \<longrightarrow> calm (tr_events tr)" for result resumed
    using that
    by (cases result) (auto intro!: follows_seq [OF sim_on_error] follows_seq [OF sim_start_transfer] follows_ret sim_intros simp: ok_def)
  show ?thesis
    unfolding start_download_def attempt_def
    apply (rule follows_seq [OF marker])
    subgoal for r
      apply (cases r)
      subgoal by (simp add: raise_def follows_ret)
      subgoal for resumed
        apply (simp only: sum.case)
        apply (rule follows_seq [OF first])
        subgoal for result
          apply (rule follows_seq [OF retry_calm [OF assms]], blast)
          subgoal for q
            apply (cases q)
            subgoal by (simp add: raise_def follows_ret)
            subgoal for p
              apply (cases p)
              apply hypsubst
              apply (simp only: sum.case prod.case)
              apply (rule last, simp)
              done
            done
          done
        done
      done
    done
qed

text \<open>Finishing and skipping read a script; on a calm one both clients read alike.\<close>

lemma sim_tokio_finish_read:
  assumes "async_contract F" "calm (tr_events inner)"
  shows "simulates (tokio_finish_read F inner at_eof) (finish_read F inner at_eof)"
  using contract_copy [OF assms, of None]
  unfolding tokio_finish_read_def finish_read_def tokio_drain_def drain_def shared_code
  by (cases at_eof) (auto intro!: sim_intros split: prod.split)

end

definition calm_stream :: "'t read_stream \<Rightarrow> bool" where
  "calm_stream rd \<longleftrightarrow> (\<forall>inner. rd_inner rd = Some inner \<longrightarrow> calm (tr_events inner))"

lemma calm_stream_new: "calm (tr_events tr) \<Longrightarrow> calm_stream (new_read_stream tr len)"
  by (simp add: calm_stream_def new_read_stream_def)

lemma calm_read: "calm es \<Longrightarrow> calm (snd (script_read n es))"
  by (induction n es rule: script_read.induct) (auto simp: calm_def)

lemma calm_copy: "calm es \<Longrightarrow> calm (snd (io_copy limit es))"
proof (induction "script_size es" arbitrary: limit es rule: less_induct)
  case less
  define n where "n = (case limit of None \<Rightarrow> copy_buffer | Some l \<Rightarrow> min l copy_buffer)"
  obtain r es' where r: "script_read n es = (r, es')" by force
  with calm_read [OF less(2), of n] have c: "calm es'" by simp
  have IH: "calm rest" if "script_size es' < script_size es" "io_copy k es' = (x, rest)" for k x rest
    using less(1) [OF that(1) c, of k] that(2) by simp
  have IH': "calm (snd (io_copy k es'))" if "script_size es' < script_size es" for k
    using less(1) [OF that c] .
  show ?case
    using less(2) c IH IH' script_read_size [of n es] r
    by (cases r; subst io_copy.simps)
      (auto simp: n_def [symmetric] split: sum.splits prod.splits option.splits)
qed

text \<open>After its transfer was taken, dropping a stream only releases its guard.\<close>

lemma drop_finished:
  "drop_read_stream F (rd\<lparr>rd_inner := None\<rparr>) = guard_drop"
  "tokio_drop_read_stream F (rd\<lparr>rd_inner := None\<rparr>) = guard_drop"
  "drop_write_stream F (wr\<lparr>wr_inner := None\<rparr>) = guard_drop"
  "tokio_drop_write_stream F (wr\<lparr>wr_inner := None\<rparr>) = guard_drop"
  by (simp_all add: fun_eq_iff drop_read_stream_def tokio_drop_read_stream_def drop_write_stream_def tokio_drop_write_stream_def)

lemmas finish_steps = tokio_read_stream_finish_def read_stream_finish_def tokio_finish_after_skip_def
  finish_after_skip_def tokio_finish_inner_def finish_inner_def seq_assoc seq_ret prod.case drop_finished

context same_world begin

lemma follows_expect: "follows (expect v) (expect v) (\<lambda>x. v = Some x)"
  by (rule followsI) (auto simp: expect_def split: option.splits)

end

context same_flags begin

lemma sim_read_finish [sim_intros]:
  assumes "async_contract F" "calm_stream rd"
  shows "simulates (tokio_read_stream_finish F rd) (read_stream_finish F rd)"
    and "simulates (tokio_finish_after_skip F rd skip) (finish_after_skip F rd skip)"
proof -
  have f: "simulates (tokio_finish_read F inner at_eof) (finish_read F inner at_eof)"
    if "rd_inner rd = Some inner" for inner at_eof
    using sim_tokio_finish_read [OF assms(1)] assms(2) that by (simp add: calm_stream_def)
  show "simulates (tokio_read_stream_finish F rd) (read_stream_finish F rd)"
    "simulates (tokio_finish_after_skip F rd skip) (finish_after_skip F rd skip)"
    unfolding finish_steps shared_code
    by (rule follows_seq [OF follows_expect]; intro sim_intros f; assumption)+
qed

lemma sim_write_finish [sim_intros]:
  "simulates (tokio_write_stream_finish F wr) (write_stream_finish F wr)"
  unfolding tokio_write_stream_finish_def write_stream_finish_def shared_code drop_finished
  by (intro sim_intros)

lemma skip_prefix_follows:
  assumes "async_contract F" "calm_stream rd"
  shows "follows (tokio_skip_prefix F rd offset) (skip_prefix F rd offset) (\<lambda>(r, reader). calm_stream reader)"
  unfolding tokio_skip_prefix_def skip_prefix_def
proof (rule follows_seq [OF follows_expect], goal_cases)
  case (1 inner)
  with assms(2) have c: "calm (tr_events inner)" by (simp add: calm_stream_def)
  obtain r rest where r: "io_copy (Some (unat offset)) (tr_events inner) = (r, rest)" by force
  with calm_copy [OF c, of "Some (unat offset)"] have "calm rest" by simp
  then show ?case
    unfolding contract_copy [OF assms(1) c] r prod.case Let_def
    by (cases r) (simp_all add: follows_ret calm_stream_def)
qed

lemma sim_skip [sim_intros]:
  assumes "async_contract F" "calm_stream rd"
  shows "simulates
     (seq (tokio_skip_prefix F rd offset) (\<lambda>(r, reader).
       case r of Inl skip \<Rightarrow> seq (tokio_finish_after_skip F reader skip) raise | Inr _ \<Rightarrow> ok reader))
     (seq (skip_prefix F rd offset) (\<lambda>(r, reader).
       case r of Inl skip \<Rightarrow> seq (finish_after_skip F reader skip) raise | Inr _ \<Rightarrow> ok reader))"
proof (rule follows_seq [OF skip_prefix_follows [OF assms]], goal_cases)
  case (1 x)
  then show ?case by (cases x) (simp only: prod.case, intro sim_intros assms(1))
qed

end

lemma sim_open [sim_intros]:
  assumes "async_contract F"
  shows "free.simulates (tokio_open F path opts) (open_file F path opts)"
proof -
  have "free.follows (guarded (start_download F remote offset)) (with_stream (start_download F remote offset))
     (\<lambda>r. \<forall>tr b. r = Inr (Inr (tr, b)) \<longrightarrow> calm (tr_events tr))" for remote offset
    by (rule guarded_follows [OF locked.start_download_calm [OF assms]]) simp_all
  note start = free.follows_seq [OF this]
  show ?thesis
    unfolding tokio_open_guarded open_file_def Let_def tokio_skip_locally_def attempt_def [of "guarded m" for m]
      attempt_def [of "with_stream m" for m]
    apply (rule free.sim_attempt, rule sim_intros)
    apply (rule start)
    subgoal for remote r
      apply (cases r)
      subgoal by (simp only: sum.case, intro sim_intros)
      subgoal for x
        by (cases x) (auto intro!: sim_intros assms calm_stream_new)
      done
    done
qed

lemma sim_uploads [sim_intros]:
  assumes "async_contract F"
  shows "free.simulates (tokio_create F path wopts) (create_file F path wopts)"
    "free.simulates (tokio_append F path wopts) (append_file F path wopts)"
  unfolding tokio_upload_guarded create_file_def append_file_def by (intro sim_intros assms)+

end
