(* ===== verification/Tokio_Connecting.thy ===== *)
theory Tokio_Connecting
  imports Tokio_Sim Connecting
begin

text \<open>
  Connecting and disconnecting the asynchronous client, which also keeps a mirror of the
  connection for \<open>is_connected\<close>; what a poll has to do with a blocking read; closing a stream, and
  cancelling a command.
\<close>

section \<open>Setting up a connection\<close>

lemma free_gets:
  "free.simulates (gets tk_hostname) (gets fs_hostname)" "free.simulates (gets tk_secure) (gets fs_secure)"
  "free.simulates (gets tk_mode) (gets fs_mode)" "free.simulates (gets tk_builder) (gets fs_builder)"
  "free.simulates (gets tk_username) (gets fs_username)"
  "free.simulates (gets (\<lambda>s. case tk_password s of None \<Rightarrow> [] | Some p \<Rightarrow> p))
     (gets (\<lambda>s. case fs_password s of None \<Rightarrow> [] | Some p \<Rightarrow> p))"
  "free.simulates (gets (\<lambda>s. address (tk_hostname s) (tk_port s))) (gets (\<lambda>s. address (fs_hostname s) (fs_port s)))"
  by (rule free.sim_gets; simp)+

lemma sim_open_control:
  assumes "async_contract F"
  shows "free.simulates (tokio_open_control F) (open_control F)"
proof -
  have tls: "free.simulates (gets (tokio_setup_tls_connector F)) (gets (setup_tls_connector F))"
    by (rule free.sim_gets) (simp add: tokio_setup_tls_connector_def setup_tls_connector_def contract_tls [OF assms])
  show ?thesis
    unfolding tokio_open_control_def open_control_def tokio_install_builder_def install_builder_def
      tokio_secure_stream_def secure_stream_def tokio_log_in_def log_in_def
    by (intro sim_intros free_gets tls)
qed

definition tokio_cleared :: "('s, 'c, 't) ftp_lib \<Rightarrow> ('s, 'c) tokio_ftp_fs \<Rightarrow> ('s, 'c) tokio_ftp_fs" where
  "tokio_cleared F s =
     (if connection_usable s then s
      else s\<lparr>tk_stream := None, connection_usable := True, tk_connected := False,
             world := (case tk_stream s of None \<Rightarrow> world s | Some c \<Rightarrow> lib_close F (ctl_handle c) (world s))\<rparr>)"

lemma tokio_forget_run: "tokio_forget_unusable F s = Some ((), tokio_cleared F s)"
  by (cases s) (auto simp: tokio_forget_unusable_def drop_stream_def tokio_cleared_def run_seq split: option.splits)

lemma blocking_cleared: "blocking (tokio_cleared F s) = cleared F (blocking s)"
  by (cases "tk_stream s") (simp_all add: tokio_cleared_def cleared_def blocking_def)

lemma released_cleared: "released s \<Longrightarrow> released (tokio_cleared F s)"
  by (simp add: tokio_cleared_def released_def mirrored_def)

lemma tokio_connect_refused:
  "transfer_active s \<Longrightarrow> tokio_connect F s = Some (Inl busy_error, s)"
  "\<not> transfer_active s \<Longrightarrow> connection_usable s \<Longrightarrow> tk_stream s \<noteq> None \<Longrightarrow>
     tokio_connect F s = Some (Inl (new_error KAlreadyConnected), s)"
  by (auto simp: tokio_connect_def)

lemma tokio_connect_run:
  assumes "\<not> transfer_active s" "connection_usable s \<longrightarrow> tk_stream s = None"
  shows "tokio_connect F s =
    (case tokio_open_control F (tokio_cleared F s) of
       None \<Rightarrow> None
     | Some (Inl e, t) \<Rightarrow> Some (Inl e, t)
     | Some (Inr c, t) \<Rightarrow> Some (Inr (),
         t\<lparr>tk_welcome := lib_welcome F (ctl_handle c) (world t), tk_stream := Some c, tk_connected := True\<rparr>))"
  using assms
  by (auto simp: tokio_connect_def tokio_forget_run run_attempt run_seq [of "tokio_forget_unusable F"]
      split: option.splits sum.splits)

lemma sim_connect [sim_intros]:
  assumes F: "async_contract F"
  shows "free.simulates (tokio_connect F) (connect F)"
proof -
  have "connect F (blocking s) = map_option (map_prod id blocking) (tokio_connect F s)
     \<and> (\<forall>x t. tokio_connect F s = Some (x, t) \<longrightarrow> released t)"
    if s: "released s" for s :: "('a, 'b) tokio_ftp_fs"
  proof -
    have i: "idle (blocking s)" using s by (simp add: released_def)
    consider "transfer_active s" | "\<not> transfer_active s" "connection_usable s" "tk_stream s \<noteq> None"
      | "\<not> transfer_active s" "connection_usable s \<longrightarrow> tk_stream s = None" by metis
    then show ?thesis
    proof cases
      case 3
      note o = free.followsD [OF sim_open_control [OF F] released_cleared [OF s], of F]
      have "connect F (blocking s) = (case open_control F (blocking (tokio_cleared F s)) of
         None \<Rightarrow> None
       | Some (Inl e, t) \<Rightarrow> Some (Inl e, t)
       | Some (Inr c, t) \<Rightarrow> Some (Inr (), t\<lparr>fs_stream := Some c\<rparr>))"
        using connect_run [OF i] 3 by (simp add: blocking_cleared)
      then show ?thesis unfolding o(1) tokio_connect_run [OF 3] using o(2)
        by (auto simp: released_def mirrored_def split: option.splits sum.splits)
    qed (use s i connect_refused [OF i, of F] tokio_connect_refused [of s F] in auto)
  qed
  then show ?thesis by (intro free.followsI) auto
qed

section \<open>Closing it\<close>

lemma sim_disconnect [sim_intros]: "free.simulates (tokio_disconnect F) (disconnect F)"
proof -
  have "disconnect F (blocking s) = map_option (map_prod id blocking) (tokio_disconnect F s)
     \<and> (\<forall>x t. tokio_disconnect F s = Some (x, t) \<longrightarrow> released t)"
    if s: "released s" for s :: "('a, 'b) tokio_ftp_fs"
  proof -
    have i: "idle (blocking s)" using s by (simp add: released_def)
    consider "transfer_active s" | "\<not> transfer_active s" "tk_stream s = None"
      | c where "\<not> transfer_active s" "tk_stream s = Some c" by auto
    then show ?thesis
    proof cases
      case 1
      then show ?thesis using disconnect_refused(1) [OF i, of F] s by (simp add: tokio_disconnect_def)
    next
      case 2
      have "(blocking s)\<lparr>fs_stream := None\<rparr> = blocking s" using 2 by (cases s) (simp add: blocking_def)
      then show ?thesis using disconnect_refused(2) [OF i, of F] s 2
        by (simp add: tokio_disconnect_def released_def mirrored_def)
    next
      case (3 c)
      then show ?thesis using disconnect_run [OF i, of c F] s
        by (cases s) (auto simp: tokio_disconnect_def drop_stream_def run_seq run_on_world Let_def
            on_error_def shared_code record_remote_error_def mark_connection_unusable_def released_def
            mirrored_def blocking_def split: prod.splits sum.splits)
    qed
  qed
  then show ?thesis by (intro free.followsI) auto
qed

lemma tokio_is_connected_run:
  "released s \<Longrightarrow> is_connected (blocking s) = Some (tokio_is_connected s, blocking s)"
  using run_is_connected [of "blocking s"] by (simp add: released_def mirrored_def tokio_is_connected_def)

lemma tokio_stream_blocking: "stream (blocking s) = tokio_stream s"
  by (simp add: stream_def tokio_stream_def)

section \<open>Polls\<close>

lemma poll_ready:
  "rd_inner rd \<noteq> None \<Longrightarrow> poll_read F True rd buf = map_option (map_prod Ready id) (read_stream_read F rd buf)"
  by (auto simp: poll_read_def read_stream_read_def read_limited_def read_limit_def Let_def
      split: option.splits Option.bind_splits prod.splits sum.splits)

lemma poll_pending:
  "poll_read F False rd buf = Some (r, rd') \<Longrightarrow> rd' = rd \<and> (r = Pending \<or> r = Ready (Inr []))"
  by (auto simp: poll_read_def Let_def split: if_splits option.splits Option.bind_splits)

section \<open>Closing streams, and cancelling\<close>

definition tokio_completion ::
  "('s, 'c, 't) ftp_lib \<Rightarrow> 't transfer \<Rightarrow> bool \<Rightarrow> 's \<Rightarrow> (remote_error + unit) \<times> 's" where
  "tokio_completion F inner at_eof w =
     (case tokio_drain F (tr_events inner) at_eof of (drained, rest) \<Rightarrow>
      case lib_finish_read F (inner\<lparr>tr_events := rest\<rparr>) w of (r, w') \<Rightarrow>
        (finish_read_result drained (map_err ftp_error r), w'))"

lemma tokio_closing_read:
  assumes "rd_inner rd = Some inner" "tokio_completion F inner (rd_at_eof rd) (world s) = (result, w)"
  shows "tokio_read_stream_finish F rd s = Some (result, closed result w s)"
  using assms
  by (cases result) (auto simp: finish_steps tokio_finish_read_def tokio_completion_def shared_code run_simps closed_def
      split: prod.splits)

lemma tokio_closing_write:
  assumes "wr_inner wr = Some inner" "upload_completion F inner (world s) = (result, w)"
  shows "tokio_write_stream_finish F wr s = Some (result, closed result w s)"
  using assms finish_write_completion [OF assms(2)]
  by (cases result) (auto simp: tokio_write_stream_finish_def drop_finished shared_code run_simps closed_def)

lemma tokio_drop_read_run:
  "rd_inner rd = Some inner \<Longrightarrow> tokio_drop_read_stream F rd s = Some ((), s\<lparr>transfer_active := False,
     connection_usable := connection_usable s \<and> rd_at_eof rd, world := lib_abandon_read F inner (world s)\<rparr>)"
  by (cases s) (simp add: tokio_drop_read_stream_def run_simps)

lemma tokio_drop_write_run:
  "wr_inner wr = Some inner \<Longrightarrow> tokio_drop_write_stream F wr s =
     Some ((), s\<lparr>transfer_active := False, world := lib_abandon_write F inner (world s)\<rparr>)"
  by (cases s) (simp add: tokio_drop_write_stream_def run_simps)

lemma run_cancelled:
  assumes "\<not> tk_locked s"
  shows "cancelled_command sent s =
     (case refused s of
        Some e \<Rightarrow> Some (Inl e, s)
      | None \<Rightarrow> Some (Inr (), s\<lparr>connection_usable := False, world := sent (world s)\<rparr>))"
  using assms
  by (cases s) (auto simp: cancelled_command_def run_attempt run_lock_stream drop_stream_guard_def tokio_unlock_def
      drop_operation_def shared_code run_simps split: option.splits)

end
