(* ===== verification/Tokio_Frame.thy ===== *)
theory Tokio_Frame
  imports Tokio_Connecting Lookup
begin

text \<open>
  What every asynchronous operation keeps, for any library: no contract on \<open>tokio\<close> is needed for
  an operation to return, to free the mutex and to leave the control stream in its place.
\<close>

section \<open>Frames\<close>

definition retains :: "('s, 'c) tokio_ftp_fs \<Rightarrow> ('s, 'c) tokio_ftp_fs \<Rightarrow> bool" where
  "retains s t \<longleftrightarrow> keeps (blocking s) (blocking t) \<and> tk_connected t = tk_connected s"

lemma released_retains: "released s \<Longrightarrow> retains s t \<Longrightarrow> released t"
  by (simp add: retains_def released_def mirrored_def keeps_def starts_def)

interpretation within: frame "\<lambda>_. True" retains
  by unfold_locales (auto simp: retains_def intro: keeps_trans)

interpretation around: frame released retains
  by unfold_locales (auto simp: retains_def intro: keeps_trans released_retains [unfolded retains_def])

lemma retains_simps [simp]:
  "retains s (s\<lparr>world := w\<rparr>)" "retains s (s\<lparr>connection_usable := False\<rparr>)"
  by (simp_all add: retains_def)

lemma within_primitives [frame_intros]:
  "within.framed (on_world f)" "within.framed mark_connection_unusable"
  by (rule within.framedI, simp add: on_world_def mark_connection_unusable_def split: prod.splits)+

lemma within_record [frame_intros]:
  "within.framed (record_ftp_error e)" "within.framed (record_remote_error d)"
  unfolding record_ftp_error_def record_remote_error_def by (intro frame_intros)+

lemma within_on_error [frame_intros]: "(\<And>e. within.framed (f e)) \<Longrightarrow> within.framed (on_error f r)"
  unfolding on_error_def by (intro frame_intros)

lemma within_command [frame_intros]:
  "within.framed (command op c)" "within.framed (data_command op2 c)" "within.framed m \<Longrightarrow> within.framed (recorded m)"
  unfolding command_def data_command_def recorded_def by (intro frame_intros; assumption)+

lemma within_read_list [frame_intros]: "within.framed (tokio_read_list_bytes F c remote)"
  unfolding tokio_read_list_bytes_def by (intro frame_intros)

lemma retains_unlock:
  "\<not> tk_locked s \<Longrightarrow> retains (s\<lparr>tk_locked := True\<rparr>) t \<Longrightarrow> retains s (t\<lparr>tk_locked := False\<rparr>)"
  by (cases s; cases t) (simp add: retains_def keeps_def starts_def options_def blocking_def)

section \<open>Guarded operations\<close>

lemma around_guarded [frame_intros]:
  assumes "\<And>c. within.framed (f c)"
  shows "around.framed (guarded f)"
proof (rule around.framedI)
  fix s :: "('b, 'a) tokio_ftp_fs" assume s: "released s"
  then have l: "\<not> tk_locked s" by (simp add: released_def)
  show "\<exists>x t. guarded f s = Some (x, t) \<and> retains s t"
  proof (cases "refused s")
    case (Some d)
    then show ?thesis using l around.frame_refl [OF s] by (simp add: guarded_def run_attempt run_lock_stream)
  next
    case None
    then obtain c where c: "tk_stream s = Some c" using refused_None by blast
    obtain r t where f: "f c (s\<lparr>tk_locked := True\<rparr>) = Some (r, t)" "retains (s\<lparr>tk_locked := True\<rparr>) t"
      using within.framedE [OF assms] by blast
    have "retains (s\<lparr>tk_locked := True\<rparr>) (t\<lparr>connection_usable := False\<rparr>)"
      using within.frame_trans [OF _ f(2), of "t\<lparr>connection_usable := False\<rparr>"] by simp
    with f retains_unlock [OF l] show ?thesis
      unfolding run_guarded [OF l None c] by (auto split: sum.splits)
  qed
qed

lemma around_raw: "around.framed (tokio_list_dir_raw F path remote)"
proof (rule around.framedI)
  fix s :: "('a, 'b) tokio_ftp_fs" assume s: "released s"
  then have l: "\<not> tk_locked s" by (simp add: released_def)
  show "\<exists>x t. tokio_list_dir_raw F path remote s = Some (x, t) \<and> retains s t"
  proof (cases "refused s")
    case (Some d)
    then show ?thesis using l around.frame_refl [OF s]
      by (simp add: tokio_list_dir_raw_def run_attempt run_lock_stream)
  next
    case None
    then obtain c where c: "tk_stream s = Some c" using refused_None by blast
    obtain r rr t where f: "tokio_read_list_bytes F c remote (s\<lparr>tk_locked := True\<rparr>) = Some ((r, rr), t)"
      "retains (s\<lparr>tk_locked := True\<rparr>) t"
      using within.framedE [OF within_read_list] by (metis surj_pair)
    let ?u = "if rr then t\<lparr>tk_locked := False, connection_usable := False\<rparr> else t\<lparr>tk_locked := False\<rparr>"
    have "retains s (t\<lparr>tk_locked := False\<rparr>)" using retains_unlock [OF l f(2)] .
    with within.frame_trans [OF _ this] have u: "retains s ?u" by simp
    have "tokio_list_dir_raw F path remote s = attempt (ret r) (\<lambda>bytes.
       case decode_list_bytes bytes of
         Inl e \<Rightarrow> raise (ftp_error e)
       | Inr lines \<Rightarrow> expect (parse_list_lines (lib_rows F) path lines)) ?u"
      using f(1) None c l
      by (simp add: tokio_list_dir_raw_def run_attempt [of lock_stream] run_lock_stream run_seq guard_stream_def
          run_complete shared_code run_marking)
    moreover have "\<exists>x. attempt (ret r) (\<lambda>bytes.
       case decode_list_bytes bytes of
         Inl e \<Rightarrow> raise (ftp_error e)
       | Inr lines \<Rightarrow> expect (parse_list_lines (lib_rows F) path lines)) v = Some (x, v)"
      for v :: "('a, 'b) tokio_ftp_fs"
    proof (cases r)
      case (Inr bytes)
      show ?thesis
      proof (cases "decode_list_bytes bytes")
        case (Inr lines)
        from decoded_lines_valid [OF this] obtain q where "parse_list_lines (lib_rows F) path lines = Some q"
          using parse_lines_no_panic by fastforce
        with Inr \<open>r = Inr bytes\<close> show ?thesis by (simp add: expect_def)
      qed (use Inr in simp)
    qed simp
    ultimately show ?thesis using u by metis
  qed
qed

lemma attempt_ok: "attempt (ok x) k = k x"
  by (simp add: ok_def)

definition tokio_gate :: "(('s, 'c) tokio_ftp_fs, remote_error + unit) act" where
  "tokio_gate = attempt lock_stream (\<lambda>g. seq (stream_guard_complete g) (\<lambda>_. ok ()))"

lemma around_gate: "around.framed tokio_gate"
proof (rule around.framedI)
  fix s :: "('a, 'b) tokio_ftp_fs" assume s: "released s"
  then have "\<not> tk_locked s" by (simp add: released_def)
  with around.frame_refl [OF s] show "\<exists>x t. tokio_gate s = Some (x, t) \<and> retains s t"
    by (cases s) (auto simp: tokio_gate_def run_attempt run_lock_stream run_seq run_complete split: option.splits)
qed

interpretation tokio_prober: framed_prober F "tokio_list_dir_raw F" tokio_gate "tokio_ancestor_loop F"
  "tokio_list_or_prove_absent F" "tokio_stat F" released retains for F
proof
  fix path
  show "tokio_stat F path =
      attempt (ret (remote_path (lib_ensure F) path)) (\<lambda>_.
      if path_eq path ''/'' then attempt tokio_gate (\<lambda>_. ok (root_file path))
      else
        (case parent path of
           None \<Rightarrow> panic
         | Some q \<Rightarrow>
             attempt (ret (remote_path (lib_ensure F) q)) (\<lambda>remote_parent.
             attempt (tokio_list_or_prove_absent F q remote_parent) (\<lambda>entries.
             attempt (
               if lists_itself F q entries then
                 seq (tokio_stat F q) (\<lambda>r.
                 case r of
                   Inr parent_entry \<Rightarrow>
                     if is_file parent_entry
                     then raise (with_message KBadFile ''the parent path is a regular file'')
                     else ok ()
                 | Inl e \<Rightarrow> if kind e = KPermissionDenied then ok () else raise e)
               else ok ()) (\<lambda>_.
             ret (find_entry path entries))))))"
    by (subst tokio_stat.simps) (simp only: tokio_gate_def attempt_assoc attempt_seq attempt_ok)
qed (simp_all only: tokio_ancestor_loop.simps around_raw around_gate,
  unfold tokio_list_or_prove_absent_def tokio_ancestor_proves_absent_def, rule refl)

section \<open>Lookups and commands\<close>

lemma around_lookups [frame_intros]:
  "around.framed (tokio_stat F path)" "around.framed (tokio_list_or_prove_absent F path remote)"
  by (rule tokio_prober.look_framed tokio_prober.list_or_framed)+

lemma around_probes [frame_intros]:
  "around.framed (tokio_stat_is_file F path)" "around.framed (tokio_exists F path)"
  "around.framed (tokio_destination_parent_is_missing F path)"
  unfolding tokio_stat_is_file_def tokio_exists_def tokio_destination_parent_is_missing_def by (intro frame_intros)+

lemma around_list_dir [frame_intros]: "around.framed (tokio_list_dir F path)"
  unfolding tokio_list_dir_def by (intro frame_intros)

lemma around_classify [frame_intros]:
  "around.framed (tokio_classify_file_refusal F path err)" "around.framed (tokio_classify_create_refusal F path err)"
  "around.framed (tokio_classify_remove_dir_refusal F path err)"
  "around.framed (tokio_classify_create_dir_refusal F path err)"
  "around.framed (tokio_classify_rename_refusal F path dest err)"
  unfolding tokio_classify_file_refusal_def tokio_classify_create_refusal_def tokio_classify_remove_dir_refusal_def
    tokio_classify_create_dir_refusal_def tokio_classify_rename_refusal_def
  by (intro frame_intros)+

lemma around_operations:
  "around.framed (tokio_set_metadata F path md)" "around.framed (tokio_create_dir F path mode)"
  "around.framed (tokio_remove_file F path)" "around.framed (tokio_remove_dir F path)"
  "around.framed (tokio_rename F path dest)" "around.framed (tokio_copy F path dest)"
  "around.framed (tokio_symlink F path dest)" "around.framed (tokio_exec F cmd)"
  unfolding tokio_set_metadata_def tokio_create_dir_def tokio_remove_file_def tokio_remove_dir_def
    tokio_rename_def tokio_copy_def tokio_symlink_def tokio_exec_guarded run_command_guarded
    creation_refusal_case
  by (intro frame_intros)+

section \<open>Transfers\<close>

context same_flags begin

lemma sim_start_download [sim_intros]: "simulates (start_download F remote offset c) (start_download F remote offset c)"
  unfolding start_download_def retry_from_start_def by (intro sim_intros)

end

text \<open>A transfer command under the guard does what it does under the lock.\<close>

lemma guarded_transfer:
  assumes "released s" "free.simulates (guarded f) (with_stream g)"
    and "\<And>c s. \<exists>r t. g c s = Some (r, t) \<and> starts s t
      \<and> transfer_active t = (transfer_active s \<or> (\<exists>x. r = Inr (Inr x)))"
  shows "\<exists>r t. guarded f s = Some (r, t) \<and> starts (blocking s) (blocking t) \<and> released t
      \<and> transfer_active t = (transfer_active s \<or> (\<exists>x. r = Inr (Inr x)))
      \<and> (\<forall>x. r = Inr x \<longrightarrow> refused s = None)"
proof -
  have i: "idle (blocking s)" using assms(1) by (simp add: released_def)
  from with_stream_transfer [where f = g, OF i assms(3)] obtain r u where
    u: "with_stream g (blocking s) = Some (r, u)" "starts (blocking s) u"
      "transfer_active u = (transfer_active s \<or> (\<exists>x. r = Inr (Inr x)))" by auto
  obtain t where t: "guarded f s = Some (r, t)" "u = blocking t"
    using free.followsD(1) [OF assms(2,1)] u(1) by (cases "guarded f s") auto
  from free.followsD(2) [OF assms(2,1) t(1)] have rt: "released t" by simp
  have "refused s = None" if "r = Inr x" for x
  proof (rule ccontr)
    assume "refused s \<noteq> None"
    then obtain e where "refused s = Some e" by blast
    with t(1) that assms(1) show False
      by (simp add: guarded_def run_attempt run_lock_stream released_def)
  qed
  with t u rt show ?thesis by auto
qed

lemma retains_starts: "retains s t \<Longrightarrow> starts (blocking s) (blocking t) \<and> transfer_active t = transfer_active s"
  by (simp add: retains_def keeps_def)

lemma tokio_upload_operation:
  assumes "released s"
  shows "\<exists>r t. attempt (guarded (start_upload op)) (\<lambda>transfer_result.
      case transfer_result of
        Inl err \<Rightarrow> seq (tokio_classify_create_refusal F path err) raise
      | Inr transfer \<Rightarrow> ok (new_write_stream transfer)) s = Some (r, t)
    \<and> starts (blocking s) (blocking t) \<and> released t \<and> transfer_active t = (transfer_active s \<or> is_ok r)
    \<and> (\<forall>wr. r = Inr wr \<longrightarrow> wr_inner wr \<noteq> None \<and> refused s = None)"
proof -
  have f: "\<exists>r t. start_upload op c u = Some (r, t) \<and> starts u t
      \<and> transfer_active t = (transfer_active u \<or> (\<exists>x. r = Inr (Inr x)))" for c u
    using start_upload_run [of op c u] by (auto simp: is_ok_iff)
  have g: "free.simulates (guarded (start_upload op)) (with_stream (start_upload op))" by (intro sim_intros)
  from guarded_transfer [OF assms g f] obtain r t where w: "guarded (start_upload op) s = Some (r, t)"
    "starts (blocking s) (blocking t)" "released t"
    "transfer_active t = (transfer_active s \<or> (\<exists>x. r = Inr (Inr x)))"
    "\<forall>x. r = Inr x \<longrightarrow> refused s = None" by blast
  consider (failed) e where "r = Inl e" | (refusal) err where "r = Inr (Inl err)"
    | (begun) transfer where "r = Inr (Inr transfer)" by (metis sum.exhaust)
  then show ?thesis
  proof cases
    case refusal
    obtain d u where "tokio_classify_create_refusal F path err t = Some (d, u)" "retains t u" "released u"
      using around.framedE [OF around_classify(2) w(3)] by blast
    with w refusal retains_starts show ?thesis by (auto simp: run_attempt run_seq intro: starts_trans)
  qed (use w in \<open>auto simp: run_attempt new_write_stream_def\<close>)
qed

lemma released_closed: "released t \<Longrightarrow> released (closed r w t)"
  by (simp add: closed_def released_def mirrored_def)

lemma tokio_skip_total:
  assumes "rd_inner rd = Some inner" "released t" "transfer_active t"
  shows "\<exists>r u. tokio_skip_locally F rd offset t = Some (r, u) \<and> starts (blocking t) (blocking u) \<and> released u
    \<and> transfer_active u = is_ok r \<and> (\<forall>rd'. r = Inr rd' \<longrightarrow> rd_inner rd' \<noteq> None)"
proof -
  obtain a rest where c: "lib_copy F (Some (unat offset)) (tr_events inner) = (a, rest)" by force
  define rd1 where "rd1 = rd\<lparr>rd_inner := Some (inner\<lparr>tr_events := rest\<rparr>)\<rparr>"
  have i: "rd_inner rd1 = Some (inner\<lparr>tr_events := rest\<rparr>)" by (simp add: rd1_def)
  show ?thesis
  proof (cases a)
    case (Inl e)
    obtain d w where "tokio_completion F (inner\<lparr>tr_events := rest\<rparr>) (rd_at_eof rd1) (world t) = (d, w)" by force
    then have "tokio_finish_after_skip F rd1 skip t = Some (skip_result skip d, closed d w t)" for skip
      using i by (cases d) (auto simp: finish_steps tokio_finish_read_def tokio_completion_def shared_code run_simps
          closed_def split: prod.splits)
    with Inl c assms closed_starts(1) [of "blocking t" d w] released_closed [OF assms(2)] show ?thesis
      by (simp add: tokio_skip_locally_def tokio_skip_prefix_def run_seq Let_def rd1_def [symmetric] closed_def)
  qed (use c assms in \<open>auto simp: tokio_skip_locally_def tokio_skip_prefix_def run_seq Let_def starts_def\<close>)
qed

lemma tokio_download_operation:
  assumes "released s"
  shows "\<exists>r t. tokio_open F path opts s = Some (r, t)
    \<and> starts (blocking s) (blocking t) \<and> released t \<and> transfer_active t = (transfer_active s \<or> is_ok r)
    \<and> (\<forall>rd. r = Inr rd \<longrightarrow> rd_inner rd \<noteq> None \<and> refused s = None)"
proof (cases "remote_path (lib_ensure F) path")
  case (Inl e)
  with assms show ?thesis by (simp add: tokio_open_guarded starts_def)
next
  case remote: (Inr remote)
  define offset where "offset = offset_of opts"
  have g: "free.simulates (guarded (start_download F remote offset)) (with_stream (start_download F remote offset))"
    by (intro sim_intros)
  from guarded_transfer [OF assms g start_download_run] obtain r t where
    w: "guarded (start_download F remote offset) s = Some (r, t)"
    "starts (blocking s) (blocking t)" "released t"
    "transfer_active t = (transfer_active s \<or> (\<exists>x. r = Inr (Inr x)))"
    "\<forall>x. r = Inr x \<longrightarrow> refused s = None" by blast
  note u = tokio_open_guarded remote offset_def [symmetric] Let_def
  consider (failed) e where "r = Inl e" | (refusal) err where "r = Inr (Inl err)"
    | (begun) transfer resumed where "r = Inr (Inr (transfer, resumed))" by (metis sum.exhaust surj_pair)
  then show ?thesis
  proof cases
    case refusal
    obtain d v where "tokio_classify_file_refusal F path err t = Some (d, v)" "retains t v" "released v"
      using around.framedE [OF around_classify(1) w(3)] by blast
    with w refusal retains_starts show ?thesis by (auto simp: u run_attempt run_seq intro: starts_trans)
  next
    case begun
    define rd where "rd = new_read_stream transfer (ro_length opts)"
    have i: "rd_inner rd = Some transfer" by (simp add: rd_def new_read_stream_def)
    have t: "transfer_active t" using w(4) begun by simp
    from tokio_skip_total [OF i w(3) t, of F offset] obtain r2 v where
      "tokio_skip_locally F rd offset t = Some (r2, v)" "starts (blocking t) (blocking v)" "released v"
      "transfer_active v = is_ok r2" "\<forall>rd'. r2 = Inr rd' \<longrightarrow> rd_inner rd' \<noteq> None" by blast
    moreover have "refused s = None" "\<not> transfer_active s"
      using w(5) begun refusal_None [of "blocking s"] by (auto simp: refused_def)
    ultimately show ?thesis using w begun i t
      by (auto simp: u run_attempt rd_def [symmetric] intro: starts_trans)
  qed (use w in \<open>auto simp: u run_attempt\<close>)
qed

section \<open>Connecting\<close>

lemma remote_tokio_open_control: "remote_only.framed (tokio_open_control F)"
  unfolding tokio_open_control_def tokio_install_builder_def tokio_secure_stream_def tokio_log_in_def Let_def
  by (intro frame_intros)

lemma tokio_connect_outcome:
  assumes "\<not> transfer_active s" "connection_usable s \<longrightarrow> tk_stream s = None"
  obtains (failed) e w where "tokio_connect F s = Some (Inl e, (tokio_cleared F s)\<lparr>world := w\<rparr>)"
  | (connected) c w b where "tokio_connect F s = Some (Inr (), (tokio_cleared F s)\<lparr>world := w,
      tk_welcome := b, tk_stream := Some c, tk_connected := True\<rparr>)"
proof -
  obtain r t where o: "tokio_open_control F (tokio_cleared F s) = Some (r, t)" "only_world (tokio_cleared F s) t"
    using remote_only.framedE [OF remote_tokio_open_control] by blast
  then obtain w where t: "t = (tokio_cleared F s)\<lparr>world := w\<rparr>" by (auto simp: only_world_def)
  note run = tokio_connect_run [OF assms, of F]
  show thesis
  proof (cases r)
    case (Inl e)
    with run o t show ?thesis by (intro failed [of e w]) simp
  next
    case (Inr c)
    with run o t show ?thesis by (intro connected [where c = c and w = w]) simp
  qed
qed

end
