(* ===== verification/Tokio_Session.thy ===== *)
theory Tokio_Session
  imports Tokio_Frame Session
begin

text \<open>
  The operations of both clients as data, and the sessions of the asynchronous client as a state
  machine: requests, cancellations, and the streams that are alive.
\<close>

section \<open>Requests\<close>

text \<open>The operations of \<open>RemoteFs\<close> and \<open>AsyncRemoteFs\<close> as data, with what each client does.\<close>

datatype request = Connect | Disconnect | ListDir string | Stat string | Exists string
  | SetMetadata string metadata | CreateDir string "unix_pex option" | RemoveFile string
  | RemoveDir string | Rename string string | Copy string string | Link string string
  | Exec string | OpenFile string read_options | CreateFile string write_options
  | AppendFile string write_options

datatype 't answer = Done "remote_error + unit" | Entries "remote_error + remote_file list"
  | Entry "remote_error + remote_file" | Verdict "remote_error + bool"
  | Output "remote_error + exec_output" | Reader "remote_error + 't read_stream"
  | Writer "remote_error + 't write_stream"

definition answering :: "('a \<Rightarrow> 'b) \<Rightarrow> ('s, 'a) act \<Rightarrow> ('s, 'b) act" where
  "answering f m = seq m (\<lambda>r. ret (f r))"

fun perform :: "('s, 'c, 't) ftp_lib \<Rightarrow> request \<Rightarrow> (('s, 'c) ftp_fs, 't answer) act" where
  "perform F Connect = answering Done (connect F)"
| "perform F Disconnect = answering Done (disconnect F)"
| "perform F (ListDir p) = answering Entries (list_dir F p)"
| "perform F (Stat p) = answering Entry (stat F p)"
| "perform F (Exists p) = answering Verdict (exists F p)"
| "perform F (SetMetadata p md) = answering Done (set_metadata F p md)"
| "perform F (CreateDir p mode) = answering Done (create_dir F p mode)"
| "perform F (RemoveFile p) = answering Done (remove_file F p)"
| "perform F (RemoveDir p) = answering Done (remove_dir F p)"
| "perform F (Rename p q) = answering Done (rename F p q)"
| "perform F (Copy p q) = answering Done (copy F p q)"
| "perform F (Link p q) = answering Done (symlink F p q)"
| "perform F (Exec cmd) = answering Output (exec F cmd)"
| "perform F (OpenFile p opts) = answering Reader (open_file F p opts)"
| "perform F (CreateFile p opts) = answering Writer (create_file F p opts)"
| "perform F (AppendFile p opts) = answering Writer (append_file F p opts)"

fun tokio_perform :: "('s, 'c, 't) ftp_lib \<Rightarrow> request \<Rightarrow> (('s, 'c) tokio_ftp_fs, 't answer) act" where
  "tokio_perform F Connect = answering Done (tokio_connect F)"
| "tokio_perform F Disconnect = answering Done (tokio_disconnect F)"
| "tokio_perform F (ListDir p) = answering Entries (tokio_list_dir F p)"
| "tokio_perform F (Stat p) = answering Entry (tokio_stat F p)"
| "tokio_perform F (Exists p) = answering Verdict (tokio_exists F p)"
| "tokio_perform F (SetMetadata p md) = answering Done (tokio_set_metadata F p md)"
| "tokio_perform F (CreateDir p mode) = answering Done (tokio_create_dir F p mode)"
| "tokio_perform F (RemoveFile p) = answering Done (tokio_remove_file F p)"
| "tokio_perform F (RemoveDir p) = answering Done (tokio_remove_dir F p)"
| "tokio_perform F (Rename p q) = answering Done (tokio_rename F p q)"
| "tokio_perform F (Copy p q) = answering Done (tokio_copy F p q)"
| "tokio_perform F (Link p q) = answering Done (tokio_symlink F p q)"
| "tokio_perform F (Exec cmd) = answering Output (tokio_exec F cmd)"
| "tokio_perform F (OpenFile p opts) = answering Reader (tokio_open F p opts)"
| "tokio_perform F (CreateFile p opts) = answering Writer (tokio_create F p opts)"
| "tokio_perform F (AppendFile p opts) = answering Writer (tokio_append F p opts)"

primrec in_turn :: "('r \<Rightarrow> ('s, 'a) act) \<Rightarrow> 'r list \<Rightarrow> ('s, 'a list) act" where
  "in_turn f [] = ret []"
| "in_turn f (r # rs) = seq (f r) (\<lambda>a. seq (in_turn f rs) (\<lambda>as. ret (a # as)))"

context same_world begin

lemma sim_answering [sim_intros]: "simulates m n \<Longrightarrow> simulates (answering f m) (answering f n)"
  unfolding answering_def by (intro sim_intros)

lemma sim_in_turn: "(\<And>r. simulates (f r) (g r)) \<Longrightarrow> simulates (in_turn f rs) (in_turn g rs)"
  by (induction rs) (simp_all add: sim_intros)

end

lemma sim_perform: "async_contract F \<Longrightarrow> free.simulates (tokio_perform F r) (perform F r)"
  by (cases r; simp only: perform.simps tokio_perform.simps; intro sim_intros; assumption)

section \<open>Sessions of the asynchronous client\<close>

text \<open>
  One task uses the client: requests run to their end or cancelled while they wait for the server,
  and polls, finishes, also cancelled ones, and drops of the streams it was handed.
\<close>

definition handles :: "'t answer \<Rightarrow> 't handle list" where
  "handles a = (case a of
     Reader r \<Rightarrow> (case r of Inr rd \<Rightarrow> [Reading rd] | Inl _ \<Rightarrow> [])
   | Writer r \<Rightarrow> (case r of Inr wr \<Rightarrow> [Writing wr] | Inl _ \<Rightarrow> [])
   | _ \<Rightarrow> [])"

type_synonym ('s, 'c, 't) tokio_session = "('s, 'c) tokio_ftp_fs \<times> 't handle list"

inductive tokio_step :: "('s, 'c, 't) ftp_lib \<Rightarrow> ('s, 'c, 't) tokio_session \<Rightarrow> ('s, 'c, 't) tokio_session \<Rightarrow> bool"
  for F :: "('s, 'c, 't) ftp_lib" where
  tk_configure: "u \<in> {tokio_username n s, tokio_password n s, tokio_active_mode s, tokio_passive_mode s,
      tokio_secure a b s, tokio_passive_stream_builder k s} \<Longrightarrow> tokio_step F (s, L) (u, L)"
| tk_request: "tokio_perform F req s = Some (a, t) \<Longrightarrow> tokio_step F (s, L) (t, handles a @ L)"
| tk_cancel: "cancelled_command sent s = Some (r, t) \<Longrightarrow> tokio_step F (s, L) (t, L)"
| tk_cancel_connect: "tokio_cancelled_connect F sent s = Some (r, t) \<Longrightarrow> tokio_step F (s, L) (t, L)"
| tk_cancel_disconnect: "tokio_cancelled_disconnect F sent s = Some (r, t) \<Longrightarrow> tokio_step F (s, L) (t, L)"
| tk_poll_read: "poll_read F ready rd n = Some (rb, rd') \<Longrightarrow>
    tokio_step F (s, L @ Reading rd # M) (s, L @ Reading rd' # M)"
| tk_finish_reading: "tokio_read_stream_finish F rd s = Some (r, t) \<Longrightarrow>
    tokio_step F (s, L @ Reading rd # M) (t, L @ M)"
| tk_drop_reading: "tokio_drop_read_stream F rd s = Some (u', t) \<Longrightarrow>
    tokio_step F (s, L @ Reading rd # M) (t, L @ M)"
| tk_cancel_finish: "tokio_cancelled_finish F sent rd s = Some (u', t) \<Longrightarrow>
    tokio_step F (s, L @ Reading rd # M) (t, L @ M)"
| tk_cancel_upload_finish: "tokio_cancelled_upload_finish F sent wr s = Some (u', t) \<Longrightarrow>
    tokio_step F (s, L @ Writing wr # M) (t, L @ M)"
| tk_poll_write: "poll_write F ready wr buf s = Some (rn, t) \<Longrightarrow>
    tokio_step F (s, L @ Writing wr # M) (t, L @ Writing wr # M)"
| tk_poll_flush: "poll_flush F ready wr s = Some (ru, t) \<Longrightarrow>
    tokio_step F (s, L @ Writing wr # M) (t, L @ Writing wr # M)"
| tk_poll_close: "poll_close F ready wr s = Some (ru, t) \<Longrightarrow>
    tokio_step F (s, L @ Writing wr # M) (t, L @ Writing wr # M)"
| tk_finish_writing: "tokio_write_stream_finish F wr s = Some (r, t) \<Longrightarrow>
    tokio_step F (s, L @ Writing wr # M) (t, L @ M)"
| tk_drop_writing: "tokio_drop_write_stream F wr s = Some (u', t) \<Longrightarrow>
    tokio_step F (s, L @ Writing wr # M) (t, L @ M)"

inductive tokio_reachable :: "('s, 'c, 't) ftp_lib \<Rightarrow> ('s, 'c, 't) tokio_session \<Rightarrow> bool"
  for F :: "('s, 'c, 't) ftp_lib" where
  tk_start: "tokio_reachable F (tokio_new hostname port w, [])"
| tk_step: "tokio_reachable F x \<Longrightarrow> tokio_step F x y \<Longrightarrow> tokio_reachable F y"

definition tokio_consistent :: "('s, 'c, 't) tokio_session \<Rightarrow> bool" where
  "tokio_consistent x \<longleftrightarrow> (case x of (s, L) \<Rightarrow> released s \<and> consistent (blocking s, L))"

section \<open>The invariant\<close>

lemma consistent_blocking_update:
  assumes "tokio_consistent (s, L @ h # M)"
  shows "tokio_consistent (s\<lparr>transfer_active := False, connection_usable := b, world := w\<rparr>, L @ M)"
  using assms by (auto simp: tokio_consistent_def released_def mirrored_def consistent_def)

lemma tokio_world_consistent:
  "tokio_consistent (s, L) \<Longrightarrow> tokio_consistent (s\<lparr>world := w\<rparr>, L)"
  by (simp add: tokio_consistent_def released_def mirrored_def consistent_def)

lemma tokio_closed_consistent:
  "tokio_consistent (s, L @ h # M) \<Longrightarrow> tokio_consistent (closed r w s, L @ M)"
  by (auto simp: tokio_consistent_def released_def mirrored_def consistent_def closed_def)

lemma tokio_consistent_start: "tokio_consistent (tokio_new hostname port w, [])"
  by (simp add: tokio_consistent_def consistent_def released_def mirrored_def tokio_new_def blocking_def
      idle_def)

lemma poll_read_alive:
  assumes "rd_inner rd \<noteq> None" "poll_read F ready rd n = Some (r, rd')"
  shows "rd_inner rd' \<noteq> None"
proof (cases ready)
  case True
  with assms show ?thesis
    using poll_ready [OF assms(1), of F n] read_stream_alive [OF assms(1), of F n] by auto
next
  case False
  with assms poll_pending [of F rd n r rd'] show ?thesis by simp
qed

lemma poll_write_world:
  "poll_write F ready wr buf s = Some (r, t) \<Longrightarrow> \<exists>w. t = s\<lparr>world := w\<rparr>"
  "poll_flush F ready wr s = Some (r', t) \<Longrightarrow> \<exists>w. t = s\<lparr>world := w\<rparr>"
  "poll_close F ready wr s = Some (r', t) \<Longrightarrow> \<exists>w. t = s\<lparr>world := w\<rparr>"
  by (cases "wr_inner wr"; cases s; cases ready;
      auto simp: poll_write_def poll_flush_def poll_close_def run_simps split: prod.splits)+

lemma alive_reading: "tokio_consistent (s, L @ Reading rd # M) \<Longrightarrow> \<exists>inner. rd_inner rd = Some inner"
  by (auto simp: tokio_consistent_def consistent_def)

lemma alive_writing: "tokio_consistent (s, L @ Writing wr # M) \<Longrightarrow> \<exists>inner. wr_inner wr = Some inner"
  by (auto simp: tokio_consistent_def consistent_def)

text \<open>A request returns and keeps the invariant, whatever the library does.\<close>

definition advances :: "('s, 'c, 't) tokio_session \<Rightarrow> (('s, 'c) tokio_ftp_fs, 't answer) act \<Rightarrow> bool" where
  "advances x m \<longleftrightarrow> (case x of (s, L) \<Rightarrow>
     \<exists>a t. m s = Some (a, t) \<and> tokio_consistent (t, handles a @ L))"

lemma advances_framed:
  assumes "tokio_consistent (s, L)" "around.framed m" "\<And>r. handles (f r) = []"
  shows "advances (s, L) (answering f m)"
proof -
  from assms(1) have s: "released s" "consistent (blocking s, L)" by (simp_all add: tokio_consistent_def)
  obtain r t where t: "m s = Some (r, t)" "retains s t" "released t" using around.framedE [OF assms(2) s(1)] by blast
  then have "consistent (blocking t, L)" using keeps_consistent [OF s(2)] by (simp add: retains_def)
  with t assms(3) show ?thesis by (simp add: advances_def answering_def run_seq tokio_consistent_def)
qed

lemma advances_transfer:
  assumes "tokio_consistent (s, L)"
    and "\<exists>r t. m s = Some (r, t) \<and> starts (blocking s) (blocking t) \<and> released t
      \<and> transfer_active t = (transfer_active s \<or> is_ok r)
      \<and> (\<forall>x. r = Inr x \<longrightarrow> alive (h x) \<and> refused s = None)"
    and "\<And>e. handles (f (Inl e)) = []" "\<And>x. handles (f (Inr x)) = [h x]"
  shows "advances (s, L) (answering f m)"
proof -
  from assms(1) have s: "consistent (blocking s, L)" by (simp add: tokio_consistent_def)
  from assms(2) obtain r t where t: "m s = Some (r, t)" "starts (blocking s) (blocking t)" "released t"
    "transfer_active t = (transfer_active s \<or> is_ok r)"
    "\<forall>x. r = Inr x \<longrightarrow> alive (h x) \<and> refused s = None" by blast
  have i: "idle (blocking t)" using t(3) by (simp add: released_def)
  have "consistent (blocking t, handles (f r) @ L)"
  proof (cases r)
    case (Inl e)
    with refused_consistent [OF s t(2) i] t(4) assms(3) show ?thesis by simp
  next
    case (Inr x)
    with t(5) have "refusal (blocking s) = None" "alive (h x)" by (simp_all add: refused_def)
    with refusal_None [of "blocking s"] opened_consistent [OF s t(2) i] t(4) Inr assms(4) show ?thesis by simp
  qed
  with t show ?thesis by (simp add: advances_def answering_def run_seq tokio_consistent_def)
qed

lemma advances_connect:
  assumes "tokio_consistent (s, L)"
  shows "advances (s, L) (answering Done (tokio_connect F))"
proof -
  from assms have s: "released s" "consistent (blocking s, L)" by (simp_all add: tokio_consistent_def)
  have "\<exists>r t. tokio_connect F s = Some (r, t) \<and> tokio_consistent (t, L)"
  proof (cases "transfer_active s \<or> connection_usable s \<and> tk_stream s \<noteq> None")
    case True
    with tokio_connect_refused [of s F] assms show ?thesis by blast
  next
    case False
    then have f: "\<not> transfer_active s" "connection_usable s \<longrightarrow> tk_stream s = None" by blast+
    from s(2) f(1) have L: "L = []" by (simp add: consistent_def)
    note c = released_cleared [OF s(1), of F]
    have "\<not> transfer_active (tokio_cleared F s)" using f(1) by (simp add: tokio_cleared_def)
    note c = c this
    show ?thesis
      by (rule tokio_connect_outcome [OF f, of F])
        (use L c in \<open>auto simp: tokio_consistent_def consistent_def released_def mirrored_def\<close>)
  qed
  then show ?thesis by (auto simp: advances_def answering_def run_seq handles_def)
qed

lemma advances_disconnect:
  assumes "tokio_consistent (s, L)"
  shows "advances (s, L) (answering Done (tokio_disconnect F))"
proof -
  from assms have s: "released s" "consistent (blocking s, L)" by (simp_all add: tokio_consistent_def)
  then have i: "idle (blocking s)" by (simp add: released_def)
  from connecting_returns(2) [OF i, of F] obtain r u where u: "disconnect F (blocking s) = Some (r, u)" by blast
  obtain t where t: "tokio_disconnect F s = Some (r, t)" "u = blocking t"
    using free.followsD(1) [OF sim_disconnect s(1), of F] u by (cases "tokio_disconnect F s") auto
  from free.followsD(2) [OF sim_disconnect s(1) t(1)] have "released t" by simp
  with t u disconnect_consistent [OF s(2) u] show ?thesis
    by (simp add: advances_def answering_def run_seq tokio_consistent_def handles_def)
qed

lemma tokio_upload_run:
  assumes "released s"
  shows "\<exists>r t. attempt (ret (remote_path (lib_ensure F) path)) (\<lambda>remote.
      attempt (guarded (start_upload (op remote))) (\<lambda>transfer_result.
      case transfer_result of
        Inl err \<Rightarrow> seq (tokio_classify_create_refusal F path err) raise
      | Inr transfer \<Rightarrow> ok (new_write_stream transfer))) s = Some (r, t)
    \<and> starts (blocking s) (blocking t) \<and> released t \<and> transfer_active t = (transfer_active s \<or> is_ok r)
    \<and> (\<forall>wr. r = Inr wr \<longrightarrow> alive (Writing wr) \<and> refused s = None)"
proof (cases "remote_path (lib_ensure F) path")
  case (Inl e)
  with assms show ?thesis by (simp add: starts_def)
next
  case (Inr remote)
  show ?thesis unfolding alive.simps Inr attempt_ret sum.case
    by (rule tokio_upload_operation [OF assms])
qed

lemma tokio_perform_advances:
  assumes "tokio_consistent (s, L)"
  shows "advances (s, L) (tokio_perform F req)"
proof -
  from assms have s: "released s" by (simp add: tokio_consistent_def)
  note frames = advances_framed [OF assms]
  show ?thesis
  proof (cases req)
    case (OpenFile p opts)
    show ?thesis unfolding OpenFile tokio_perform.simps
      by (rule advances_transfer [where h = Reading, OF assms])
        (use tokio_download_operation [OF s, of F p opts] in \<open>simp_all add: handles_def\<close>)
  next
    case (CreateFile p opts)
    show ?thesis unfolding CreateFile tokio_perform.simps tokio_upload_guarded
      by (rule advances_transfer [where h = Writing, OF assms], rule tokio_upload_run [OF s]) (simp_all add: handles_def)
  next
    case (AppendFile p opts)
    show ?thesis unfolding AppendFile tokio_perform.simps tokio_upload_guarded
      by (rule advances_transfer [where h = Writing, OF assms], rule tokio_upload_run [OF s]) (simp_all add: handles_def)
  qed (simp only: tokio_perform.simps,
      ((rule advances_connect [OF assms] advances_disconnect [OF assms])
       | (rule frames, (rule around_list_dir around_lookups around_probes around_operations), simp add: handles_def)))+
qed

lemma tokio_perform_consistent:
  assumes "tokio_consistent (s, L)" "tokio_perform F req s = Some (a, t)"
  shows "tokio_consistent (t, handles a @ L)"
  using tokio_perform_advances [OF assms(1), of F req] assms(2) by (auto simp: advances_def)

text \<open>Cancelled connecting.\<close>

lemma cancelled_connect_run:
  "tokio_cancelled_connect F sent s = Some (
     if transfer_active s then (Inl busy_error, s)
     else if connection_usable s \<and> tk_stream s \<noteq> None then (Inl (new_error KAlreadyConnected), s)
     else (Inr (), (tokio_cleared F s)\<lparr>world := sent (world (tokio_cleared F s))\<rparr>))"
  by (auto simp: tokio_cancelled_connect_def run_seq tokio_forget_run)

lemma cancelled_disconnect_run:
  "tokio_cancelled_disconnect F sent s = Some (
     if transfer_active s then (Inl busy_error, s)
     else case tk_stream s of
       None \<Rightarrow> (Inl (new_error KNotConnected), s)
     | Some c \<Rightarrow>
         let t = s\<lparr>tk_stream := None, tk_connected := False, tk_welcome := None, connection_usable := True\<rparr> in
         if connection_usable s then (Inr (), t\<lparr>world := sent (world s)\<rparr>)
         else (Inl closed_error, t\<lparr>world := lib_close F (ctl_handle c) (world s)\<rparr>))"
  by (cases s) (auto simp: tokio_cancelled_disconnect_def run_seq drop_stream_def Let_def split: option.splits)

lemma tokio_step_consistent:
  assumes "tokio_step F x y" "tokio_consistent x"
  shows "tokio_consistent y"
  using assms
proof (induction rule: tokio_step.induct)
  case (tk_configure u n s a b k L)
  then show ?case
    by (auto simp: tokio_consistent_def released_def mirrored_def consistent_def idle_def blocking_def tokio_username_def
        tokio_password_def tokio_active_mode_def tokio_passive_mode_def tokio_secure_def
        tokio_passive_stream_builder_def)
next
  case (tk_cancel sent s r t L)
  then have "\<not> tk_locked s" by (simp add: tokio_consistent_def released_def)
  from run_cancelled [OF this, of sent] tk_cancel show ?case
    by (auto simp: tokio_consistent_def released_def mirrored_def consistent_def split: option.splits)
next
  case (tk_cancel_connect sent s r t L)
  then have c: "\<not> transfer_active s \<Longrightarrow> L = []" "released (tokio_cleared F s)"
    by (auto simp: tokio_consistent_def consistent_def released_cleared)
  from tk_cancel_connect c show ?case
    by (cases "transfer_active s"; cases "connection_usable s \<and> tk_stream s \<noteq> None")
      (auto simp: cancelled_connect_run tokio_consistent_def released_def mirrored_def consistent_def idle_def
        tokio_cleared_def split: if_splits)
next
  case (tk_cancel_disconnect sent s r t L)
  then have "\<not> transfer_active s \<Longrightarrow> L = []" by (auto simp: tokio_consistent_def consistent_def)
  with tk_cancel_disconnect show ?case
    by (cases "transfer_active s"; cases "tk_stream s"; cases "connection_usable s")
      (auto simp: cancelled_disconnect_run tokio_consistent_def released_def mirrored_def consistent_def idle_def)
next
  case (tk_cancel_finish sent rd s u' t L M)
  then have "t = s\<lparr>world := sent (world s), transfer_active := False\<rparr>"
    by (auto simp: tokio_cancelled_finish_def tokio_drop_read_stream_def run_simps expect_def split: option.splits)
  with consistent_blocking_update [OF tk_cancel_finish(2), where b = "connection_usable s" and w = "sent (world s)"] show ?case
    by (cases s) simp
next
  case (tk_cancel_upload_finish sent wr s u' t L M)
  then have "t = s\<lparr>world := sent (world s), transfer_active := False\<rparr>"
    by (auto simp: tokio_cancelled_upload_finish_def tokio_drop_write_stream_def run_simps expect_def split: option.splits)
  with consistent_blocking_update [OF tk_cancel_upload_finish(2), where b = "connection_usable s" and w = "sent (world s)"] show ?case
    by (cases s) simp
next
  case (tk_poll_read ready rd n rb rd' s L M)
  then show ?case using poll_read_alive [of rd F ready n rb rd'] by (auto simp: tokio_consistent_def consistent_def)
next
  case (tk_finish_reading rd s r t L M)
  then obtain inner where i: "rd_inner rd = Some inner" using alive_reading by blast
  obtain res w where "tokio_completion F inner (rd_at_eof rd) (world s) = (res, w)" by force
  from tokio_closing_read [OF i this] tk_finish_reading have "t = closed res w s" by simp
  with tokio_closed_consistent [OF tk_finish_reading(2)] show ?case by simp
next
  case (tk_drop_reading rd s u' t L M)
  then obtain inner where i: "rd_inner rd = Some inner" using alive_reading by blast
  from tokio_drop_read_run [OF i, of F s] tk_drop_reading(1) consistent_blocking_update [OF tk_drop_reading(2)]
  show ?case by simp
next
  case (tk_finish_writing wr s r t L M)
  then obtain inner where i: "wr_inner wr = Some inner" using alive_writing by blast
  obtain res w where "upload_completion F inner (world s) = (res, w)" by force
  from tokio_closing_write [OF i this] tk_finish_writing have "t = closed res w s" by simp
  with tokio_closed_consistent [OF tk_finish_writing(2)] show ?case by simp
next
  case (tk_drop_writing wr s u' t L M)
  then obtain inner where i: "wr_inner wr = Some inner" using alive_writing by blast
  from tokio_drop_write_run [OF i, of F s] tk_drop_writing(1)
    consistent_blocking_update [OF tk_drop_writing(2), where b = "connection_usable s"]
  show ?case by simp
qed (blast intro: tokio_perform_consistent dest: poll_write_world intro: tokio_world_consistent)+

lemma tokio_reachable_consistent: "tokio_reachable F x \<Longrightarrow> tokio_consistent x"
  by (induction rule: tokio_reachable.induct) (auto simp: tokio_consistent_start intro: tokio_step_consistent)

end
