(* ===== verification/Tokio_Props.thy ===== *)
theory Tokio_Props
  imports Tokio_Session Sync_Props
begin

text \<open>
  The properties of the asynchronous client with one task. Witnesses run against the demonstration
  server.
\<close>

section \<open>The demonstration server, asynchronously\<close>

definition demo_tokio :: "(string list, nat) tokio_ftp_fs" where
  "demo_tokio = (tokio_new ''host'' 21 [])\<lparr>tk_stream := Some \<lparr> ctl_handle = 0, ctl_hooked = False \<rparr>,
     tk_connected := True\<rparr>"

lemma demo_tokio_released: "released demo_tokio" "refused demo_tokio = None"
  by (simp_all add: demo_tokio_def tokio_new_def released_def mirrored_def refused_def refusal_def blocking_def)

lemma demo_tokio_blocking: "blocking demo_tokio = demo_client"
  by (simp add: demo_tokio_def demo_client_def tokio_new_def new_def blocking_def)

lemma demo_async: "async_contract demo_lib"
  by (auto simp: async_contract_def demo_lib_def calm_def split: if_splits option.splits)

section \<open>One task\<close>

text \<open>
  C8: Run to its end, the asynchronous client is the blocking one. Any sequence of requests (every
  operation of the interface) gives the same answers from the same state and leaves the same
  state, the mutex free and \<open>connected\<close> the mirror of the control stream; so everything proved
  of the blocking operations holds of the asynchronous ones.
\<close>

theorem asynchronous_client_refines_blocking:
  assumes "async_contract F" "released s"
  shows "in_turn (perform F) reqs (blocking s)
       = map_option (map_prod id blocking) (in_turn (tokio_perform F) reqs s)
    \<and> (\<forall>as t. in_turn (tokio_perform F) reqs s = Some (as, t) \<longrightarrow> released t)
    \<and> is_connected (blocking s) = Some (tokio_is_connected s, blocking s)
    \<and> stream (blocking s) = tokio_stream s"
proof -
  have "free.simulates (in_turn (tokio_perform F) reqs) (in_turn (perform F) reqs)"
    by (rule free.sim_in_turn) (rule sim_perform [OF assms(1)])
  from free.followsD [OF this assms(2)] show ?thesis
    using tokio_is_connected_run [OF assms(2)] tokio_stream_blocking [of s] by blast
qed

definition demo_requests :: "request list" where
  "demo_requests = [CreateDir ''/pub/foo/bar'' None, RemoveDir ''/pub/sub'', Exists ''/pub/zzz'',
     OpenFile ''/pub/a.txt'' \<lparr> ro_offset = Some 6, ro_length = None \<rparr>, ListDir ''/pub'']"

theorem asynchronous_client_refines_blocking_witness:
  "in_turn (perform demo_lib) demo_requests (blocking demo_tokio)
     = map_option (map_prod id blocking) (in_turn (tokio_perform demo_lib) demo_requests demo_tokio)"
  using asynchronous_client_refines_blocking [OF demo_async demo_tokio_released(1), of demo_requests] by blast

text \<open>
  What the asynchronous client reports missing is missing, by the same evidence: a proved
  absence from complete listings, never a refusal alone.
\<close>

theorem async_absence_is_proved:
  assumes "async_contract F" "released s"
    and "server_stable F P ls" "ensure_contract (lib_ensure F)" "P (blocking s)" "wire_path path"
    and "file_tree present" "complete_listings ls present" "candid_listings ls"
  shows "(\<forall>e t. tokio_stat F path s = Some (Inl e, t) \<longrightarrow> kind e = KNoSuchFileOrDirectory \<longrightarrow> \<not> present path)
    \<and> (\<forall>t. tokio_exists F path s = Some (Inr False, t) \<longrightarrow> \<not> present path)"
  using absence_outcomes [OF assms(3-9)]
    free.followsD(1) [OF sim_stat [OF assms(1)] assms(2), of path]
    free.followsD(1) [OF sim_probes(2) [OF assms(1)] assms(2), of path]
  by auto

theorem async_absence_is_proved_witness:
  "\<exists>e t. tokio_stat demo_lib ''/pub/zzz'' demo_tokio = Some (Inl e, t) \<and> kind e = KNoSuchFileOrDirectory
     \<and> \<not> demo_present ''/pub/zzz''"
proof -
  define r where "r = the (tokio_stat demo_lib ''/pub/zzz'' demo_tokio)"
  have "tokio_stat demo_lib ''/pub/zzz'' demo_tokio = Some (Inl (projl (fst r)), snd r)"
    "kind (projl (fst r)) = KNoSuchFileOrDirectory"
    unfolding r_def by code_simp+
  moreover have "wire_path ''/pub/zzz''" by code_simp
  moreover have "demo_state (blocking demo_tokio)"
    using demo_client_state by (simp add: demo_tokio_blocking)
  ultimately show ?thesis
    using async_absence_is_proved [OF demo_async demo_tokio_released(1) demo_stable demo_contract _ _
        demo_tree demo_complete demo_candid, of "''/pub/zzz''"] by blast
qed

text \<open>A session of the demonstration server, with a download open.\<close>

lemma demo_tokio_session:
  "\<exists>s rd. tokio_reachable demo_lib (s :: (string list, nat) tokio_ftp_fs, [Reading rd])"
proof -
  define s0 where "s0 = (tokio_new ''host'' 21 [] :: (string list, nat) tokio_ftp_fs)"
  define c where "c = the (tokio_perform demo_lib Connect s0)"
  define req where "req = OpenFile ''/pub/a.txt'' \<lparr> ro_offset = None, ro_length = None \<rparr>"
  define o2 where "o2 = the (tokio_perform demo_lib req (snd c))"
  have "tokio_perform demo_lib Connect s0 = Some (fst c, snd c)" "handles (fst c) = []"
    unfolding c_def s0_def by code_simp+
  moreover have "tokio_perform demo_lib req (snd c) = Some (fst o2, snd o2)"
    unfolding o2_def req_def c_def s0_def by code_simp
  moreover obtain rd where "handles (fst o2) = [Reading rd]"
  proof -
    have "(case handles (fst o2) of [Reading rd] \<Rightarrow> True | _ \<Rightarrow> False)"
      unfolding o2_def req_def c_def s0_def by code_simp
    then show thesis using that by (auto split: list.splits handle.splits)
  qed
  ultimately have "tokio_reachable demo_lib (snd o2, [Reading rd])"
    using tk_start [of demo_lib "''host''" 21 "[]"] unfolding s0_def [symmetric]
    by (metis append.right_neutral tk_request tk_step)
  then show ?thesis by blast
qed

text \<open>
  C11: In every session of the asynchronous client (requests, cancellations, and polls, finishes and
  drops of its streams, in any order) at most one stream is alive, it can still be finished, and
  the transfer flag is up exactly while it lives; the mutex is free between steps, and the
  connection the client reports is the one it holds.
\<close>

theorem at_most_one_async_transfer:
  assumes "tokio_reachable F (s, live)"
  shows "length live \<le> 1 \<and> (\<forall>h \<in> set live. alive h) \<and> (transfer_active s \<longleftrightarrow> live \<noteq> [])
    \<and> \<not> tk_locked s \<and> (tk_connected s \<longleftrightarrow> tk_stream s \<noteq> None)
    \<and> (live \<noteq> [] \<longrightarrow> tk_stream s \<noteq> None)"
  using tokio_reachable_consistent [OF assms]
  by (auto simp: tokio_consistent_def consistent_def released_def mirrored_def)

theorem at_most_one_async_transfer_witness:
  "\<exists>s rd. tokio_reachable demo_lib (s, [Reading rd]) \<and> transfer_active s"
proof -
  obtain s rd where r: "tokio_reachable demo_lib (s :: (string list, nat) tokio_ftp_fs, [Reading rd])"
    using demo_tokio_session by blast
  from at_most_one_async_transfer [OF r] r show ?thesis by auto
qed

section \<open>Streams\<close>

text \<open>
  C23: Finishing a stream is what finishing its blocking counterpart is. Dropping one cannot wait:
  nothing is drained and no reply is read, the guard is released, and a download that has not
  seen its end takes the usability of the connection with it, so that the next operation cannot
  read the replies it left.
\<close>

theorem closing_async_streams:
  assumes "async_contract F" "released s" "rd_inner rd = Some inner" "calm (tr_events inner)"
  shows "read_stream_finish F rd (blocking s)
       = map_option (map_prod id blocking) (tokio_read_stream_finish F rd s)
    \<and> write_stream_finish F wr (blocking s)
       = map_option (map_prod id blocking) (tokio_write_stream_finish F wr s)
    \<and> (\<exists>t. tokio_drop_read_stream F rd s = Some ((), t) \<and> \<not> transfer_active t \<and> released t
         \<and> world t = lib_abandon_read F inner (world s) \<and> tk_stream t = tk_stream s
         \<and> (connection_usable t \<longleftrightarrow> connection_usable s \<and> rd_at_eof rd)
         \<and> (\<not> rd_at_eof rd \<longrightarrow> refused t = Some unusable_error))"
proof -
  have c: "calm_stream rd" using assms(3,4) by (simp add: calm_stream_def)
  show ?thesis
    using free.followsD(1) [OF free.sim_read_finish(1) [OF assms(1) c] assms(2)]
      free.followsD(1) [OF free.sim_write_finish assms(2), of F wr]
      tokio_drop_read_run [OF assms(3), of F s] assms(2)
    by (auto simp: released_def refused_def refusal_def)
qed

theorem closing_async_streams_witness:
  "\<exists>t. tokio_drop_read_stream demo_lib (tokio_new_read_stream \<lparr> tr_handle = 0, tr_events = [Chunk ''ab''] \<rparr> None)
       (demo_tokio\<lparr>transfer_active := True\<rparr>) = Some ((), t)
     \<and> \<not> transfer_active t \<and> \<not> connection_usable t"
proof -
  define rd where "rd = tokio_new_read_stream \<lparr> tr_handle = 0 :: nat, tr_events = [Chunk ''ab''] \<rparr> None"
  have rd: "rd_inner rd = Some \<lparr> tr_handle = 0, tr_events = [Chunk ''ab''] \<rparr>" "\<not> rd_at_eof rd"
    by (simp_all add: rd_def tokio_new_read_stream_def)
  have s: "released (demo_tokio\<lparr>transfer_active := True\<rparr>)"
    using demo_tokio_released by (simp add: released_def)
  have c: "calm (tr_events \<lparr> tr_handle = 0 :: nat, tr_events = [Chunk ''ab''] \<rparr>)" by (simp add: calm_def)
  from closing_async_streams [OF demo_async s rd(1) c, of undefined] rd(2)
  show ?thesis unfolding rd_def by blast
qed

text \<open>
  C34: A poll that finds the socket ready is the blocking read of the same stream, with the same
  bytes, budget and end of file; a poll that does not leaves the stream as it is. No poll of an
  unfinished stream panics.
\<close>

theorem polls_read_alike:
  assumes "rd_inner rd \<noteq> None" "0 < lib_usize_max F"
  shows "poll_read F True rd buf = map_option (map_prod Ready id) (read_stream_read F rd buf)
    \<and> poll_read F ready rd buf \<noteq> None
    \<and> (\<forall>r rd'. poll_read F False rd buf = Some (r, rd') \<longrightarrow> rd' = rd \<and> r \<in> {Pending, Ready (Inr [])})"
proof -
  obtain inner where i: "rd_inner rd = Some inner" using assms(1) by blast
  have "unfinished F rd" using assms by (simp add: unfinished_def)
  from sync_reader.read_good [OF this, of buf]
  have "read_stream_read F rd buf \<noteq> None" by blast
  moreover have "poll_read F False rd buf \<noteq> None" using i by (simp add: poll_read_def)
  ultimately show ?thesis
    using poll_ready [OF assms(1), of F buf] poll_pending [of F rd buf] by (cases ready) auto
qed

theorem polls_read_alike_witness:
  "poll_read demo_lib True (new_read_stream \<lparr> tr_handle = 0, tr_events = [Chunk ''abc''] \<rparr> (Some 2)) 9
     = map_option (map_prod Ready id)
         (read_stream_read demo_lib (new_read_stream \<lparr> tr_handle = 0, tr_events = [Chunk ''abc''] \<rparr> (Some 2)) 9)"
  using polls_read_alike [OF _ demo_usize, of "new_read_stream \<lparr> tr_handle = 0, tr_events = [Chunk ''abc''] \<rparr> (Some 2)"]
  by (simp add: new_read_stream_def)

section \<open>Cancellation\<close>

text \<open>Operations of the asynchronous client that its state refuses.\<close>

lemma run_tokio_gate_refused:
  "\<not> tk_locked s \<Longrightarrow> refused s = Some e \<Longrightarrow> attempt lock_stream k s = Some (Inl e, s)"
  by (simp add: run_attempt run_lock_stream)

lemma refused_tokio_raw: "\<not> tk_locked s \<Longrightarrow> refused s = Some e \<Longrightarrow> tokio_list_dir_raw F p remote s = Some (Inl e, s)"
  by (simp add: tokio_list_dir_raw_def run_tokio_gate_refused)

lemma refused_tokio_list_or:
  "\<not> tk_locked s \<Longrightarrow> refused s = Some e \<Longrightarrow> tokio_list_or_prove_absent F p remote s = Some (Inl e, s)"
  using refusal_kinds(1) [of "blocking s" e]
  by (simp add: tokio_list_or_prove_absent_def run_seq refused_tokio_raw refused_def)

lemma refused_tokio_stat:
  assumes "\<not> tk_locked s" "refused s = Some e" "wire_path path" "ensure_contract (lib_ensure F)"
  shows "tokio_stat F path s = Some (Inl e, s)"
proof -
  have r: "remote_path (lib_ensure F) p = Inr p" if "wire_path p" for p
    using that remote_path_contract(1) [OF assms(4)] by simp
  show ?thesis
  proof (cases "path_eq path ''/''")
    case True
    with assms r [OF assms(3)] show ?thesis by (subst tokio_stat.simps) (simp add: run_tokio_gate_refused)
  next
    case False
    then obtain q where q: "parent path = Some q"
      using path_eq_root_iff wire_path_absolute [OF assms(3)] by fastforce
    with r [OF wire_path_parent [OF assms(3) q]] False assms r [OF assms(3)] show ?thesis
      by (subst tokio_stat.simps) (simp add: run_attempt refused_tokio_list_or)
  qed
qed

lemma refused_tokio_operations:
  assumes "\<not> tk_locked s" "refused s = Some e" "ensure_contract (lib_ensure F)" "wire_path p" "wire_path q"
  shows "tokio_list_dir F p s = Some (Inl e, s) \<and> tokio_stat F p s = Some (Inl e, s)
    \<and> tokio_exists F p s = Some (Inl e, s) \<and> tokio_create_dir F p mode s = Some (Inl e, s)
    \<and> tokio_remove_file F p s = Some (Inl e, s) \<and> tokio_remove_dir F p s = Some (Inl e, s)
    \<and> tokio_rename F p q s = Some (Inl e, s) \<and> tokio_exec F cmd s = Some (Inl e, s)
    \<and> tokio_open F p opts s = Some (Inl e, s) \<and> tokio_create F p wopts s = Some (Inl e, s)
    \<and> tokio_append F p wopts s = Some (Inl e, s)"
proof -
  have r: "remote_path (lib_ensure F) p = Inr p" "remote_path (lib_ensure F) q = Inr q"
    using assms(4,5) remote_path_contract(1) [OF assms(3)] by simp_all
  have k: "kind e \<noteq> KNoSuchFileOrDirectory" using refusal_kinds(2) [of "blocking s" e] assms(2) by (simp add: refused_def)
  have c: "run_command cmd s = Some (Inl e, s)" for cmd
    by (simp add: run_command_def run_tokio_gate_refused [OF assms(1,2)])
  have l: "lock_stream s = Some (Inl e, s)" using assms(1,2) by (simp add: run_lock_stream)
  show ?thesis
    using r k refused_tokio_stat [OF assms(1,2,4,3)] refused_tokio_list_or [OF assms(1,2), of F p p]
    by (simp add: tokio_list_dir_def tokio_exists_def tokio_create_dir_def tokio_remove_file_def
        tokio_remove_dir_def tokio_rename_def tokio_exec_def tokio_open_def tokio_create_def
        tokio_append_def Let_def run_attempt run_seq c l)
qed

text \<open>
  C9: A command cancelled while it waits for the server, wherever it had taken the server, leaves
  the mutex free and the connection unusable: listing, \<open>stat\<close>, \<open>exists\<close>, every command and every
  transfer is refused without effect, until \<open>connect\<close>, which drops the stream that may hold unread
  replies before it opens a new one.
\<close>

theorem cancellation_closes_the_gate:
  assumes "released s" "cancelled_command sent s = Some (Inr (), t)"
    and "ensure_contract (lib_ensure F)" "wire_path p" "wire_path q"
  shows "released t \<and> \<not> connection_usable t \<and> tk_stream t = tk_stream s \<and> world t = sent (world s)
    \<and> \<not> tokio_is_connected t \<and> tokio_stream t = None
    \<and> tokio_list_dir F p t = Some (Inl unusable_error, t) \<and> tokio_stat F p t = Some (Inl unusable_error, t)
    \<and> tokio_exists F p t = Some (Inl unusable_error, t) \<and> tokio_create_dir F p mode t = Some (Inl unusable_error, t)
    \<and> tokio_remove_file F p t = Some (Inl unusable_error, t) \<and> tokio_remove_dir F p t = Some (Inl unusable_error, t)
    \<and> tokio_rename F p q t = Some (Inl unusable_error, t) \<and> tokio_exec F cmd t = Some (Inl unusable_error, t)
    \<and> tokio_open F p opts t = Some (Inl unusable_error, t) \<and> tokio_create F p wopts t = Some (Inl unusable_error, t)
    \<and> tokio_append F p wopts t = Some (Inl unusable_error, t)
    \<and> tk_stream (tokio_cleared F t) = None
    \<and> tokio_connect F t = tokio_connect F (tokio_cleared F t)"
proof -
  have l: "\<not> tk_locked s" using assms(1) by (simp add: released_def)
  from run_cancelled [OF l, of sent] assms(2)
  have t: "refused s = None" "t = s\<lparr>connection_usable := False, world := sent (world s)\<rparr>"
    by (auto split: option.splits)
  then have a: "\<not> transfer_active s" using refusal_None [of "blocking s"] by (simp add: refused_def)
  have r: "released t" "refused t = Some unusable_error" "\<not> tk_locked t"
    using t a l assms(1) by (auto simp: released_def mirrored_def refused_def refusal_def)
  have "tokio_connect F t = tokio_connect F (tokio_cleared F t)"
    using t a by (simp add: tokio_connect_run tokio_cleared_def)
  moreover have "tk_stream (tokio_cleared F t) = None" "\<not> tokio_is_connected t" "tokio_stream t = None"
    using t(2) by (simp_all add: tokio_is_connected_def tokio_stream_def tokio_cleared_def)
  ultimately show ?thesis
    using r(1) t(2) refused_tokio_operations [OF r(3,2) assms(3-5)] by simp
qed

theorem cancellation_closes_the_gate_witness:
  "\<exists>t. cancelled_command (\<lambda>w. ''SITE'' # w) demo_tokio = Some (Inr (), t)
     \<and> \<not> connection_usable t \<and> tokio_exec demo_lib ''HELP'' t = Some (Inl unusable_error, t)
     \<and> tokio_rename demo_lib ''/'' ''/'' t = Some (Inl unusable_error, t)"
proof -
  have l: "\<not> tk_locked demo_tokio" using demo_tokio_released by (simp add: released_def)
  obtain t where t: "cancelled_command (\<lambda>w. ''SITE'' # w) demo_tokio = Some (Inr (), t)"
    using run_cancelled [OF l] demo_tokio_released(2) by simp
  from cancellation_closes_the_gate [OF demo_tokio_released(1) t demo_contract wire_path_root wire_path_root] t
  show ?thesis by blast
qed

text \<open>
  A reconnect that fails leaves the banner of the old connection. On an unusable connection
  \<open>connect\<close> drops the stream first; when opening the new one fails, the client has no stream and
  reports itself disconnected, but \<open>welcome_message\<close> still answers with the old banner.
\<close>

theorem failed_reconnect_keeps_banner:
  assumes "\<not> transfer_active s" "\<not> connection_usable s" "tokio_connect F s = Some (Inl e, t)"
  shows "tokio_welcome_message t = tokio_welcome_message s \<and> tk_stream t = None \<and> \<not> tokio_is_connected t"
proof -
  from assms tokio_connect_run [of s F] have "tokio_open_control F (tokio_cleared F s) = Some (Inl e, t)"
    by (auto split: option.splits sum.splits)
  with remote_only.framedD [OF remote_tokio_open_control TrueI] have "only_world (tokio_cleared F s) t" by blast
  with assms(1,2) show ?thesis
    by (auto simp: only_world_def tokio_cleared_def tokio_welcome_message_def tokio_is_connected_def)
qed

definition gone_lib :: "(string list, nat, nat) ftp_lib" where
  "gone_lib = demo_lib\<lparr>lib_connect := (\<lambda>addr w. (Inl BadResponse, addr # w))\<rparr>"

theorem failed_reconnect_keeps_banner_witness:
  "\<exists>t. tokio_connect gone_lib (demo_tokio\<lparr>tk_welcome := Some ''hi'', connection_usable := False\<rparr>)
       = Some (Inl (ftp_error BadResponse), t)
     \<and> tokio_welcome_message t = Some ''hi'' \<and> tk_stream t = None"
proof -
  define s where "s = demo_tokio\<lparr>tk_welcome := Some ''hi'', connection_usable := False\<rparr>"
  define t where "t = snd (the (tokio_connect gone_lib s))"
  have "tokio_connect gone_lib s = Some (Inl (ftp_error BadResponse), t)" "\<not> transfer_active s" "\<not> connection_usable s"
    "tokio_welcome_message s = Some ''hi''"
    unfolding t_def s_def by code_simp+
  with failed_reconnect_keeps_banner [of s gone_lib "ftp_error BadResponse" t] show ?thesis unfolding s_def by simp
qed

end
