(* ===== verification/Pools.thy ===== *)
theory Pools
  imports Prelude
begin

text \<open>
  Strands that share a state: threads or tasks, each between two of its steps. One strand moves
  at a time; new strands begin at any time. The locale proves once what both clients need: a
  resource that every step accounts for is used by at most one strand, and a pool whose strands
  wait for nothing but one mutex can always be run until every strand rests.
\<close>

section \<open>Steps\<close>

inductive pool_step ::
  "('s \<Rightarrow> 'k \<Rightarrow> 's \<Rightarrow> 'k \<Rightarrow> bool) \<Rightarrow> ('k \<Rightarrow> bool) \<Rightarrow> 's \<times> 'k list \<Rightarrow> 's \<times> 'k list \<Rightarrow> bool"
  for strand_step :: "'s \<Rightarrow> 'k \<Rightarrow> 's \<Rightarrow> 'k \<Rightarrow> bool" and fresh :: "'k \<Rightarrow> bool" where
  moves: "strand_step s k t k' \<Longrightarrow> pool_step strand_step fresh (s, ks @ k # js) (t, ks @ k' # js)"
| begins: "fresh k \<Longrightarrow> pool_step strand_step fresh (s, ks) (s, ks @ [k])"

inductive_cases pool_stepE: "pool_step st fresh x y"

abbreviation pool_reach ::
  "('s \<Rightarrow> 'k \<Rightarrow> 's \<Rightarrow> 'k \<Rightarrow> bool) \<Rightarrow> ('k \<Rightarrow> bool) \<Rightarrow> 's \<times> 'k list \<Rightarrow> 's \<times> 'k list \<Rightarrow> bool" where
  "pool_reach st fresh \<equiv> (pool_step st fresh)\<^sup>*\<^sup>*"

lemma reach_move:
  "pool_reach st fresh x (s, ks @ k # js) \<Longrightarrow> st s k t k' \<Longrightarrow> pool_reach st fresh x (t, ks @ k' # js)"
  by (erule rtranclp.rtrancl_into_rtrancl) (rule moves)

text \<open>The steps of one strand, the others standing still.\<close>

inductive runs :: "('s \<Rightarrow> 'k \<Rightarrow> 's \<Rightarrow> 'k \<Rightarrow> bool) \<Rightarrow> 's \<Rightarrow> 'k \<Rightarrow> 's \<Rightarrow> 'k \<Rightarrow> bool"
  for strand_step :: "'s \<Rightarrow> 'k \<Rightarrow> 's \<Rightarrow> 'k \<Rightarrow> bool" where
  stays: "runs strand_step s k s k"
| goes: "strand_step s k t k' \<Longrightarrow> runs strand_step t k' u k'' \<Longrightarrow> runs strand_step s k u k''"

lemma runs_step: "st s k t k' \<Longrightarrow> runs st s k t k'"
  by (blast intro: runs.intros)

lemma runs_trans: "runs st s k t k' \<Longrightarrow> runs st t k' u k'' \<Longrightarrow> runs st s k u k''"
  by (induction rule: runs.induct) (auto intro: runs.goes)

lemma reach_runs:
  "runs st s k t k' \<Longrightarrow> pool_reach st fresh (s, ks @ k # js) (t, ks @ k' # js)"
proof (induction rule: runs.induct)
  case (goes s k t k' u k'')
  from moves [where strand_step = st and fresh = fresh, OF goes(1)] goes(3) show ?case
    by (rule converse_rtranclp_into_rtranclp)
qed simp

section \<open>Resources\<close>

text \<open>
  \<open>used r\<close> tells from the state that the resource is taken and \<open>uses r\<close> from a strand that it took
  it. \<open>fits\<close> is what a strand may assume of the state at its place; every step of another strand
  that uses none of the same resources keeps it.
\<close>

locale pool =
  fixes strand_step :: "'s \<Rightarrow> 'k \<Rightarrow> 's \<Rightarrow> 'k \<Rightarrow> bool"
    and fresh :: "'k \<Rightarrow> bool"
    and used :: "'r \<Rightarrow> 's \<Rightarrow> bool"
    and uses :: "'r \<Rightarrow> 'k \<Rightarrow> bool"
    and fits :: "'s \<Rightarrow> 'k \<Rightarrow> bool"
  assumes fresh_idle: "fresh k \<Longrightarrow> \<not> uses r k"
    and fresh_fits: "fresh k \<Longrightarrow> fits s k"
    and accounts: "strand_step s k t k' \<Longrightarrow> fits s k \<Longrightarrow> (\<And>r. uses r k \<Longrightarrow> used r s) \<Longrightarrow>
        of_bool (used r t) + of_bool (uses r k) = (of_bool (used r s) + of_bool (uses r k') :: nat)"
    and own: "strand_step s k t k' \<Longrightarrow> fits s k \<Longrightarrow> (\<And>r. uses r k \<Longrightarrow> used r s) \<Longrightarrow> fits t k'"
    and others: "strand_step s k t k' \<Longrightarrow> fits s k \<Longrightarrow> fits s j \<Longrightarrow> (\<And>r. uses r k \<Longrightarrow> used r s) \<Longrightarrow>
        (\<And>r. uses r j \<Longrightarrow> used r s) \<Longrightarrow> (\<And>r. uses r k \<Longrightarrow> \<not> uses r j) \<Longrightarrow> fits t j"
begin

definition sound :: "'s \<times> 'k list \<Rightarrow> bool" where
  "sound x \<longleftrightarrow> (case x of (s, ks) \<Rightarrow>
     (\<forall>r. length (filter (uses r) ks) = of_bool (used r s)) \<and> (\<forall>k \<in> set ks. fits s k))"

lemma sound_fits: "sound (s, ks) \<Longrightarrow> k \<in> set ks \<Longrightarrow> fits s k"
  by (simp add: sound_def)

lemma sound_count: "sound (s, ks) \<Longrightarrow> length (filter (uses r) ks) = of_bool (used r s)"
  by (simp add: sound_def)

lemma sound_used: "sound (s, ks) \<Longrightarrow> k \<in> set ks \<Longrightarrow> uses r k \<Longrightarrow> used r s"
  using sound_count [of s ks r] by (cases "used r s") (auto simp: filter_empty_conv)

lemma sound_user: "sound (s, ks) \<Longrightarrow> used r s \<Longrightarrow> \<exists>k \<in> set ks. uses r k"
  using sound_count [of s ks r] by (auto simp: length_Suc_conv filter_eq_Cons_iff)

lemma sound_apart:
  assumes "sound (s, ks @ k # js)" "j \<in> set ks \<union> set js" "uses r k"
  shows "\<not> uses r j"
proof
  assume "uses r j"
  with assms(2) have "0 < length (filter (uses r) ks) + length (filter (uses r) js)"
    by (auto simp: filter_empty_conv)
  with sound_count [OF assms(1), of r] assms(3) show False by (cases "used r s") auto
qed

lemma sound_alone:
  assumes "sound (s, ks)" "k \<in> set ks" "j \<in> set ks" "uses r k" "uses r j"
  shows "j = k"
proof -
  from split_list [OF assms(2)] obtain as bs where ks: "ks = as @ k # bs" by blast
  with assms(1) have "sound (s, as @ k # bs)" by simp
  from sound_apart [OF this _ assms(4), of j] assms(3,5) ks show ?thesis by auto
qed

lemma step_sound:
  assumes "pool_step strand_step fresh x y" "sound x"
  shows "sound y"
  using assms(1)
proof cases
  case (moves s k t k' ks js)
  with assms(2) have s: "sound (s, ks @ k # js)" by simp
  have f: "fits s k" using sound_fits [OF s] by simp
  have u: "used r s" if "uses r k" for r using sound_used [OF s _ that] by simp
  have "length (filter (uses r) (ks @ k' # js)) = of_bool (used r t)" for r
    using sound_count [OF s, of r] accounts [OF moves(3) f u, of r]
    by (cases "uses r k"; cases "uses r k'") auto
  moreover have "fits t j" if "j \<in> set (ks @ k' # js)" for j
  proof (cases "j = k'")
    case True
    with own [OF moves(3) f u] show ?thesis by simp
  next
    case False
    with that have j: "j \<in> set ks \<union> set js" by simp
    show ?thesis
      by (rule others [OF moves(3) f _ u]) (use sound_fits [OF s] sound_used [OF s] sound_apart [OF s j] j in auto)
  qed
  ultimately show ?thesis using moves by (simp add: sound_def)
next
  case (begins k s ks)
  with assms(2) show ?thesis by (auto simp: sound_def fresh_idle fresh_fits)
qed

lemma reach_sound: "pool_reach strand_step fresh x y \<Longrightarrow> sound x \<Longrightarrow> sound y"
  by (induction rule: rtranclp_induct) (auto intro: step_sound)

end

section \<open>Running to rest\<close>

text \<open>
  A strand that does not rest can move, unless it waits for the mutex while it is taken; one that
  holds the mutex does not wait. Moving brings a strand closer to its rest.
\<close>

locale draining_pool = pool +
  fixes mutex :: 'c
    and waits :: "'b \<Rightarrow> bool" and rests :: "'b \<Rightarrow> bool" and rank :: "'b \<Rightarrow> nat"
  assumes holder: "uses mutex k \<Longrightarrow> \<not> waits k \<and> \<not> rests k"
    and moving: "fits s k \<Longrightarrow> (\<And>r. uses r k \<Longrightarrow> used r s) \<Longrightarrow> \<not> rests k \<Longrightarrow> (waits k \<Longrightarrow> \<not> used mutex s)
      \<Longrightarrow> \<exists>t k'. strand_step s k t k' \<and> rank k' < rank k"
begin

lemma some_move:
  assumes "sound (s, ks)" "\<exists>k \<in> set ks. \<not> rests k"
  obtains as k bs t k' where "ks = as @ k # bs" "strand_step s k t k'" "rank k' < rank k"
proof -
  obtain k where k: "k \<in> set ks" "\<not> rests k" "waits k \<longrightarrow> \<not> used mutex s"
    using assms(2) sound_user [OF assms(1), of mutex] holder by blast
  then obtain t k' where "strand_step s k t k'" "rank k' < rank k"
    using moving [of s k] sound_fits [OF assms(1)] sound_used [OF assms(1)] by blast
  with split_list [OF k(1)] that show thesis by blast
qed

lemma drains:
  assumes "sound (s, ks)"
  shows "\<exists>t js. pool_reach strand_step fresh (s, ks) (t, js) \<and> list_all rests js \<and> length js = length ks"
  using assms
proof (induction "sum_list (map rank ks)" arbitrary: s ks rule: less_induct)
  case less
  show ?case
  proof (cases "list_all rests ks")
    case True
    then show ?thesis by blast
  next
    case False
    then obtain as k bs t k' where m: "ks = as @ k # bs" "strand_step s k t k'" "rank k' < rank k"
      using some_move [OF less(2)] by (metis list_all_iff)
    then have st: "pool_step strand_step fresh (s, ks) (t, as @ k' # bs)" by (simp add: moves)
    with m less(1) [OF _ step_sound [OF st less(2)]] obtain u js where
      "pool_reach strand_step fresh (t, as @ k' # bs) (u, js)" "list_all rests js"
      "length js = length (as @ k' # bs)" by auto
    with st m(1) show ?thesis by (metis converse_rtranclp_into_rtranclp length_append length_Cons)
  qed
qed

end

section \<open>Streams that outlive their calls\<close>

text \<open>
  A strand at rest uses no resource, unless it owns a stream: then it uses the transfer. So a pool
  begins with the streams of a session, and one at rest has left the streams of a session.
\<close>

locale session_pool = draining_pool +
  fixes transfer :: 'c
    and owning :: "'h \<Rightarrow> 'b" and handle :: "'b \<Rightarrow> 'h list" and live :: "'h \<Rightarrow> bool"
  assumes handle_owning: "handle (owning h) = [h]"
    and owning_handle: "handle k \<noteq> [] \<Longrightarrow> \<exists>h. k = owning h"
    and resting_uses: "rests k \<Longrightarrow> uses r k \<longleftrightarrow> r = transfer \<and> handle k \<noteq> []"
    and owning_rests: "rests (owning h)"
    and owning_fits: "fits s (owning h) = live h"
begin

lemma start_sound:
  assumes "\<And>r. r \<noteq> transfer \<Longrightarrow> \<not> used r s" "length L = of_bool (used transfer s)" "\<forall>h \<in> set L. live h"
    "list_all fresh ks"
  shows "sound (s, map owning L @ ks)"
proof -
  have "filter (uses r) ks = []" for r
    using assms(4) fresh_idle by (auto simp: list_all_iff filter_empty_conv)
  moreover have "uses r (owning h) \<longleftrightarrow> r = transfer" for r h
    using resting_uses [OF owning_rests] handle_owning by simp
  ultimately have "length (filter (uses r) (map owning L @ ks)) = of_bool (used r s)" for r
    using assms(1,2) by (cases "r = transfer") (auto simp: filter_map o_def)
  moreover have "fits s k" if "k \<in> set (map owning L @ ks)" for k
    using that assms(3,4) owning_fits fresh_fits by (auto simp: list_all_iff)
  ultimately show ?thesis by (simp add: sound_def)
qed

lemma resting_streams:
  "list_all rests ks \<Longrightarrow> map owning (concat (map handle ks)) = filter (uses transfer) ks"
proof (induction ks)
  case (Cons k ks)
  then show ?case
    using resting_uses [of k transfer] owning_handle [of k] handle_owning by (cases "handle k") auto
qed simp

lemma rest_sound:
  assumes "sound (s, ks)" "list_all rests ks"
  shows "r \<noteq> transfer \<Longrightarrow> \<not> used r s"
    and "length (concat (map handle ks)) = of_bool (used transfer s)"
    and "\<forall>h \<in> set (concat (map handle ks)). live h"
proof -
  show "\<not> used r s" if "r \<noteq> transfer"
    using that sound_user [OF assms(1), of r] resting_uses assms(2) by (auto simp: list_all_iff)
  note m = resting_streams [OF assms(2)]
  show "length (concat (map handle ks)) = of_bool (used transfer s)"
    using sound_count [OF assms(1), of transfer] arg_cong [OF m, of length] by simp
  show "\<forall>h \<in> set (concat (map handle ks)). live h"
  proof
    fix h assume "h \<in> set (concat (map handle ks))"
    then have "owning h \<in> set (map owning (concat (map handle ks)))" by simp
    then have "owning h \<in> set ks" unfolding m by auto
    from sound_fits [OF assms(1) this] show "live h" by (simp add: owning_fits)
  qed
qed

end

end
