(* ===== verification/Serial.thy ===== *)
theory Serial
  imports Pools "HOL-Library.Multiset"
begin

text \<open>
  Pools whose calls are serial. The calls of a pool interleave, but each takes effect in one critical
  section; so a history that ended well is one in which the calls ran one after the other, in an
  order that respects which call had ended before which began.
\<close>

section \<open>Serial runs\<close>

fun replay :: "('c \<Rightarrow> ('s, 'r) act) \<Rightarrow> 'c list \<Rightarrow> ('s, 'r list) act" where
  "replay whole [] = ret []"
| "replay whole (c # cs) = seq (whole c) (\<lambda>r. seq (replay whole cs) (\<lambda>rs. ret (r # rs)))"

lemma replay_snoc:
  "replay whole cs s = Some (rs, u) \<Longrightarrow> whole c u = Some (r, t) \<Longrightarrow> replay whole (cs @ [c]) s = Some (rs @ [r], t)"
  by (induction cs arbitrary: s rs) (auto simp: run_seq elim!: seq_SomeE split: option.splits)

text \<open>A pool that nobody joins.\<close>

abbreviation pool_runs :: "('s \<Rightarrow> 'k \<Rightarrow> 's \<Rightarrow> 'k \<Rightarrow> bool) \<Rightarrow> 's \<times> 'k list \<Rightarrow> 's \<times> 'k list \<Rightarrow> bool" where
  "pool_runs st \<equiv> pool_reach st (\<lambda>_. False)"

lemma closed_step:
  assumes "pool_step st (\<lambda>_. False) (s, ks) y"
  obtains i t k where "i < length ks" "st s (ks ! i) t k" "y = (t, ks[i := k])"
  using assms
proof cases
  case (moves k t k' as bs)
  then show thesis by (intro that [of "length as" t k']) auto
qed simp

lemma closed_joins: "pool_runs st x y \<Longrightarrow> pool_reach st fresh x y"
proof (induction rule: rtranclp_induct)
  case (step y z)
  from step(2) have "pool_step st fresh y z"
    by cases (auto intro: moves)
  with step(3) show ?case by (rule rtranclp.rtrancl_into_rtrancl)
qed simp

lemma pool_runs_length: "pool_runs st x y \<Longrightarrow> length (snd y) = length (snd x)"
  by (induction rule: rtranclp_induct) (auto elim!: pool_step.cases)

section \<open>The contract\<close>

text \<open>
  A call begins as \<open>start c\<close> and alone does \<open>whole c\<close>. \<open>within c u t k\<close>: the call entered its critical
  section when the state was \<open>u\<close>, now the state is \<open>t\<close> and the strand is at \<open>k\<close>; \<open>ended r k\<close>: it has
  left with the result \<open>r\<close>. A strand is spoiled, or the state broken, when the history is none of
  calls that ended well; both stay so.
\<close>

locale serial_pool = pool +
  fixes start :: "'d \<Rightarrow> 'b" and whole :: "'d \<Rightarrow> ('a, 'e) act" and free :: "'a \<Rightarrow> bool"
    and within :: "'d \<Rightarrow> 'a \<Rightarrow> 'a \<Rightarrow> 'b \<Rightarrow> bool" and ended :: "'e \<Rightarrow> 'b \<Rightarrow> bool"
    and spoiled :: "'b \<Rightarrow> bool" and broken :: "'a \<Rightarrow> bool"
  assumes enters: "strand_step t (start c) t' k \<Longrightarrow> \<not> spoiled k \<Longrightarrow> free t \<and> within c t t' k"
    and proceeds: "within c u t k \<Longrightarrow> strand_step t k t' k' \<Longrightarrow> \<not> spoiled k' \<Longrightarrow>
        within c u t' k' \<or> (\<exists>r. ended r k' \<and> whole c u = Some (r, t') \<and> free t')"
    and inside: "within c u t k \<Longrightarrow> \<not> free t \<and> \<not> ended r k \<and> k \<noteq> start d"
    and stays_ended: "ended r k \<Longrightarrow> strand_step t k t' k' \<Longrightarrow> \<not> spoiled k' \<Longrightarrow> ended r k' \<and> t' = t"
    and ended_intact: "ended r k \<Longrightarrow> \<not> spoiled k \<and> k \<noteq> start c"
    and stays_spoiled: "strand_step t k t' k' \<Longrightarrow> fits t k \<Longrightarrow> (\<And>r. uses r k \<Longrightarrow> used r t) \<Longrightarrow>
        spoiled k \<Longrightarrow> spoiled k' \<or> broken t'"
    and stays_broken: "strand_step t k t' k' \<Longrightarrow> fits t k \<Longrightarrow> (\<And>r. uses r k \<Longrightarrow> used r t) \<Longrightarrow>
        broken t \<Longrightarrow> broken t'"
begin

section \<open>The order of the critical sections\<close>

definition lost_history :: "'a \<times> 'b list \<Rightarrow> bool" where
  "lost_history x \<longleftrightarrow> broken (fst x) \<or> (\<exists>k \<in> set (snd x). spoiled k)"

lemma step_lost:
  assumes "pool_step strand_step (\<lambda>_. False) x y" "sound x" "lost_history x"
  shows "lost_history y"
proof -
  obtain t ks where x: "x = (t, ks)" by force
  from assms(1) obtain i t' k where i: "i < length ks" "strand_step t (ks ! i) t' k" "y = (t', ks[i := k])"
    unfolding x by (rule closed_step)
  have f: "fits t (ks ! i)" using sound_fits [of t ks] assms(2) x i(1) by simp
  have u: "used r t" if "uses r (ks ! i)" for r
    using sound_used [of t ks "ks ! i" r] assms(2) x i(1) that by simp
  show ?thesis
  proof (cases "broken t")
    case True
    with stays_broken [OF i(2) f u] i(3) show ?thesis by (simp add: lost_history_def)
  next
    case False
    with assms(3) x obtain j where j: "j < length ks" "spoiled (ks ! j)"
      by (auto simp: lost_history_def in_set_conv_nth)
    show ?thesis
    proof (cases "j = i")
      case True
      with stays_spoiled [OF i(2) f u] j(2) i(1,3) show ?thesis
        by (auto simp: lost_history_def intro: set_update_memI)
    next
      case False
      then have "ks[i := k] ! j = ks ! j" by simp
      with j i(3) show ?thesis by (metis (no_types) length_list_update lost_history_def nth_mem snd_conv)
    qed
  qed
qed

lemma reach_closed_sound: "pool_runs strand_step x y \<Longrightarrow> sound x \<Longrightarrow> sound y"
  by (rule reach_sound [OF closed_joins])

lemma reach_lost: "pool_runs strand_step x y \<Longrightarrow> sound x \<Longrightarrow> lost_history x \<Longrightarrow> lost_history y"
proof (induction rule: rtranclp_induct)
  case (step y z)
  then show ?case using step_lost reach_closed_sound by blast
qed simp

text \<open>
  The calls whose indices are in \<open>xs\<close> have run, in this order; at most one other call is in its
  critical section, and the rest have not begun.
\<close>

definition serial :: "'a \<Rightarrow> 'd list \<Rightarrow> nat list \<Rightarrow> 'a \<times> 'b list \<Rightarrow> bool" where
  "serial s cs xs x \<longleftrightarrow> (case x of (t, ks) \<Rightarrow> \<exists>rs u inner.
     length ks = length cs \<and> distinct xs \<and> set xs \<subseteq> {..<length cs} \<and>
     replay whole (map ((!) cs) xs) s = Some (rs, u) \<and> list_all2 (\<lambda>r i. ended r (ks ! i)) rs xs \<and>
     inner \<subseteq> {..<length cs} - set xs \<and>
     (\<forall>i \<in> {..<length cs} - set xs - inner. ks ! i = start (cs ! i)) \<and>
     (inner = {} \<and> free t \<and> u = t \<or> (\<exists>j. inner = {j} \<and> within (cs ! j) u t (ks ! j))))"

lemma serialE:
  assumes "serial s cs xs (t, ks)"
  obtains rs u inner where "length ks = length cs" "distinct xs" "set xs \<subseteq> {..<length cs}"
    "replay whole (map ((!) cs) xs) s = Some (rs, u)" "list_all2 (\<lambda>r i. ended r (ks ! i)) rs xs"
    "inner \<subseteq> {..<length cs} - set xs"
    "\<forall>i \<in> {..<length cs} - set xs - inner. ks ! i = start (cs ! i)"
    "inner = {} \<and> free t \<and> u = t \<or> (\<exists>j. inner = {j} \<and> within (cs ! j) u t (ks ! j))"
  using assms unfolding serial_def prod.case by (elim exE conjE) (rule that)

lemma serialI:
  assumes "length ks = length cs" "distinct xs" "set xs \<subseteq> {..<length cs}"
    "replay whole (map ((!) cs) xs) s = Some (rs, u)" "list_all2 (\<lambda>r i. ended r (ks ! i)) rs xs"
    "inner \<subseteq> {..<length cs} - set xs"
    "\<forall>i \<in> {..<length cs} - set xs - inner. ks ! i = start (cs ! i)"
    "inner = {} \<and> free t \<and> u = t \<or> (\<exists>j. inner = {j} \<and> within (cs ! j) u t (ks ! j))"
  shows "serial s cs xs (t, ks)"
  unfolding serial_def prod.case using assms by (intro exI conjI)

lemma serial_begins: "free s \<Longrightarrow> serial s cs [] (s, map start cs)"
  by (rule serialI [where rs = "[]" and inner = "{}"]) auto

lemma step_serial:
  assumes "pool_step strand_step (\<lambda>_. False) x y" "serial s cs xs x" "\<not> lost_history y"
  shows "\<exists>ys. serial s cs (xs @ ys) y"
proof -
  obtain t ks where x: "x = (t, ks)" by force
  from assms(1) obtain i t' k where i: "i < length ks" "strand_step t (ks ! i) t' k" and y: "y = (t', ks[i := k])"
    unfolding x by (rule closed_step)
  from assms(2) obtain rs u inner where
    len: "length ks = length cs" "distinct xs" "set xs \<subseteq> {..<length cs}"
    and run: "replay whole (map ((!) cs) xs) s = Some (rs, u)" "list_all2 (\<lambda>r i. ended r (ks ! i)) rs xs"
    and inn: "inner \<subseteq> {..<length cs} - set xs"
    and rest: "\<forall>i \<in> {..<length cs} - set xs - inner. ks ! i = start (cs ! i)"
    and crit: "inner = {} \<and> free t \<and> u = t \<or> (\<exists>j. inner = {j} \<and> within (cs ! j) u t (ks ! j))"
    unfolding x by (rule serialE)
  have k: "\<not> spoiled k" using assms(3) y i(1) by (auto simp: lost_history_def intro: set_update_memI)
  have rest': "\<forall>m \<in> {..<length cs} - set xs - inner - {i}. ks[i := k] ! m = start (cs ! m)" using rest by simp
  have keep: "list_all2 (\<lambda>r m. ended r (ks[i := k] ! m)) rs xs" if "i \<notin> set xs"
    using that by (intro list.rel_mono_strong [OF run(2)]) (metis nth_list_update_neq)
  consider (ended) "i \<in> set xs" | (critical) "inner = {i}" "i \<notin> set xs"
    | (beginning) "i \<notin> set xs" "i \<notin> inner" using inn crit by blast
  then show ?thesis
  proof cases
    case ended
    then obtain n where n: "n < length xs" "xs ! n = i" by (auto simp: in_set_conv_nth)
    with run(2) have "ended (rs ! n) (ks ! i)" by (auto simp: list_all2_conv_all_nth)
    from stays_ended [OF this i(2) k] have e: "ended (rs ! n) k" "t' = t" by auto
    have "list_all2 (\<lambda>r m. ended r (ks[i := k] ! m)) rs xs"
      unfolding list_all2_conv_all_nth
    proof (intro conjI allI impI)
      show "length rs = length xs" using run(2) by (rule list_all2_lengthD)
      fix m assume m: "m < length rs"
      show "ended (rs ! m) (ks[i := k] ! (xs ! m))"
      proof (cases "m = n")
        case True
        with e n i(1) show ?thesis by simp
      next
        case False
        with len(2) m n run(2) have "xs ! m \<noteq> i" by (auto simp: nth_eq_iff_index_eq list_all2_lengthD)
        with run(2) m show ?thesis by (simp add: list_all2_conv_all_nth)
      qed
    qed
    note still = this
    have other: "ks[i := k] ! j = ks ! j" if "j \<notin> set xs" for j using that ended by (metis nth_list_update_neq)
    have "\<forall>j \<in> {..<length cs} - set xs - inner. ks[i := k] ! j = start (cs ! j)" using rest other by simp
    moreover have "inner = {} \<and> free t' \<and> u = t' \<or> (\<exists>j. inner = {j} \<and> within (cs ! j) u t' (ks[i := k] ! j))"
      using crit inn other e(2) by auto
    ultimately have "serial s cs xs y"
      unfolding y by (intro serialI [OF _ len(2,3) run(1) still inn]) (simp_all add: len(1))
    then show ?thesis by (metis append_Nil2)
  next
    case critical
    with crit have w: "within (cs ! i) u t (ks ! i)" by auto
    from proceeds [OF w i(2) k] show ?thesis
    proof
      assume "within (cs ! i) u t' k"
      then have "serial s cs xs y"
        unfolding y using critical rest' len(1) i(1)
        by (intro serialI [OF _ len(2,3) run(1) keep inn]) auto
      then show ?thesis by (metis append_Nil2)
    next
      assume "\<exists>r. ended r k \<and> whole (cs ! i) u = Some (r, t') \<and> free t'"
      then obtain r where r: "ended r k" "whole (cs ! i) u = Some (r, t')" "free t'" by blast
      have "replay whole (map ((!) cs) (xs @ [i])) s = Some (rs @ [r], t')"
        using replay_snoc [of whole _ s rs u, OF run(1) r(2)] by simp
      moreover have "list_all2 (\<lambda>r m. ended r (ks[i := k] ! m)) (rs @ [r]) (xs @ [i])"
        using keep [OF critical(2)] r(1) i(1) by (simp add: list_all2_appendI)
      ultimately have "serial s cs (xs @ [i]) y"
        unfolding y using len rest' critical r(3) i(1)
        by (intro serialI [where inner = "{}"]) auto
      then show ?thesis by blast
    qed
  next
    case beginning
    with rest i(1) len(1) have st: "ks ! i = start (cs ! i)" by auto
    have w: "free t" "within (cs ! i) t t' k" using enters [of t "cs ! i" t' k] i(2) k st by auto
    with crit inside have f: "inner = {}" "u = t" by blast+
    have "serial s cs xs y"
      unfolding y using beginning rest' len(1) i(1) w(2) f
      by (intro serialI [OF _ len(2,3) run(1) keep, where inner = "{i}"]) auto
    then show ?thesis by (metis append_Nil2)
  qed
qed

lemma reach_serial:
  assumes "pool_runs strand_step x y" "sound x" "serial s cs xs x" "\<not> lost_history y"
  shows "\<exists>ys. serial s cs (xs @ ys) y"
  using assms(1,4)
proof (induction rule: rtranclp_induct)
  case base
  show ?case using assms(3) by (intro exI [of _ "[]"]) simp
next
  case (step y z)
  then have "\<not> lost_history y" using step_lost reach_closed_sound assms(2) by blast
  with step obtain ys where "serial s cs (xs @ ys) y" by blast
  with step_serial [OF step(2) _ step(4)] show ?case by (metis append_assoc)
qed

text \<open>
  A history of calls that all ended is a serial one. Whatever point of it one looks at, the calls that
  had ended then come before those that had not begun.
\<close>

lemma linearizes:
  assumes "sound (s, map start cs)" "free s"
    and "pool_runs strand_step (s, map start cs) (m, ms)" "pool_runs strand_step (m, ms) (t, ks)"
    and "\<forall>k \<in> set ks. \<exists>r. ended r k" "\<not> broken t"
  shows "\<exists>xs ys rs. mset (xs @ ys) = mset [0..<length cs]
    \<and> replay whole (map ((!) cs) (xs @ ys)) s = Some (rs, t)
    \<and> list_all2 (\<lambda>r i. ended r (ks ! i)) rs (xs @ ys)
    \<and> (\<forall>i < length cs. (\<forall>r. ended r (ms ! i) \<longrightarrow> i \<in> set xs) \<and> (ms ! i = start (cs ! i) \<longrightarrow> i \<in> set ys))"
proof -
  note sm = reach_closed_sound [OF assms(3,1)]
  have nt: "\<not> lost_history (t, ks)" using assms(5,6) ended_intact by (auto simp: lost_history_def)
  then have nm: "\<not> lost_history (m, ms)" using reach_lost [OF assms(4) sm] by blast
  from reach_serial [OF assms(3,1) serial_begins [OF assms(2)] nm] obtain xs where
    xs: "serial s cs xs (m, ms)" by auto
  from reach_serial [OF assms(4) sm xs nt] obtain ys where ys: "serial s cs (xs @ ys) (t, ks)" by blast
  from ys obtain rs u inner where
    len: "length ks = length cs" "distinct (xs @ ys)" "set (xs @ ys) \<subseteq> {..<length cs}"
    and run: "replay whole (map ((!) cs) (xs @ ys)) s = Some (rs, u)" "list_all2 (\<lambda>r i. ended r (ks ! i)) rs (xs @ ys)"
    and inn: "inner \<subseteq> {..<length cs} - set (xs @ ys)"
    and rest: "\<forall>i \<in> {..<length cs} - set (xs @ ys) - inner. ks ! i = start (cs ! i)"
    and crit: "inner = {} \<and> free t \<and> u = t \<or> (\<exists>j. inner = {j} \<and> within (cs ! j) u t (ks ! j))"
    by (rule serialE)
  have e: "\<exists>r. ended r (ks ! i)" if "i < length cs" for i using assms(5) len(1) that by simp
  have f: "inner = {} \<and> u = t"
  proof (rule disjE [OF crit])
    assume "\<exists>j. inner = {j} \<and> within (cs ! j) u t (ks ! j)"
    then obtain j where "inner = {j}" "within (cs ! j) u t (ks ! j)" by blast
    moreover have "j < length cs" using inn \<open>inner = {j}\<close> by blast
    ultimately show ?thesis using inside e [of j] by blast
  qed simp
  have "ks ! i \<noteq> start (cs ! i)" if "i < length cs" for i using e [OF that] ended_intact by blast
  with rest f len(3) have all: "set (xs @ ys) = {..<length cs}" by fastforce
  then have perm: "mset (xs @ ys) = mset [0..<length cs]"
    using len(2) by (intro set_eq_iff_mset_eq_distinct [THEN iffD1]) (auto simp: atLeast0LessThan)
  have "(\<forall>r. ended r (ms ! i) \<longrightarrow> i \<in> set xs) \<and> (ms ! i = start (cs ! i) \<longrightarrow> i \<in> set ys)" if i: "i < length cs" for i
  proof -
    from xs obtain rs' u' inner' where
      run': "list_all2 (\<lambda>r i. ended r (ms ! i)) rs' xs"
      and rest': "\<forall>i \<in> {..<length cs} - set xs - inner'. ms ! i = start (cs ! i)"
      and crit': "inner' = {} \<and> free m \<and> u' = m \<or> (\<exists>j. inner' = {j} \<and> within (cs ! j) u' m (ms ! j))"
      by (rule serialE)
    have "i \<in> set xs" if "ended r (ms ! i)" for r
      using that rest' crit' inside [of _ u' m] ended_intact [OF that] i by blast
    moreover have "i \<notin> set xs" if "ms ! i = start (cs ! i)"
    proof
      assume "i \<in> set xs"
      with run' obtain r where "ended r (ms ! i)" by (metis in_set_conv_nth list_all2_conv_all_nth)
      with ended_intact that show False by metis
    qed
    ultimately show ?thesis using all i by auto
  qed
  with perm run f show ?thesis by blast
qed

end

end
