(* ===== verification/Sync_Threads.thy ===== *)
theory Sync_Threads
  imports Session Pools
begin

text \<open>
  The blocking client shared by threads. Its operations take \<open>&self\<close>, so any number of them may
  run at once; \<open>connect\<close>, \<open>disconnect\<close> and \<open>stream\<close> take \<open>&mut self\<close> and run alone. An operation is a
  sequence of calls through the two gates of \<open>src/src/client/sync.rs\<close>, \<open>with_stream\<close> and
  \<open>with_exclusive_stream\<close>, with local computation in between; here a gate is cut where another
  thread can see the difference: at the mutex and at every access to the two atomics.
\<close>

section \<open>Calls\<close>

text \<open>What the operations run on the control stream, and what comes back.\<close>

datatype stream_call =
    MKD string
  | DELE string
  | RMD string
  | RNFR string string
  | SITE string
  | ROOT
  | RETR string "64 word" "64 word option"
  | STOR string
  | APPE string

datatype call = With_stream stream_call | With_exclusive_stream string

datatype 't reply =
    Replied "FtpError + unit"
  | Said response
  | Reached
  | Opened "FtpError + ('t handle \<times> 64 word)"
  | Listed "string"

definition replying :: "('a \<Rightarrow> 'b) \<Rightarrow> ('s, 'e + 'a) act \<Rightarrow> ('s, 'e + 'b) act" where
  "replying f m = seq m (\<lambda>r. ret (map_sum id f r))"

text \<open>The closures given to \<open>with_stream\<close>. A download that was not resumed is still to be skipped.\<close>

fun closure ::
  "('s, 'c, 't) ftp_lib \<Rightarrow> stream_call \<Rightarrow> 'c control \<Rightarrow> (('s, 'c) ftp_fs, remote_error + 't reply) act" where
  "closure F (MKD p) c = replying Replied (recorded (command (\<lambda>h. lib_mkdir F h p) c))"
| "closure F (DELE p) c = replying Replied (recorded (command (\<lambda>h. lib_rm F h p) c))"
| "closure F (RMD p) c = replying Replied (recorded (command (\<lambda>h. lib_rmdir F h p) c))"
| "closure F (RNFR p q) c = replying Replied (recorded (command (\<lambda>h. lib_rename F h p q) c))"
| "closure F (SITE cmd) c =
     replying Said (seq (command (\<lambda>h. lib_site F h cmd) c) (\<lambda>r. ret (map_err ftp_error r)))"
| "closure F ROOT c = replying (\<lambda>_. Reached) (ok ())"
| "closure F (RETR p offset len) c =
     replying (\<lambda>r. Opened (map_sum id (\<lambda>(transfer, resumed).
         (Reading (new_read_stream transfer len), if resumed then 0 else offset)) r))
       (start_download F p offset c)"
| "closure F (STOR p) c =
     replying (\<lambda>r. Opened (map_sum id (\<lambda>transfer. (Writing (new_write_stream transfer), 0)) r))
       (start_upload (\<lambda>h. lib_put F h p) c)"
| "closure F (APPE p) c =
     replying (\<lambda>r. Opened (map_sum id (\<lambda>transfer. (Writing (new_write_stream transfer), 0)) r))
       (start_upload (\<lambda>h. lib_append F h p) c)"

section \<open>Strands\<close>

text \<open>
  Where a thread stands in a call, in the life of a stream it owns, in \<open>is_connected\<close> (\<open>Asking\<close>) or in
  \<open>welcome_message\<close> (\<open>Greeting\<close>). A call that opened a transfer goes on as its stream; \<open>Closing\<close> is
  \<open>finish\<close> or \<open>Drop\<close> of a stream, which do the same. A thread that panics in a call unwinds: it drops
  its guards. The mutex is poisoned then, but \<open>lock\<close> takes it all the same (\<open>PoisonError::into_inner\<close>).
\<close>

datatype ('c, 't) strand =
    Calling call
  | Locked call
  | Quiet call
  | Admitted call
  | Ran "remote_error + 't reply"
  | Leaving "remote_error + 't reply"
  | Taken "'c control" string
  | Raised "'c control" string
  | Owning "'c control" string
  | Heard "'c control" "remote_error + string" bool
  | Returning "'c control" "remote_error + 't reply"
  | Replaced "remote_error + 't reply"
  | Lowering "remote_error + 't reply"
  | Finished "remote_error + 't reply"
  | Skipping "'t read_stream" "64 word"
  | Streaming "'t handle"
  | Closing "'t handle"
  | Finalized "remote_error + unit"
  | Releasing "remote_error + unit"
  | Shut "remote_error + unit"
  | Asking
  | Asking_lock
  | Asking_held bool
  | Asking_flag
  | Told bool
  | Greeting
  | Greeted "string option"
  | Welcomed "string option"
  | Unwinding
  | Unwinding_stream "'c control"
  | Unwinding_replaced
  | Unwinding_flag
  | Panicked

definition unlock :: "(('s, 'c) ftp_fs, unit) act" where
  "unlock = update (\<lambda>s. s\<lparr>fs_locked := False\<rparr>)"

text \<open>What a call becomes when it leaves \<open>with_stream\<close>.\<close>

fun settle :: "remote_error + 't reply \<Rightarrow> ('c, 't) strand" where
  "settle (Inr (Opened (Inr (Reading rd, offset)))) = (if offset > 0 then Skipping rd offset else Streaming (Reading rd))"
| "settle (Inr (Opened (Inr (Writing wr, offset)))) = Streaming (Writing wr)"
| "settle r = Finished r"

definition finalize ::
  "('s, 'c, 't) ftp_lib \<Rightarrow> 't handle \<Rightarrow> (('s, 'z) conn_scheme, remote_error + unit) act" where
  "finalize F h =
     (case h of
        Reading rd \<Rightarrow> seq (expect (rd_inner rd)) (\<lambda>inner. finish_read F inner (rd_at_eof rd))
      | Writing wr \<Rightarrow> seq (expect (wr_inner wr)) (finish_write F))"

text \<open>The next step of a strand; one that finds the mutex taken, or rests, has none.\<close>

fun advance :: "('s, 'c, 't) ftp_lib \<Rightarrow> ('c, 't) strand \<Rightarrow> (('s, 'c) ftp_fs, ('c, 't) strand) act" where
  "advance F (Calling call) = seq lock (\<lambda>_. ret (Locked call))"
| "advance F (Locked call) = seq (gets transfer_active) (\<lambda>active.
     ret (if active then Leaving (Inl busy_error) else Quiet call))"
| "advance F (Quiet call) = seq (gets connection_usable) (\<lambda>usable.
     ret (if \<not> usable then Leaving (Inl unusable_error) else Admitted call))"
| "advance F (Admitted call) = seq (gets fs_stream) (\<lambda>guard.
     case guard of
       None \<Rightarrow> ret (Leaving (Inl (new_error KNotConnected)))
     | Some c \<Rightarrow>
         (case call of
            With_stream op \<Rightarrow> seq (closure F op c) (\<lambda>result. ret (Ran result))
          | With_exclusive_stream remote \<Rightarrow>
              seq (update (\<lambda>s. s\<lparr>fs_stream := None\<rparr>)) (\<lambda>_. ret (Taken c remote))))"
| "advance F (Ran result) = seq (on_error record_remote_error result) (\<lambda>_. ret (Leaving result))"
| "advance F (Leaving result) = seq unlock (\<lambda>_. ret (settle result))"
| "advance F (Taken c remote) = seq start_transfer (\<lambda>_. ret (Raised c remote))"
| "advance F (Raised c remote) = seq unlock (\<lambda>_. ret (Owning c remote))"
| "advance F (Owning c remote) = seq (read_list_bytes F c remote) (\<lambda>(result, requires_reconnect).
     ret (Heard c result requires_reconnect))"
| "advance F (Heard c result requires_reconnect) =
     seq (if requires_reconnect then mark_connection_unusable else ret ()) (\<lambda>_.
     seq (on_error record_remote_error result) (\<lambda>_. ret (Returning c (map_sum id Listed result))))"
| "advance F (Returning c result) =
     seq lock (\<lambda>_. seq (update (\<lambda>s. s\<lparr>fs_stream := Some c\<rparr>)) (\<lambda>_. ret (Replaced result)))"
| "advance F (Replaced result) = seq unlock (\<lambda>_. ret (Lowering result))"
| "advance F (Lowering result) = seq guard_drop (\<lambda>_. ret (Finished result))"
| "advance F (Skipping rd offset) = seq (skip_prefix F rd offset) (\<lambda>(skipped, rd).
     ret (case skipped of Inl _ \<Rightarrow> Closing (Reading rd) | Inr _ \<Rightarrow> Streaming (Reading rd)))"
| "advance F (Closing h) = seq (finalize F h) (\<lambda>result. ret (Finalized result))"
| "advance F (Finalized result) =
     seq (case result of Inl _ \<Rightarrow> guard_invalidate | Inr _ \<Rightarrow> ret ()) (\<lambda>_. ret (Releasing result))"
| "advance F (Releasing result) = seq guard_drop (\<lambda>_. ret (Shut result))"
| "advance F Asking = seq (gets connection_usable) (\<lambda>usable. ret (if usable then Asking_lock else Told False))"
| "advance F Asking_lock = seq lock (\<lambda>_. seq (gets fs_stream) (\<lambda>stream. ret (Asking_held (stream \<noteq> None))))"
| "advance F (Asking_held some) = seq unlock (\<lambda>_. ret (if some then Told True else Asking_flag))"
| "advance F Asking_flag = seq (gets transfer_active) (\<lambda>active. ret (Told active))"
| "advance F Greeting = seq lock (\<lambda>_. seq (gets (\<lambda>s.
     case fs_stream s of None \<Rightarrow> None | Some c \<Rightarrow> lib_welcome F (ctl_handle c) (world s))) (\<lambda>banner.
     ret (Greeted banner)))"
| "advance F (Greeted banner) = seq unlock (\<lambda>_. ret (Welcomed banner))"
| "advance F Unwinding = seq unlock (\<lambda>_. ret Panicked)"
| "advance F (Unwinding_stream c) =
     seq lock (\<lambda>_. seq (update (\<lambda>s. s\<lparr>fs_stream := Some c\<rparr>)) (\<lambda>_. ret Unwinding_replaced))"
| "advance F Unwinding_replaced = seq unlock (\<lambda>_. ret Unwinding_flag)"
| "advance F Unwinding_flag = seq guard_drop (\<lambda>_. ret Panicked)"
| "advance F Panicked = panic"
| "advance F (Finished result) = panic"
| "advance F (Streaming h) = panic"
| "advance F (Shut result) = panic"
| "advance F (Told b) = panic"
| "advance F (Welcomed banner) = panic"

text \<open>
  The owner of a stream uses it as it likes, and closes it when it likes. A panic strikes where the
  library or the passive stream builder of the user runs: \<open>sent\<close> is where the world was then, and
  \<open>usable\<close> is false when the hook of the builder had already fired.
\<close>

inductive strand_step ::
  "('s, 'c, 't) ftp_lib \<Rightarrow> ('s, 'c) ftp_fs \<Rightarrow> ('c, 't) strand \<Rightarrow> ('s, 'c) ftp_fs \<Rightarrow> ('c, 't) strand \<Rightarrow> bool"
  for F :: "('s, 'c, 't) ftp_lib" where
  advances: "advance F k s = Some (k', t) \<Longrightarrow> strand_step F s k t k'"
| reads: "read_stream_read F rd n = Some (r, rd') \<Longrightarrow>
    strand_step F s (Streaming (Reading rd)) s (Streaming (Reading rd'))"
| writes: "write_stream_write F wr buf s = Some (rn, t) \<Longrightarrow>
    strand_step F s (Streaming (Writing wr)) t (Streaming (Writing wr))"
| flushes: "write_stream_flush F wr s = Some (ru, t) \<Longrightarrow>
    strand_step F s (Streaming (Writing wr)) t (Streaming (Writing wr))"
| closes: "strand_step F s (Streaming h) s (Closing h)"
| panics_in_call: "strand_step F s (Admitted (With_stream op))
    (s\<lparr>world := sent (world s), connection_usable := (connection_usable s \<and> usable)\<rparr>) Unwinding"
| panics_in_listing: "strand_step F s (Owning c remote)
    (s\<lparr>world := sent (world s), connection_usable := (connection_usable s \<and> usable)\<rparr>) (Unwinding_stream c)"

fun fresh :: "('c, 't) strand \<Rightarrow> bool" where
  "fresh (Calling call) = True"
| "fresh Asking = True"
| "fresh Greeting = True"
| "fresh _ = False"

abbreviation threads_reach ::
  "('s, 'c, 't) ftp_lib \<Rightarrow> ('s, 'c) ftp_fs \<times> ('c, 't) strand list \<Rightarrow> ('s, 'c) ftp_fs \<times> ('c, 't) strand list \<Rightarrow> bool" where
  "threads_reach F \<equiv> pool_reach (strand_step F) fresh"

section \<open>Resources\<close>

datatype resource = Mutex | Transfer | Control

instantiation resource :: enum
begin

definition enum_resource :: "resource list" where
  "enum_resource = [Mutex, Transfer, Control]"

definition enum_all_resource :: "(resource \<Rightarrow> bool) \<Rightarrow> bool" where
  "enum_all_resource P \<longleftrightarrow> P Mutex \<and> P Transfer \<and> P Control"

definition enum_ex_resource :: "(resource \<Rightarrow> bool) \<Rightarrow> bool" where
  "enum_ex_resource P \<longleftrightarrow> P Mutex \<or> P Transfer \<or> P Control"

instance
proof
  have "r \<in> set [Mutex, Transfer, Control]" for r by (cases r) simp_all
  then show u: "(UNIV :: resource set) = set enum_class.enum" by (auto simp: enum_resource_def)
  show "distinct (enum_class.enum :: resource list)" by (simp add: enum_resource_def)
  show "enum_class.enum_all P \<longleftrightarrow> Ball UNIV P" "enum_class.enum_ex P \<longleftrightarrow> Bex UNIV P" for P :: "resource \<Rightarrow> bool"
    unfolding u by (simp_all add: enum_resource_def enum_all_resource_def enum_ex_resource_def)
qed

end

fun used :: "resource \<Rightarrow> ('s, 'c) ftp_fs \<Rightarrow> bool" where
  "used Mutex s = fs_locked s"
| "used Transfer s = transfer_active s"
| "used Control s = (fs_stream s = None)"

fun opened :: "remote_error + 't reply \<Rightarrow> bool" where
  "opened (Inr (Opened (Inr x))) = True"
| "opened _ = False"

fun uses :: "resource \<Rightarrow> ('c, 't) strand \<Rightarrow> bool" where
  "uses Mutex (Locked call) = True"
| "uses Mutex (Quiet call) = True"
| "uses Mutex (Admitted call) = True"
| "uses Mutex (Ran result) = True"
| "uses Mutex (Leaving result) = True"
| "uses Mutex (Taken c remote) = True"
| "uses Mutex (Raised c remote) = True"
| "uses Mutex (Replaced result) = True"
| "uses Mutex (Asking_held some) = True"
| "uses Mutex (Greeted banner) = True"
| "uses Mutex Unwinding = True"
| "uses Mutex Unwinding_replaced = True"
| "uses Transfer (Ran result) = opened result"
| "uses Transfer (Leaving result) = opened result"
| "uses Transfer (Raised c remote) = True"
| "uses Transfer (Owning c remote) = True"
| "uses Transfer (Heard c bytes requires_reconnect) = True"
| "uses Transfer (Returning c result) = True"
| "uses Transfer (Replaced result) = True"
| "uses Transfer (Lowering result) = True"
| "uses Transfer (Skipping rd offset) = True"
| "uses Transfer (Streaming h) = True"
| "uses Transfer (Closing h) = True"
| "uses Transfer (Finalized res) = True"
| "uses Transfer (Releasing res) = True"
| "uses Transfer (Unwinding_stream c) = True"
| "uses Transfer Unwinding_replaced = True"
| "uses Transfer Unwinding_flag = True"
| "uses Control (Taken c remote) = True"
| "uses Control (Raised c remote) = True"
| "uses Control (Owning c remote) = True"
| "uses Control (Heard c bytes requires_reconnect) = True"
| "uses Control (Returning c result) = True"
| "uses Control (Unwinding_stream c) = True"
| "uses _ _ = False"

text \<open>An outcome that may have left replies unread.\<close>

fun lost :: "remote_error + 't reply \<Rightarrow> bool" where
  "lost (Inl e) = remote_error_requires_reconnect e"
| "lost (Inr (Replied (Inl e))) = transfer_setup_requires_reconnect e"
| "lost (Inr (Opened (Inl e))) = transfer_setup_requires_reconnect e"
| "lost _ = False"

fun handle_of :: "remote_error + 't reply \<Rightarrow> bool" where
  "handle_of (Inr (Opened (Inr (h, offset)))) = alive h"
| "handle_of _ = True"

text \<open>What a strand may assume of the client at its place.\<close>

fun fits :: "('s, 'c) ftp_fs \<Rightarrow> ('c, 't) strand \<Rightarrow> bool" where
  "fits s (Quiet call) = (\<not> transfer_active s)"
| "fits s (Admitted call) = (\<not> transfer_active s \<and> connection_usable s)"
| "fits s (Ran result) = (handle_of result \<and> (\<not> opened result \<longrightarrow> \<not> transfer_active s)
     \<and> (\<not> isl result \<longrightarrow> lost result \<longrightarrow> \<not> connection_usable s))"
| "fits s (Leaving result) = (handle_of result \<and> (lost result \<longrightarrow> \<not> connection_usable s))"
| "fits s Unwinding = (\<not> transfer_active s)"
| "fits s (Taken c remote) = (\<not> transfer_active s \<and> connection_usable s)"
| "fits s (Raised c remote) = connection_usable s"
| "fits s (Owning c remote) = connection_usable s"
| "fits s (Returning c result) = (\<not> opened result \<and> (lost result \<longrightarrow> \<not> connection_usable s))"
| "fits s (Replaced result) = (\<not> opened result \<and> (lost result \<longrightarrow> \<not> connection_usable s))"
| "fits s (Lowering result) = (\<not> opened result \<and> (lost result \<longrightarrow> \<not> connection_usable s))"
| "fits s (Finished result) = (lost result \<longrightarrow> \<not> connection_usable s)"
| "fits s (Skipping rd offset) = (rd_inner rd \<noteq> None)"
| "fits s (Streaming h) = alive h"
| "fits s (Closing h) = alive h"
| "fits s (Releasing res) = (isl res \<longrightarrow> \<not> connection_usable s)"
| "fits s (Shut res) = (isl res \<longrightarrow> \<not> connection_usable s)"
| "fits s _ = True"

end
