(* ===== verification/Thread_Facts.thy ===== *)
theory Thread_Facts
  imports Sync_Threads Sync_Laws
begin

text \<open>
  Facts about threads that share a blocking client: what a step of one guarantees to the others,
  the interpretation of the pools on it, and the steps of a thread that runs alone.
\<close>

section \<open>The closures\<close>

lemma run_replying: "replying f m s = (case m s of None \<Rightarrow> None | Some (r, t) \<Rightarrow> Some (map_sum id f r, t))"
  by (simp add: replying_def run_seq split: option.splits)

text \<open>What every closure keeps, whatever it answers: \<open>keeps\<close>, but for the transfer it opened.\<close>

definition answers :: "('s, 'c) ftp_fs \<Rightarrow> remote_error + 't reply \<Rightarrow> ('s, 'c) ftp_fs \<Rightarrow> bool" where
  "answers s r t \<longleftrightarrow> starts s t \<and> transfer_active t = (transfer_active s \<or> opened r) \<and> handle_of r
     \<and> (\<not> isl r \<longrightarrow> lost r \<longrightarrow> \<not> connection_usable t)"

lemma command_answers: "\<exists>r t. replying Replied (recorded (command op c)) s = Some (r, t) \<and> answers s r t"
  using inner_run [OF inner_command(1), of op c s]
  by (elim exE conjE; rename_tac x t; case_tac x)
    (auto simp: run_replying recorded_def run_seq on_error_def record_ftp_error_def
        mark_connection_unusable_def keeps_def starts_def options_def answers_def)

lemma site_answers:
  "\<exists>r t. replying Said (seq (command op c) (\<lambda>r. ret (map_err ftp_error r))) s
     = Some (r, t :: ('s, 'c) ftp_fs) \<and> answers s r t"
  using inner_run [OF inner_command(1), of op c s]
  by (elim exE conjE; rename_tac x t; case_tac x) (auto simp: run_replying run_seq keeps_def answers_def)

lemma start_upload_notices:
  "start_upload op c (s :: ('s, 'c) ftp_fs) = Some (Inr (Inl e), t) \<Longrightarrow> transfer_setup_requires_reconnect e \<Longrightarrow> \<not> connection_usable t"
  using upload_notices [of op c s] by auto

lemma upload_answers:
  "\<exists>r t. replying (\<lambda>r. Opened (map_sum id (\<lambda>transfer. (Writing (new_write_stream transfer), 0)) r))
     (start_upload op c) s = Some (r, t) \<and> answers s r t"
  using start_upload_run [of op c s]
  by (elim exE conjE; rename_tac x t; case_tac x)
    (auto simp: run_replying answers_def is_ok_iff new_write_stream_def dest: start_upload_notices)

lemma begin_transfer_notices:
  "begin_transfer result s = Some (Inr (Inl e), t) \<Longrightarrow> transfer_setup_requires_reconnect e \<Longrightarrow> \<not> connection_usable t"
  by (cases result) (auto simp: begin_transfer_def run_simps on_error_def record_ftp_error_def
      mark_connection_unusable_def split: if_splits option.splits)

lemma start_download_begins:
  "start_download F remote offset c =
      attempt (if offset > 0 then request_offset F c offset else ok False) (\<lambda>resumed.
      seq (data_command (\<lambda>h. lib_retr F h remote) c) (\<lambda>result.
      attempt (retry_from_start F c remote resumed result) (\<lambda>(resumed, result).
      attempt (begin_transfer result) (\<lambda>r. ok (map_sum id (\<lambda>x. (x, resumed)) r)))))"
  unfolding start_download_def
  by (intro ext attempt_cong_run seq_cong_run)
    (auto simp: begin_transfer_def run_simps split: option.splits sum.splits)

lemma start_download_notices:
  fixes F :: "('s, 'c, 't) ftp_lib"
  assumes "start_download F remote offset c s = Some (Inr (Inl e), t)" "transfer_setup_requires_reconnect e"
  shows "\<not> connection_usable t"
  using assms(1) unfolding start_download_begins
proof (cases rule: attempt_SomeE)
  case (val resumed u)
  have m: "map_sum id f r = Inl e \<longleftrightarrow> r = Inl e" for f :: "'t transfer \<Rightarrow> 't transfer \<times> bool" and r
    by (cases r) auto
  from val(2) obtain result :: "'t transfer outcome" and w where "begin_transfer result w = Some (Inr (Inl e), t)"
    by (auto elim!: seq_SomeE attempt_SomeE split: prod.splits simp: m)
  then show ?thesis using assms(2) by (rule begin_transfer_notices)
qed simp

lemma download_answers:
  "\<exists>r t. replying (\<lambda>r. Opened (map_sum id (\<lambda>(transfer, resumed).
         (Reading (new_read_stream transfer len), if resumed then 0 else offset)) r))
       (start_download F p offset c) s = Some (r, t) \<and> answers s r t"
proof -
  obtain r t where r: "start_download F p offset c s = Some (r, t)" "starts s t"
    "transfer_active t = (transfer_active s \<or> (\<exists>x. r = Inr (Inr x)))"
    using start_download_run [of F p offset c s] by blast
  consider (err) e where "r = Inl e" | (refused) e where "r = Inr (Inl e)" | (begun) transfer resumed where "r = Inr (Inr (transfer, resumed))"
    by (metis sum.exhaust surj_pair)
  then show ?thesis
    by cases (use r in \<open>auto simp: run_replying answers_def new_read_stream_def dest: start_download_notices\<close>)
qed

lemma closure_answers: "\<exists>r t. closure F op c s = Some (r, t) \<and> answers s r t"
  by (cases op) (simp_all only: closure.simps command_answers site_answers upload_answers download_answers,
    simp add: run_replying answers_def starts_def)

section \<open>What a step does to the others\<close>

text \<open>
  A strand without the mutex and without a transfer touches no flag, and one that does not own the
  transfer leaves the usability of a client in transfer alone.
\<close>

definition considerate :: "('s, 'c) ftp_fs \<Rightarrow> ('c, 't) strand \<Rightarrow> ('s, 'c) ftp_fs \<Rightarrow> bool" where
  "considerate s k t \<longleftrightarrow> (connection_usable t \<longrightarrow> connection_usable s)
     \<and> (\<not> uses Mutex k \<longrightarrow> \<not> transfer_active s \<longrightarrow> connection_usable t = connection_usable s \<and> \<not> transfer_active t)
     \<and> (\<not> uses Transfer k \<longrightarrow> transfer_active s \<longrightarrow> connection_usable t = connection_usable s)"

definition guarantee :: "('s, 'c) ftp_fs \<Rightarrow> ('c, 't) strand \<Rightarrow> ('s, 'c) ftp_fs \<Rightarrow> ('c, 't) strand \<Rightarrow> bool" where
  "guarantee s k t k' \<longleftrightarrow>
     (\<forall>r. of_bool (used r t) + of_bool (uses r k) = (of_bool (used r s) + of_bool (uses r k') :: nat))
     \<and> fits t k' \<and> considerate s k t"

lemma all_resources: "(\<forall>r. P r) \<longleftrightarrow> P Mutex \<and> P Transfer \<and> P Control"
  by (simp only: enum_all [symmetric] enum_all_resource_def)

lemmas guarantee_simps = guarantee_def considerate_def all_resources

lemma opened_settles [simp]:
  "handle_of r \<Longrightarrow> fits t (settle r) = (opened r \<or> (lost r \<longrightarrow> \<not> connection_usable t))"
  "uses Transfer (settle r) = opened r" "\<not> uses Mutex (settle r)" "\<not> uses Control (settle r)"
  by (induction r rule: settle.induct; simp)+

lemma finalize_run: "alive h \<Longrightarrow> \<exists>result w. finalize F h s = Some (result, s\<lparr>world := w\<rparr>)"
proof (cases h)
  case (Reading rd)
  assume "alive h"
  with Reading obtain inner where i: "rd_inner rd = Some inner" by auto
  obtain r w where "completion F inner (rd_at_eof rd) (world s) = (r, w)" by force
  from finish_read_completion [OF this] i Reading have "finalize F h s = Some (r, s\<lparr>world := w\<rparr>)"
    by (simp add: finalize_def run_seq)
  then show ?thesis by blast
next
  case (Writing wr)
  assume "alive h"
  with Writing obtain inner where i: "wr_inner wr = Some inner" by auto
  obtain r w where "upload_completion F inner (world s) = (r, w)" by force
  from finish_write_completion [OF this] i Writing have "finalize F h s = Some (r, s\<lparr>world := w\<rparr>)"
    by (simp add: finalize_def run_seq)
  then show ?thesis by blast
qed

lemma refusals_lost [simp]:
  "\<not> remote_error_requires_reconnect busy_error"
  "\<not> remote_error_requires_reconnect (new_error KNotConnected)"
  by (simp_all add: busy_error_def)

lemma admitted_step:
  assumes "advance F (Admitted call) s = Some (k', t)" "fits s (Admitted call)" "uses Mutex (Admitted call) \<longrightarrow> fs_locked s"
  shows "guarantee s (Admitted call) t k'"
proof (cases "fs_stream s")
  case (Some c)
  show ?thesis
  proof (cases call)
    case (With_stream op)
    obtain r u where "closure F op c s = Some (r, u)" "answers s r u" using closure_answers by blast
    with assms Some With_stream show ?thesis
      by (auto simp: run_seq guarantee_simps answers_def starts_def split: sum.splits)
  qed (use assms Some in \<open>auto simp: run_seq guarantee_simps\<close>)
qed (use assms in \<open>auto simp: guarantee_simps\<close>)

lemma owning_step:
  assumes "advance F (Owning c remote) s = Some (k', t)" "fits s (Owning c remote)" "transfer_active s"
  shows "guarantee s (Owning c remote) t k'"
  using assms inner_run [OF inner_read_list_bytes, of F c remote s]
  by (auto simp: run_seq guarantee_simps keeps_def starts_def)

lemma skipping_step:
  assumes "advance F (Skipping rd offset) s = Some (k', t)" "fits s (Skipping rd offset)" "transfer_active s"
  shows "guarantee s (Skipping rd offset) t k'"
proof -
  obtain inner where i: "rd_inner rd = Some inner" using assms(2) by auto
  show ?thesis using assms i
    by (auto simp: skip_prefix_def run_seq guarantee_simps Let_def split: prod.splits sum.splits if_splits)
qed

lemma closing_step:
  assumes "advance F (Closing h) s = Some (k', t)" "fits s (Closing h)" "transfer_active s"
  shows "guarantee s (Closing h) t k'"
  using assms finalize_run [of h F s] by (auto simp: run_seq guarantee_simps)

lemma advance_guarantee:
  assumes "advance F k s = Some (k', t)" "fits s k" "\<And>r. uses r k \<Longrightarrow> used r s"
  shows "guarantee s k t k'"
proof -
  have m: "uses Mutex k \<longrightarrow> fs_locked s" "uses Transfer k \<longrightarrow> transfer_active s" "uses Control k \<longrightarrow> fs_stream s = None"
    using assms(3) [of Mutex] assms(3) [of Transfer] assms(3) [of Control] by simp_all
  note plain = run_simps lock_def unlock_def guarantee_simps mark_connection_unusable_def
    record_remote_error_def on_error_def
  from assms(1,2) m show ?thesis
  proof (induction k)
    case (Admitted call)
    then show ?case by (simp only: admitted_step)
  next
    case (Owning c remote)
    then show ?case by (simp only: owning_step uses.simps simp_thms)
  next
    case (Skipping rd offset)
    then show ?case by (simp only: skipping_step uses.simps simp_thms)
  next
    case (Closing h)
    then show ?case by (simp only: closing_step uses.simps simp_thms)
  qed (clarsimp simp: plain split: if_splits sum.splits; auto)+
qed

lemma strand_step_guarantee:
  assumes "strand_step F s k t k'" "fits s k" "\<And>r. uses r k \<Longrightarrow> used r s"
  shows "guarantee s k t k'"
  using assms
proof (induction rule: strand_step.induct)
  case (advances k s k' t)
  then show ?case by (rule advance_guarantee)
next
  case (reads rd n r rd' s)
  with read_stream_alive [of rd F n r rd'] show ?case by (simp add: guarantee_simps)
next
  case (writes wr buf s rn t)
  then show ?case
    by (auto simp: write_stream_write_def run_seq run_on_world guarantee_simps split: prod.splits)
next
  case (flushes wr s ru t)
  then show ?case
    by (auto simp: write_stream_flush_def run_seq run_on_world guarantee_simps split: prod.splits)
next
  case (closes s h)
  then show ?case by (simp add: guarantee_simps)
next
  case (panics_in_call s op sent usable)
  then show ?case by (simp add: guarantee_simps)
next
  case (panics_in_listing s c remote sent usable)
  from panics_in_listing(2) [of Transfer] show ?case by (simp add: guarantee_simps)
qed

lemma fits_kept:
  assumes "considerate s k t" "fits s j" "\<And>r. uses r j \<Longrightarrow> used r s" "\<And>r. uses r k \<Longrightarrow> \<not> uses r j"
  shows "fits t j"
proof -
  have "uses Mutex j \<longrightarrow> \<not> uses Mutex k" "uses Transfer j \<longrightarrow> \<not> uses Transfer k" "uses Transfer j \<longrightarrow> transfer_active s"
    using assms(3,4) by fastforce+
  with assms(1,2) show ?thesis
    by (induction j) (auto simp: considerate_def)
qed

section \<open>Running to rest\<close>

fun waits :: "('c, 't) strand \<Rightarrow> bool" where
  "waits (Calling call) = True"
| "waits (Returning c result) = True"
| "waits Asking_lock = True"
| "waits Greeting = True"
| "waits (Unwinding_stream c) = True"
| "waits _ = False"

fun rests :: "('c, 't) strand \<Rightarrow> bool" where
  "rests (Finished result) = True"
| "rests (Streaming h) = True"
| "rests (Shut res) = True"
| "rests (Told b) = True"
| "rests (Welcomed banner) = True"
| "rests Panicked = True"
| "rests _ = False"

text \<open>How many steps are left at most.\<close>

fun rank :: "('c, 't) strand \<Rightarrow> nat" where
  "rank (Calling call) = 11"
| "rank (Locked call) = 10"
| "rank (Quiet call) = 9"
| "rank (Admitted call) = 8"
| "rank (Ran result) = 6"
| "rank (Leaving result) = 5"
| "rank (Taken c remote) = 7"
| "rank (Raised c remote) = 6"
| "rank (Owning c remote) = 5"
| "rank (Heard c bytes requires_reconnect) = 4"
| "rank (Returning c result) = 3"
| "rank (Replaced result) = 2"
| "rank (Lowering result) = 1"
| "rank (Skipping rd offset) = 4"
| "rank (Closing h) = 3"
| "rank (Finalized res) = 2"
| "rank (Releasing res) = 1"
| "rank Asking = 4"
| "rank Asking_lock = 3"
| "rank (Asking_held some) = 2"
| "rank Asking_flag = 1"
| "rank Greeting = 2"
| "rank (Greeted banner) = 1"
| "rank Unwinding = 1"
| "rank (Unwinding_stream c) = 3"
| "rank Unwinding_replaced = 2"
| "rank Unwinding_flag = 1"
| "rank _ = 0"

lemma rank_settle: "rank (settle r) < 5"
  by (induction r rule: settle.induct) simp_all

lemma advance_moves:
  assumes "fits s k" "\<not> rests k" "waits k \<Longrightarrow> \<not> fs_locked s"
  shows "\<exists>t k'. advance F k s = Some (k', t) \<and> rank k' < rank k"
  using assms
proof (induction k)
  case (Admitted call)
  show ?case
  proof (cases "fs_stream s")
    case (Some c)
    show ?thesis
    proof (cases call)
      case (With_stream op)
      obtain r t where "closure F op c s = Some (r, t)" using closure_answers [of F op c s] by blast
      with Some With_stream show ?thesis by (simp add: run_seq)
    qed (simp add: Some run_seq)
  qed simp
next
  case (Owning c remote)
  obtain x t where "read_list_bytes F c remote s = Some (x, t)"
    using inner_run [OF inner_read_list_bytes, of F c remote s] by blast
  then show ?case by (cases x) (simp add: run_seq)
next
  case (Skipping rd offset)
  then obtain inner where "rd_inner rd = Some inner" by auto
  from skip_prefix_total [OF this, of F offset s] show ?case
    by (auto simp: run_seq split: sum.splits)
next
  case (Closing h)
  with finalize_run [of h F s] show ?case by (auto simp: run_seq)
next
  case (Leaving r)
  from rank_settle [of r] show ?case by (simp add: run_simps unlock_def)
qed (clarsimp simp: run_simps lock_def unlock_def mark_connection_unusable_def record_remote_error_def
    on_error_def split: sum.splits; auto)+

text \<open>The stream a strand owns.\<close>

fun stream_of :: "('c, 't) strand \<Rightarrow> 't handle list" where
  "stream_of (Streaming h) = [h]"
| "stream_of _ = []"

interpretation threads: session_pool "strand_step F" fresh used uses fits Mutex waits rests rank
    Transfer Streaming stream_of alive
proof
  fix k :: "('b, 'c) strand" and r and s :: "('a, 'b) ftp_fs"
  assume "fresh k"
  then show "\<not> uses r k" "fits s k" by (cases k; cases r; simp)+
next
  fix s t :: "('a, 'b) ftp_fs" and k k' :: "('b, 'c) strand" and r
  assume "strand_step F s k t k'" "fits s k" "\<And>r. uses r k \<Longrightarrow> used r s"
  from strand_step_guarantee [OF this]
  show "of_bool (used r t) + of_bool (uses r k) = (of_bool (used r s) + of_bool (uses r k') :: nat)"
    and "fits t k'" by (simp_all add: guarantee_def)
next
  fix s t :: "('a, 'b) ftp_fs" and k k' j :: "('b, 'c) strand"
  assume a: "strand_step F s k t k'" "fits s k" "fits s j" "\<And>r. uses r k \<Longrightarrow> used r s"
    "\<And>r. uses r j \<Longrightarrow> used r s" "\<And>r. uses r k \<Longrightarrow> \<not> uses r j"
  from strand_step_guarantee [OF a(1,2,4)] have "considerate s k t" by (simp add: guarantee_def)
  then show "fits t j" by (rule fits_kept) (use a in auto)
next
  fix k :: "('b, 'c) strand"
  assume "uses Mutex k"
  then show "\<not> waits k \<and> \<not> rests k" by (cases k) simp_all
next
  fix s :: "('a, 'b) ftp_fs" and k :: "('b, 'c) strand"
  assume "fits s k" "\<not> rests k" "waits k \<Longrightarrow> \<not> used Mutex s"
  with advance_moves [of s k F] show "\<exists>t k'. strand_step F s k t k' \<and> rank k' < rank k"
    by (auto intro: advances)
next
  fix k :: "('b, 'c) strand" and r
  show "stream_of k \<noteq> [] \<Longrightarrow> \<exists>h. k = Streaming h" by (cases k) simp_all
  show "rests k \<Longrightarrow> uses r k = (r = Transfer \<and> stream_of k \<noteq> [])" by (cases k; cases r; simp)
qed simp_all

section \<open>Pools on a session\<close>

text \<open>The streams alive in a pool, the connected sessions a pool starts from, and where it ends.\<close>

definition streams :: "('c, 't) strand list \<Rightarrow> 't handle list" where
  "streams ks = concat (map stream_of ks)"

lemma consistent_length: "consistent (s, L) \<Longrightarrow> length L = of_bool (transfer_active s)"
  by (cases L) (auto simp: consistent_def)

lemma threads_start:
  assumes "consistent (s, L)" "fs_stream s \<noteq> None" "list_all fresh ks"
  shows "threads.sound (s, map Streaming L @ ks)"
proof (rule threads.start_sound)
  show "\<not> used r s" if "r \<noteq> Transfer" for r
    using that assms(1,2) by (cases r) (auto simp: consistent_def idle_def)
qed (use assms consistent_length [OF assms(1)] in \<open>auto simp: consistent_def\<close>)

lemma threads_rest:
  assumes "threads.sound (s, ks)" "list_all rests ks"
  shows "consistent (s, streams ks) \<and> fs_stream s \<noteq> None"
  using threads.rest_sound(2,3) [OF assms, folded streams_def] threads.rest_sound(1) [OF assms, of Mutex] threads.rest_sound(1) [OF assms, of Control]
  by (cases "transfer_active s"; cases "streams ks") (auto simp: consistent_def idle_def)

text \<open>A strand about to run its command has the client to itself.\<close>

lemma admitted_alone:
  assumes "threads.sound (s, ks)" "Admitted call \<in> set ks"
  shows "fs_locked s" "connection_usable s" "\<not> transfer_active s" "fs_stream s \<noteq> None"
proof -
  from threads.sound_fits [OF assms] show f: "connection_usable s" "\<not> transfer_active s" by simp_all
  have "uses Mutex (Admitted call :: ('b, 'c) strand)" by simp
  from threads.sound_used [OF assms this] show "fs_locked s" by simp
  show "fs_stream s \<noteq> None"
  proof
    assume "fs_stream s = None"
    then obtain k where k: "k \<in> set ks" "uses Control k"
      using threads.sound_user [OF assms(1), of Control] by auto
    have "\<not> uses Transfer k" using threads.sound_used [OF assms(1) k(1), of Transfer] f by auto
    then have "uses Mutex k" "k \<noteq> Admitted call" using k(2) by (cases k; simp)+
    then show False using threads.sound_alone [OF assms(1) k(1) assms(2), of Mutex] by simp
  qed
qed

section \<open>A thread alone\<close>

text \<open>Several steps of one strand.\<close>

fun drive :: "('s, 'c, 't) ftp_lib \<Rightarrow> nat \<Rightarrow> ('c, 't) strand \<Rightarrow> (('s, 'c) ftp_fs, ('c, 't) strand) act" where
  "drive F 0 k = ret k"
| "drive F (Suc n) k = seq (advance F k) (drive F n)"

lemma drive_runs: "drive F n k s = Some (k', t) \<Longrightarrow> runs (strand_step F) s k t k'"
  by (induction n arbitrary: k s) (auto intro: runs.intros advances elim!: seq_SomeE)

lemmas drive_simps = eval_nat_numeral run_seq

lemma run_unlocked: "idle s \<Longrightarrow> lock s = Some ((), s\<lparr>fs_locked := True\<rparr>)"
  by (simp add: lock_def idle_def)

lemma unlock_run [simp]: "unlock s = Some ((), s\<lparr>fs_locked := False\<rparr>)"
  by (simp add: unlock_def)

text \<open>A strand that is refused, and one that is admitted.\<close>

lemma refused_runs:
  assumes "idle s" "refusal s = Some e"
  shows "runs (strand_step F) s (Calling call) s (Finished (Inl e))"
proof -
  have i: "s\<lparr>fs_locked := False\<rparr> = s" using assms(1) by simp
  from assms(2) consider (busy) "transfer_active s" "e = busy_error"
    | (unusable) "\<not> transfer_active s" "\<not> connection_usable s" "e = unusable_error"
    | (none) "\<not> transfer_active s" "connection_usable s" "fs_stream s = None" "e = new_error KNotConnected"
    by (auto simp: refusal_def split: if_splits)
  then have "\<exists>n. drive F n (Calling call) s = Some (Finished (Inl e), s)"
  proof cases
    case busy
    with assms(1) i show ?thesis by (intro exI [of _ 3]) (simp add: drive_simps run_unlocked)
  next
    case unusable
    with assms(1) i show ?thesis by (intro exI [of _ 4]) (simp add: drive_simps run_unlocked)
  next
    case none
    with assms(1) i show ?thesis by (intro exI [of _ 5]) (simp add: drive_simps run_unlocked)
  qed
  then show ?thesis using drive_runs by blast
qed

lemma admitted_runs:
  assumes "idle s" "refusal s = None"
  shows "runs (strand_step F) s (Calling call) (s\<lparr>fs_locked := True\<rparr>) (Admitted call)"
  by (rule drive_runs [of F 3]) (use assms refusal_None [OF assms(2)] in \<open>simp add: drive_simps run_unlocked\<close>)

lemma with_stream_runs:
  assumes "idle s" "with_stream (closure F op) s = Some (r, t)"
  shows "runs (strand_step F) s (Calling (With_stream op)) t (settle r)"
proof (cases "refusal s")
  case (Some e)
  with with_stream_refused [OF assms(1) Some, of "closure F op"] assms refused_runs [OF assms(1) Some]
  show ?thesis by auto
next
  case None
  then obtain c where c: "fs_stream s = Some c" using refusal_None by blast
  with with_stream_admitted [OF assms(1) None c, of "closure F op"] assms(2) obtain u where
    u: "closure F op c (s\<lparr>fs_locked := True\<rparr>) = Some (r, u)" "t = (noted r u)\<lparr>fs_locked := False\<rparr>"
    by (auto split: option.splits)
  with c have "drive F 3 (Admitted (With_stream op)) (s\<lparr>fs_locked := True\<rparr>) = Some (settle r, t)"
    by (simp add: drive_simps run_noted)
  with admitted_runs [OF assms(1) None] show ?thesis by (rule runs_trans [OF _ drive_runs])
qed

text \<open>The closure of \<open>list_dir_raw\<close>.\<close>

definition listing_closure ::
  "('s, 'c, 't) ftp_lib \<Rightarrow> string \<Rightarrow> 'c control \<Rightarrow> (('s, 'c) ftp_fs, remote_error + string) act" where
  "listing_closure F remote c =
     seq (read_list_bytes F c remote) (\<lambda>(result, requires_reconnect).
     seq (if requires_reconnect then mark_connection_unusable else ret ()) (\<lambda>_.
     ret result))"

text \<open>The gates of the operations are calls.\<close>

lemma on_error_mapped: "on_error g (map_sum id f r) = on_error g r"
  by (cases r) (simp_all add: on_error_def)

lemma with_stream_replying: "with_stream (\<lambda>c. replying f (m c)) = replying f (with_stream m)"
proof
  fix s
  show "with_stream (\<lambda>c. replying f (m c)) s = replying f (with_stream m) s"
    unfolding with_stream_def with_lock_def
    by (auto simp: replying_def run_simps on_error_mapped split: option.splits sum.splits)
qed

lemma gates_are_calls:
  "with_stream (closure F (MKD p)) = replying Replied (with_stream (\<lambda>c. recorded (command (\<lambda>h. lib_mkdir F h p) c)))"
  "with_stream (closure F (DELE p)) = replying Replied (with_stream (\<lambda>c. recorded (command (\<lambda>h. lib_rm F h p) c)))"
  "with_stream (closure F (RMD p)) = replying Replied (with_stream (\<lambda>c. recorded (command (\<lambda>h. lib_rmdir F h p) c)))"
  "with_stream (closure F (RNFR p q)) = replying Replied (with_stream (\<lambda>c. recorded (command (\<lambda>h. lib_rename F h p q) c)))"
  "with_stream (closure F (SITE cmd)) = replying Said (with_stream (\<lambda>c.
     seq (command (\<lambda>h. lib_site F h cmd) c) (\<lambda>r. ret (map_err ftp_error r))))"
  "with_stream (closure F (RETR p offset len)) = replying (\<lambda>r. Opened (map_sum id (\<lambda>(transfer, resumed).
     (Reading (new_read_stream transfer len), if resumed then 0 else offset)) r)) (with_stream (start_download F p offset))"
  "with_stream (closure F (STOR p)) = replying (\<lambda>r. Opened (map_sum id (\<lambda>transfer. (Writing (new_write_stream transfer), 0)) r))
     (with_stream (start_upload (\<lambda>h. lib_put F h p)))"
  "with_stream (closure F (APPE p)) = replying (\<lambda>r. Opened (map_sum id (\<lambda>transfer. (Writing (new_write_stream transfer), 0)) r))
     (with_stream (start_upload (\<lambda>h. lib_append F h p)))"
  by (rule trans [OF arg_cong [of _ _ with_stream] with_stream_replying], rule ext, rule closure.simps)+

lemma listing_runs:
  assumes "idle s" "refusal s = None" "fs_stream s = Some c" "with_exclusive_stream (listing_closure F remote) s = Some (r, t)"
  shows "runs (strand_step F) s (Calling (With_exclusive_stream remote)) (taken s) (Owning c remote)"
    and "runs (strand_step F) (taken s) (Owning c remote) t (Finished (map_sum id Listed r))"
proof -
  obtain x rr u where u: "read_list_bytes F c remote (taken s) = Some ((x, rr), u)" "keeps (taken s) u"
    using inner_run [OF inner_read_list_bytes, of F c remote "taken s"] by auto
  define v where "v = (if rr then u\<lparr>connection_usable := False\<rparr> else u)"
  have f: "listing_closure F remote c (taken s) = Some (x, v)"
    using u(1) by (simp add: v_def listing_closure_def run_seq mark_connection_unusable_def)
  have i: "idle v" using u(2) assms(1) by (simp add: v_def keeps_def starts_def taken_def idle_def)
  have "with_exclusive_stream (listing_closure F remote) s = Some (x, put_back c (noted x v))"
    using with_exclusive_admitted [OF assms(1-3), of "listing_closure F remote"] f i by auto
  with assms(4) have t: "r = x" "t = put_back c (noted x v)" by auto
  have k: "s\<lparr>fs_locked := True, fs_stream := None, transfer_active := True, fs_locked := False\<rparr> = taken s"
    using assms(1) by (cases s) (simp add: taken_def idle_def)
  have j: "idle (noted x v)" using i by simp
  then have p: "(noted x v)\<lparr>fs_locked := True, fs_stream := Some c, fs_locked := False, transfer_active := False\<rparr>
      = put_back c (noted x v)"
    by (cases "noted x v") (simp add: put_back_def idle_def)
  have "drive F 3 (Admitted (With_exclusive_stream remote)) (s\<lparr>fs_locked := True\<rparr>) = Some (Owning c remote, taken s)"
    using assms(3) k by (simp add: drive_simps)
  with admitted_runs [OF assms(1,2)]
  show "runs (strand_step F) s (Calling (With_exclusive_stream remote)) (taken s) (Owning c remote)"
    by (rule runs_trans [OF _ drive_runs])
  have "drive F 2 (Owning c remote) (taken s) = Some (Returning c (map_sum id Listed x), noted x v)"
    using u(1) by (simp add: v_def drive_simps run_noted mark_connection_unusable_def)
  moreover have "drive F 3 (Returning c (map_sum id Listed x)) (noted x v) = Some (Finished (map_sum id Listed x), t)"
    using j p t(2) by (simp add: drive_simps run_unlocked)
  ultimately show "runs (strand_step F) (taken s) (Owning c remote) t (Finished (map_sum id Listed r))"
    unfolding t(1) by (rule runs_trans [OF drive_runs drive_runs])
qed

lemma with_exclusive_runs:
  assumes "idle s" "with_exclusive_stream (listing_closure F remote) s = Some (r, t)"
  shows "runs (strand_step F) s (Calling (With_exclusive_stream remote)) t (Finished (map_sum id Listed r))"
proof (cases "refusal s")
  case (Some e)
  with with_exclusive_refused [OF assms(1) Some, of "listing_closure F remote"] assms
    refused_runs [OF assms(1) Some] show ?thesis by auto
next
  case None
  then obtain c where "fs_stream s = Some c" using refusal_None by blast
  from listing_runs [OF assms(1) None this assms(2)] show ?thesis by (rule runs_trans)
qed

lemma is_connected_runs:
  assumes "idle s" "is_connected s = Some (b, t)"
  shows "runs (strand_step F) s Asking t (Told b)"
proof -
  consider "\<not> connection_usable s" | "connection_usable s" "fs_stream s \<noteq> None"
    | "connection_usable s" "fs_stream s = None" by blast
  then have "\<exists>n. drive F n Asking s = Some (Told b, t)"
  proof cases
    case 1
    with assms(2) show ?thesis by (intro exI [of _ 1]) (simp add: drive_simps is_connected_def)
  next
    case 2
    with assms show ?thesis
      by (intro exI [of _ 3]) (auto simp: drive_simps run_unlocked is_connected_def run_with_lock)
  next
    case 3
    with assms show ?thesis
      by (intro exI [of _ 4]) (auto simp: drive_simps run_unlocked is_connected_def run_with_lock)
  qed
  then show ?thesis using drive_runs by blast
qed

lemma welcome_runs:
  assumes "idle s" "welcome_message F s = Some (banner, t)"
  shows "runs (strand_step F) s Greeting t (Welcomed banner)"
  by (rule drive_runs [of F 2]) (use assms in \<open>auto simp: drive_simps run_unlocked welcome_message_def run_with_lock\<close>)

lemma closing_runs:
  assumes "rd_inner rd \<noteq> None"
  obtains result t where "read_stream_finish F rd s = Some (result, t)" "drop_read_stream F rd s = Some ((), t)"
    "runs (strand_step F) s (Closing (Reading rd)) t (Shut result)"
proof -
  obtain inner where i: "rd_inner rd = Some inner" using assms by blast
  obtain result w where c: "completion F inner (rd_at_eof rd) (world s) = (result, w)" by force
  have "drive F 3 (Closing (Reading rd)) s = Some (Shut result, closed result w s)"
    using i finish_read_completion [OF c]
    by (cases s; cases result) (simp_all add: drive_simps finalize_def closed_def)
  from that [OF closing_read(1,2) [OF i c] drive_runs [OF this]] show thesis .
qed

lemma closing_upload_runs:
  assumes "wr_inner wr \<noteq> None"
  obtains result t where "write_stream_finish F wr s = Some (result, t)" "drop_write_stream F wr s = Some ((), t)"
    "runs (strand_step F) s (Closing (Writing wr)) t (Shut result)"
proof -
  obtain inner where i: "wr_inner wr = Some inner" using assms by blast
  obtain result w where c: "upload_completion F inner (world s) = (result, w)" by force
  have "drive F 3 (Closing (Writing wr)) s = Some (Shut result, closed result w s)"
    using i finish_write_completion [OF c]
    by (cases s; cases result) (simp_all add: drive_simps finalize_def closed_def)
  from that [OF closing_write [OF i c] drive_runs [OF this]] show thesis .
qed

end
