(* ===== verification/Tokio_Tasks.thy ===== *)
theory Tokio_Tasks
  imports Sync_Threads Tokio_Session
begin

text \<open>
  The asynchronous client shared by tasks. Its operations take \<open>&self\<close> and wait for each other on
  the mutex, and any of their futures may be dropped where it waits. A call is cut at the mutex, at
  every access to the atomics and where the guard is completed (\<open>src/src/client/tokio.rs\<close>).
\<close>

section \<open>Calls\<close>

text \<open>
  The part of a call under its guard: the reply, and whether the client still has to be marked
  after the guard is completed. Commands, \<open>SITE\<close> and listings record after completing; transfers
  record first.
\<close>

datatype task_call = Guarded stream_call | Guarded_list string

definition task_download ::
  "('s, 'c, 't) ftp_lib \<Rightarrow> string \<Rightarrow> 64 word \<Rightarrow> 64 word option \<Rightarrow> 'c control
     \<Rightarrow> (('s, 'c) tokio_ftp_fs, remote_error + 't reply) act" where
  "task_download F remote offset len c =
     seq (if offset > 0 then tokio_request_offset F c offset else ok False) (\<lambda>r.
     case r of
       Inl error \<Rightarrow> seq (tokio_record_remote_error error) (\<lambda>_. raise error)
     | Inr resumed \<Rightarrow>
         seq (data_command (\<lambda>h. lib_retr F h remote) c) (\<lambda>result.
         attempt (
           if resumed \<and> isl result then
             seq (command (\<lambda>h. lib_resume_transfer F h 0) c) (\<lambda>r.
             case r of
               Inr _ \<Rightarrow> seq (data_command (\<lambda>h. lib_retr F h remote) c) (\<lambda>result'. ok (False, result'))
             | Inl error \<Rightarrow> seq tokio_mark_connection_unusable (\<lambda>_. raise (ftp_error error)))
           else ok (resumed, result)) (\<lambda>(resumed, result).
         seq (on_error tokio_record_ftp_error result) (\<lambda>_.
         case result of
           Inl err \<Rightarrow> ok (Opened (Inl err))
         | Inr transfer \<Rightarrow>
             seq tokio_start_transfer (\<lambda>_.
             ok (Opened (Inr (Reading (tokio_new_read_stream transfer len), if resumed then 0 else offset))))))))"

definition task_upload ::
  "('c \<Rightarrow> 's \<Rightarrow> ('t outcome \<times> bool) \<times> 's) \<Rightarrow> 'c control
     \<Rightarrow> (('s, 'c) tokio_ftp_fs, remote_error + 't reply) act" where
  "task_upload op c =
     seq (data_command op c) (\<lambda>result.
     seq (on_error tokio_record_ftp_error result) (\<lambda>_.
     case result of
       Inl err \<Rightarrow> ok (Opened (Inl err))
     | Inr transfer \<Rightarrow>
         seq tokio_start_transfer (\<lambda>_. ok (Opened (Inr (Writing (tokio_new_write_stream transfer), 0))))))"

definition task_command ::
  "('c control \<Rightarrow> (('s, 'c) tokio_ftp_fs, FtpError + unit) act) \<Rightarrow> 'c control
     \<Rightarrow> (('s, 'c) tokio_ftp_fs, (remote_error + 't reply) \<times> bool) act" where
  "task_command cmd c =
     seq (cmd c) (\<lambda>result.
     ret (Inr (Replied result), case result of Inl e \<Rightarrow> transfer_setup_requires_reconnect e | Inr _ \<Rightarrow> False))"

definition settled_now :: "('s, 'a) act \<Rightarrow> ('s, 'a \<times> bool) act" where
  "settled_now m = seq m (\<lambda>r. ret (r, False))"

fun task_body ::
  "('s, 'c, 't) ftp_lib \<Rightarrow> task_call \<Rightarrow> 'c control
     \<Rightarrow> (('s, 'c) tokio_ftp_fs, (remote_error + 't reply) \<times> bool) act" where
  "task_body F (Guarded (MKD p)) = task_command (command (\<lambda>h. lib_mkdir F h p))"
| "task_body F (Guarded (DELE p)) = task_command (command (\<lambda>h. lib_rm F h p))"
| "task_body F (Guarded (RMD p)) = task_command (command (\<lambda>h. lib_rmdir F h p))"
| "task_body F (Guarded (RNFR p q)) = task_command (command (\<lambda>h. lib_rename F h p q))"
| "task_body F (Guarded (SITE cmd)) = (\<lambda>c.
     seq (command (\<lambda>h. lib_site F h cmd) c) (\<lambda>result.
     ret (case result of
       Inl e \<Rightarrow> (Inl (ftp_error e), remote_error_requires_reconnect (ftp_error e))
     | Inr response \<Rightarrow> (Inr (Said response), False))))"
| "task_body F (Guarded ROOT) = (\<lambda>c. ret (Inr Reached, False))"
| "task_body F (Guarded (RETR p offset len)) = (\<lambda>c. settled_now (task_download F p offset len c))"
| "task_body F (Guarded (STOR p)) = (\<lambda>c. settled_now (task_upload (\<lambda>h. lib_put F h p) c))"
| "task_body F (Guarded (APPE p)) = (\<lambda>c. settled_now (task_upload (\<lambda>h. lib_append F h p) c))"
| "task_body F (Guarded_list p) = (\<lambda>c.
     seq (tokio_read_list_bytes F c p) (\<lambda>(result, requires_reconnect).
     ret (map_sum id Listed result, requires_reconnect)))"

text \<open>A whole call.\<close>

definition task_whole ::
  "('s, 'c, 't) ftp_lib \<Rightarrow> task_call \<Rightarrow> (('s, 'c) tokio_ftp_fs, remote_error + 't reply) act" where
  "task_whole F call =
     attempt lock_stream (\<lambda>g.
     seq guard_stream (\<lambda>c.
     seq (task_body F call c) (\<lambda>(result, requires_reconnect).
     seq (stream_guard_complete g) (\<lambda>_.
     seq (if requires_reconnect then tokio_mark_connection_unusable else ret ()) (\<lambda>_.
     ret result)))))"

section \<open>Strands\<close>

text \<open>
  Where a task stands in a call or in the life of a stream it owns. \<open>T_dropping\<close> is a guard going
  out of scope with its future: the mutex first, then the mark. \<open>T_discarding\<close> is the \<open>Drop\<close> of a
  stream that was not finished, \<open>T_releasing\<close> the drop of its transfer guard, with the answer of
  \<open>finish\<close> if somebody waits for it, and \<open>T_gone\<close> a future dropped before it took the mutex.
\<close>

datatype ('c, 't) task =
    T_calling task_call
  | T_locked task_call
  | T_quiet task_call
  | T_usable task_call
  | T_holding operation_guard task_call
  | T_ran operation_guard "remote_error + 't reply" bool
  | T_answered "remote_error + 't reply" bool
  | T_leaving remote_error
  | T_finished "remote_error + 't reply"
  | T_dropping operation_guard
  | T_unwinding operation_guard
  | T_cancelled
  | T_skipping "'t read_stream" "64 word"
  | T_streaming "'t handle"
  | T_closing "'t handle"
  | T_finalized "remote_error + unit"
  | T_discarding "'t handle"
  | T_releasing "(remote_error + unit) option"
  | T_shut "(remote_error + unit) option"
  | T_gone

fun task_settle :: "remote_error + 't reply \<Rightarrow> ('c, 't) task" where
  "task_settle (Inr (Opened (Inr (Reading rd, offset)))) = (if offset > 0 then T_skipping rd offset else T_streaming (Reading rd))"
| "task_settle (Inr (Opened (Inr (Writing wr, offset)))) = T_streaming (Writing wr)"
| "task_settle r = T_finished r"

definition task_finalize ::
  "('s, 'c, 't) ftp_lib \<Rightarrow> 't handle \<Rightarrow> (('s, 'z) conn_scheme, remote_error + unit) act" where
  "task_finalize F h =
     (case h of
        Reading rd \<Rightarrow> seq (expect (rd_inner rd)) (\<lambda>inner. tokio_finish_read F inner (rd_at_eof rd))
      | Writing wr \<Rightarrow> seq (expect (wr_inner wr)) (tokio_finish_write F))"

text \<open>The \<open>Drop\<close> of a stream that still has its transfer.\<close>

definition drop_handle :: "('s, 'c, 't) ftp_lib \<Rightarrow> 't handle \<Rightarrow> (('s, 'z) conn_scheme, unit) act" where
  "drop_handle F h =
     (case h of
        Reading rd \<Rightarrow> seq (expect (rd_inner rd)) (\<lambda>inner.
          seq (if rd_at_eof rd then ret () else guard_invalidate) (\<lambda>_.
          update (\<lambda>s. s\<lparr>world := lib_abandon_read F inner (world s)\<rparr>)))
      | Writing wr \<Rightarrow> seq (expect (wr_inner wr)) (\<lambda>inner.
          update (\<lambda>s. s\<lparr>world := lib_abandon_write F inner (world s)\<rparr>)))"

text \<open>The next step of a task that nobody cancels.\<close>

fun task_advance :: "('s, 'c, 't) ftp_lib \<Rightarrow> ('c, 't) task \<Rightarrow> (('s, 'c) tokio_ftp_fs, ('c, 't) task) act" where
  "task_advance F (T_calling call) = seq tokio_lock (\<lambda>_. ret (T_locked call))"
| "task_advance F (T_locked call) = seq (gets transfer_active) (\<lambda>active.
     ret (if active then T_leaving busy_error else T_quiet call))"
| "task_advance F (T_quiet call) = seq (gets connection_usable) (\<lambda>usable.
     ret (if \<not> usable then T_leaving unusable_error else T_usable call))"
| "task_advance F (T_usable call) = seq (gets tk_stream) (\<lambda>guard.
     ret (if guard = None then T_leaving (new_error KNotConnected) else T_holding \<lparr> og_completed = False \<rparr> call))"
| "task_advance F (T_leaving e) = seq tokio_unlock (\<lambda>_. ret (T_finished (Inl e)))"
| "task_advance F (T_holding g call) = seq guard_stream (\<lambda>c.
     seq (task_body F call c) (\<lambda>(result, requires_reconnect). ret (T_ran g result requires_reconnect)))"
| "task_advance F (T_ran g result requires_reconnect) =
     seq (stream_guard_complete g) (\<lambda>_. ret (T_answered result requires_reconnect))"
| "task_advance F (T_answered result requires_reconnect) =
     seq (if requires_reconnect then tokio_mark_connection_unusable else ret ()) (\<lambda>_. ret (task_settle result))"
| "task_advance F (T_dropping g) = seq tokio_unlock (\<lambda>_. ret (T_unwinding g))"
| "task_advance F (T_unwinding g) = seq (drop_operation g) (\<lambda>_. ret T_cancelled)"
| "task_advance F (T_skipping rd offset) = seq (tokio_skip_prefix F rd offset) (\<lambda>(skipped, rd).
     ret (case skipped of Inl _ \<Rightarrow> T_closing (Reading rd) | Inr _ \<Rightarrow> T_streaming (Reading rd)))"
| "task_advance F (T_closing h) = seq (task_finalize F h) (\<lambda>result. ret (T_finalized result))"
| "task_advance F (T_finalized result) =
     seq (case result of Inl _ \<Rightarrow> guard_invalidate | Inr _ \<Rightarrow> ret ()) (\<lambda>_. ret (T_releasing (Some result)))"
| "task_advance F (T_discarding h) = seq (drop_handle F h) (\<lambda>_. ret (T_releasing None))"
| "task_advance F (T_releasing res) = seq guard_drop (\<lambda>_. ret (T_shut res))"
| "task_advance F _ = panic"

text \<open>
  The steps of a task: going on, using or giving up the stream it owns, or being cancelled where it
  waits. \<open>sent\<close> is where the library had taken the world by then, \<open>rest\<close> what a skip had left to
  read. \<open>finish\<close> takes the transfer out of the stream before it waits, so a cancelled \<open>finish\<close>
  leaves \<open>Drop\<close> nothing to look at: only the guard is dropped.
\<close>

inductive task_step ::
  "('s, 'c, 't) ftp_lib \<Rightarrow> ('s, 'c) tokio_ftp_fs \<Rightarrow> ('c, 't) task \<Rightarrow> ('s, 'c) tokio_ftp_fs \<Rightarrow> ('c, 't) task \<Rightarrow> bool"
  for F :: "('s, 'c, 't) ftp_lib" where
  proceeds: "task_advance F k s = Some (k', t) \<Longrightarrow> task_step F s k t k'"
| poll_reads: "poll_read F ready rd n = Some (rb, rd') \<Longrightarrow>
    task_step F s (T_streaming (Reading rd)) s (T_streaming (Reading rd'))"
| poll_writes: "poll_write F ready wr buf s = Some (rn, t) \<Longrightarrow>
    task_step F s (T_streaming (Writing wr)) t (T_streaming (Writing wr))"
| poll_flushes: "poll_flush F ready wr s = Some (ru, t) \<Longrightarrow>
    task_step F s (T_streaming (Writing wr)) t (T_streaming (Writing wr))"
| poll_closes: "poll_close F ready wr s = Some (ru, t) \<Longrightarrow>
    task_step F s (T_streaming (Writing wr)) t (T_streaming (Writing wr))"
| finishes: "task_step F s (T_streaming h) s (T_closing h)"
| drops: "task_step F s (T_streaming h) s (T_discarding h)"
| cancels_waiting: "task_step F s (T_calling call) s T_gone"
| cancels_command: "task_step F s (T_holding g call) (s\<lparr>world := sent (world s)\<rparr>) (T_dropping g)"
| cancels_skip: "rd_inner rd = Some inner \<Longrightarrow>
    task_step F s (T_skipping rd offset) s
      (T_discarding (Reading (rd\<lparr>rd_inner := Some (inner\<lparr>tr_events := rest\<rparr>)\<rparr>)))"
| cancels_finish: "task_step F s (T_closing h) (s\<lparr>world := sent (world s)\<rparr>) (T_releasing None)"

fun task_fresh :: "('c, 't) task \<Rightarrow> bool" where
  "task_fresh (T_calling call) = True"
| "task_fresh _ = False"

abbreviation tasks_reach ::
  "('s, 'c, 't) ftp_lib \<Rightarrow> ('s, 'c) tokio_ftp_fs \<times> ('c, 't) task list \<Rightarrow> ('s, 'c) tokio_ftp_fs \<times> ('c, 't) task list \<Rightarrow> bool" where
  "tasks_reach F \<equiv> pool_reach (task_step F) task_fresh"

section \<open>Resources\<close>

text \<open>A task never takes the control stream out of the client.\<close>

fun task_used :: "resource \<Rightarrow> ('s, 'c) tokio_ftp_fs \<Rightarrow> bool" where
  "task_used Mutex s = tk_locked s"
| "task_used Transfer s = transfer_active s"
| "task_used Control s = False"

fun task_uses :: "resource \<Rightarrow> ('c, 't) task \<Rightarrow> bool" where
  "task_uses Mutex (T_locked call) = True"
| "task_uses Mutex (T_quiet call) = True"
| "task_uses Mutex (T_usable call) = True"
| "task_uses Mutex (T_holding g call) = True"
| "task_uses Mutex (T_ran g result requires_reconnect) = True"
| "task_uses Mutex (T_leaving e) = True"
| "task_uses Mutex (T_dropping g) = True"
| "task_uses Transfer (T_ran g result requires_reconnect) = opened result"
| "task_uses Transfer (T_answered result requires_reconnect) = opened result"
| "task_uses Transfer (T_skipping rd offset) = True"
| "task_uses Transfer (T_streaming h) = True"
| "task_uses Transfer (T_closing h) = True"
| "task_uses Transfer (T_finalized res) = True"
| "task_uses Transfer (T_discarding h) = True"
| "task_uses Transfer (T_releasing res) = True"
| "task_uses _ _ = False"

fun failed :: "(remote_error + unit) option \<Rightarrow> bool" where
  "failed (Some (Inl e)) = True"
| "failed _ = False"

fun task_fits :: "('s, 'c) tokio_ftp_fs \<Rightarrow> ('c, 't) task \<Rightarrow> bool" where
  "task_fits s (T_quiet call) = (\<not> transfer_active s)"
| "task_fits s (T_usable call) = (\<not> transfer_active s)"
| "task_fits s (T_holding g call) = (\<not> transfer_active s \<and> tk_stream s \<noteq> None \<and> \<not> og_completed g)"
| "task_fits s (T_ran g result requires_reconnect) = (handle_of result \<and> (\<not> opened result \<longrightarrow> \<not> transfer_active s)
     \<and> (lost result \<longrightarrow> requires_reconnect \<or> \<not> connection_usable s))"
| "task_fits s (T_answered result requires_reconnect) = (handle_of result
     \<and> (lost result \<longrightarrow> requires_reconnect \<or> \<not> connection_usable s))"
| "task_fits s (T_leaving e) = (remote_error_requires_reconnect e \<longrightarrow> \<not> connection_usable s)"
| "task_fits s (T_finished result) = (lost result \<longrightarrow> \<not> connection_usable s)"
| "task_fits s (T_dropping g) = (\<not> og_completed g)"
| "task_fits s (T_unwinding g) = (\<not> og_completed g)"
| "task_fits s T_cancelled = (\<not> connection_usable s)"
| "task_fits s (T_skipping rd offset) = (rd_inner rd \<noteq> None)"
| "task_fits s (T_streaming h) = alive h"
| "task_fits s (T_closing h) = alive h"
| "task_fits s (T_discarding h) = alive h"
| "task_fits s (T_releasing res) = (failed res \<longrightarrow> \<not> connection_usable s)"
| "task_fits s (T_shut res) = (failed res \<longrightarrow> \<not> connection_usable s)"
| "task_fits s _ = True"

end
