(* ===== verification/Task_Facts.thy ===== *)
theory Task_Facts
  imports Tokio_Tasks Thread_Facts
begin

text \<open>
  Facts about tasks that share an asynchronous client: what a step of one guarantees to the others,
  and the interpretation of the pools on it.
\<close>

section \<open>The bodies\<close>

text \<open>What every body keeps: the mutex and the stream; a transfer may have begun.\<close>

definition task_answers ::
  "('s, 'c) tokio_ftp_fs \<Rightarrow> remote_error + 't reply \<Rightarrow> bool \<Rightarrow> ('s, 'c) tokio_ftp_fs \<Rightarrow> bool" where
  "task_answers s r p t \<longleftrightarrow> starts (blocking s) (blocking t) \<and> tk_connected t = tk_connected s
     \<and> transfer_active t = (transfer_active s \<or> opened r)
     \<and> handle_of r \<and> (lost r \<longrightarrow> p \<or> \<not> connection_usable t)"

lemma within_run: "within.framed m \<Longrightarrow> \<exists>r t. m s = Some (r, t) \<and> retains s t"
  using within.framedE [of m s] by blast

lemma task_command_answers: "\<exists>r p t. task_command (command op) c s = Some ((r, p), t) \<and> task_answers s r p t"
  using within_run [OF within_command(1), of op c s]
  by (elim exE conjE; rename_tac x t; case_tac x)
    (auto simp: task_command_def run_seq task_answers_def retains_def keeps_def)

lemma task_begin_run:
  assumes "retains s u" "\<And>x. alive (fst (h x))"
  shows "\<exists>r t. seq (on_error tokio_record_ftp_error result) (\<lambda>_.
     case result of
       Inl err \<Rightarrow> ok (Opened (Inl err))
     | Inr transfer \<Rightarrow> seq tokio_start_transfer (\<lambda>_. ok (Opened (Inr (h transfer))))) u = Some (r, t)
    \<and> task_answers s r False t"
proof (cases result)
  case (Inl e)
  with assms(1) show ?thesis
    by (auto simp: run_simps on_error_def shared_code task_answers_def retains_def keeps_def starts_def options_def blocking_def)
next
  case (Inr x)
  obtain a b where "h x = (a, b)" by (cases "h x")
  with assms(1) assms(2) [of x] Inr show ?thesis
    by (auto simp: run_simps on_error_def shared_code task_answers_def retains_def keeps_def starts_def options_def blocking_def)
qed

lemma task_upload_answers: "\<exists>r t. task_upload op c s = Some (r, t) \<and> task_answers s r False t"
proof -
  obtain x u where "data_command op c s = Some (x, u)" "retains s u"
    using within_run [OF within_command(2), of op c s] by blast
  with task_begin_run [of s u "\<lambda>transfer. (Writing (tokio_new_write_stream transfer), 0)" x] show ?thesis
    by (simp add: task_upload_def run_seq tokio_new_write_stream_def)
qed

text \<open>The part of a download up to the transfer.\<close>

definition task_restart ::
  "('s, 'c, 't) ftp_lib \<Rightarrow> string \<Rightarrow> 64 word \<Rightarrow> 'c control
     \<Rightarrow> (('s, 'c) tokio_ftp_fs, remote_error + (bool \<times> 't transfer outcome)) act" where
  "task_restart F remote offset c =
     attempt (seq (if offset > 0 then tokio_request_offset F c offset else ok False) (\<lambda>r.
       case r of
         Inl error \<Rightarrow> seq (tokio_record_remote_error error) (\<lambda>_. raise error)
       | Inr resumed \<Rightarrow> ok resumed)) (\<lambda>resumed.
     seq (data_command (\<lambda>h. lib_retr F h remote) c) (\<lambda>result.
     if resumed \<and> isl result then
       seq (command (\<lambda>h. lib_resume_transfer F h 0) c) (\<lambda>r.
       case r of
         Inr _ \<Rightarrow> seq (data_command (\<lambda>h. lib_retr F h remote) c) (\<lambda>result'. ok (False, result'))
       | Inl error \<Rightarrow> seq tokio_mark_connection_unusable (\<lambda>_. raise (ftp_error error)))
     else ok (resumed, result)))"

lemma task_download_restarts:
  "task_download F remote offset len c =
     attempt (task_restart F remote offset c) (\<lambda>(resumed, result).
     seq (on_error tokio_record_ftp_error result) (\<lambda>_.
     case result of
       Inl err \<Rightarrow> ok (Opened (Inl err))
     | Inr transfer \<Rightarrow>
         seq tokio_start_transfer (\<lambda>_.
         ok (Opened (Inr (Reading (tokio_new_read_stream transfer len), if resumed then 0 else offset))))))"
  unfolding task_download_def task_restart_def attempt_assoc attempt_seq
  by (intro ext seq_cong_run) (auto simp: attempt_seq run_simps split: sum.splits option.splits)

lemma within_request [frame_intros]: "within.framed (request_offset F c n)"
  unfolding request_offset_def by (auto intro!: frame_intros split: FtpError.splits option.splits sum.splits)

lemma within_restart: "within.framed (task_restart F remote offset c)"
  unfolding task_restart_def shared_code by (intro frame_intros)

lemma task_restart_records:
  assumes "task_restart F remote offset c s = Some (Inl e, t)" "remote_error_requires_reconnect e"
  shows "\<not> connection_usable t"
  using assms(1) unfolding task_restart_def shared_code
proof (cases rule: attempt_SomeE)
  case (err d)
  from err(1) assms(2) err(2) show ?thesis
    by (auto elim!: seq_SomeE simp: run_marking split: sum.splits if_splits)
next
  case (val resumed u)
  from val(2) obtain x v where "(if resumed \<and> isl x then
       seq (command (\<lambda>h. lib_resume_transfer F h 0) c) (\<lambda>r.
       case r of
         Inr _ \<Rightarrow> seq (data_command (\<lambda>h. lib_retr F h remote) c) (\<lambda>result'. ok (False, result'))
       | Inl error \<Rightarrow> seq mark_connection_unusable (\<lambda>_. raise (ftp_error error)))
     else ok (resumed, x)) v = Some (Inl e, t)"
    by (auto elim!: seq_SomeE)
  then show ?thesis
    by (auto elim!: seq_SomeE simp: run_marking split: if_splits sum.splits)
qed

lemma task_download_answers: "\<exists>r t. task_download F remote offset len c s = Some (r, t) \<and> task_answers s r False t"
proof -
  obtain q u where q: "task_restart F remote offset c s = Some (q, u)" "retains s u"
    using within_run [OF within_restart] by blast
  show ?thesis
  proof (cases q)
    case (Inl e)
    with q task_restart_records [of F remote offset c s e u] show ?thesis
      by (auto simp: task_download_restarts run_attempt task_answers_def retains_def keeps_def)
  next
    case (Inr p)
    obtain resumed result where p: "p = (resumed, result)" by (cases p)
    from task_begin_run [OF q(2), of "\<lambda>transfer. (Reading (tokio_new_read_stream transfer len), if resumed then 0 else offset)" result]
    show ?thesis using q(1) Inr p
      by (simp add: task_download_restarts run_attempt tokio_new_read_stream_def)
  qed
qed

lemma task_body_answers: "\<exists>r p t. task_body F call c s = Some ((r, p), t) \<and> task_answers s r p t"
proof (cases call)
  case (Guarded op)
  show ?thesis
  proof (cases op)
    case (SITE cmd)
    obtain x t where "command (\<lambda>h. lib_site F h cmd) c s = Some (x, t)" "retains s t"
      using within_run [OF within_command(1), of "\<lambda>h. lib_site F h cmd" c s] by blast
    with Guarded SITE show ?thesis
      by (cases x) (auto simp: run_seq task_answers_def retains_def keeps_def)
  next
    case (RETR p offset len)
    from task_download_answers [of F p offset len c s] Guarded RETR show ?thesis
      by (auto simp: settled_now_def run_seq)
  next
    case (STOR p)
    from task_upload_answers [of "\<lambda>h. lib_put F h p" c s] Guarded STOR show ?thesis
      by (auto simp: settled_now_def run_seq)
  next
    case (APPE p)
    from task_upload_answers [of "\<lambda>h. lib_append F h p" c s] Guarded APPE show ?thesis
      by (auto simp: settled_now_def run_seq)
  next
    case ROOT
    with Guarded show ?thesis by (auto simp: task_answers_def starts_def)
  qed (simp_all add: Guarded task_command_answers)
next
  case (Guarded_list p)
  obtain x rr t where "tokio_read_list_bytes F c p s = Some ((x, rr), t)" "retains s t"
    using within_run [OF within_read_list, of F c p s] by auto
  moreover have "\<forall>e. x = Inl e \<longrightarrow> remote_error_requires_reconnect e \<longrightarrow> rr"
    using calculation(1) by (auto simp: tokio_read_list_bytes_def Let_def elim!: seq_SomeE split: sum.splits prod.splits)
  ultimately show ?thesis using Guarded_list
    by (cases x) (auto simp: run_seq task_answers_def retains_def keeps_def)
qed

section \<open>What a step does to the others\<close>

definition task_guarantee ::
  "('s, 'c) tokio_ftp_fs \<Rightarrow> ('c, 't) task \<Rightarrow> ('s, 'c) tokio_ftp_fs \<Rightarrow> ('c, 't) task \<Rightarrow> bool" where
  "task_guarantee s k t k' \<longleftrightarrow>
     of_bool (tk_locked t) + of_bool (task_uses Mutex k) = (of_bool (tk_locked s) + of_bool (task_uses Mutex k') :: nat)
     \<and> of_bool (transfer_active t) + of_bool (task_uses Transfer k)
       = (of_bool (transfer_active s) + of_bool (task_uses Transfer k') :: nat)
     \<and> task_fits t k' \<and> tk_stream t = tk_stream s \<and> tk_connected t = tk_connected s
     \<and> (connection_usable t \<longrightarrow> connection_usable s)
     \<and> (\<not> task_uses Mutex k \<longrightarrow> \<not> transfer_active s \<longrightarrow> \<not> transfer_active t)"

lemma task_settles [simp]:
  "handle_of r \<Longrightarrow> task_fits t (task_settle r) = (opened r \<or> (lost r \<longrightarrow> \<not> connection_usable t))"
  "task_uses Transfer (task_settle r) = opened r" "\<not> task_uses Mutex (task_settle r)"
  by (induction r rule: task_settle.induct; simp)+

lemma task_finalize_run: "alive h \<Longrightarrow> \<exists>result w. task_finalize F h s = Some (result, s\<lparr>world := w\<rparr>)"
  by (cases h; cases s; auto simp: task_finalize_def tokio_finish_read_def tokio_finish_write_def run_seq run_on_world
      split: prod.splits)

lemma drop_handle_run:
  "alive h \<Longrightarrow> \<exists>w u. drop_handle F h s = Some ((), s\<lparr>world := w, connection_usable := u\<rparr>) \<and> (u \<longrightarrow> connection_usable s)"
  by (cases h; cases s; auto simp: drop_handle_def run_simps split: if_splits)

lemma task_holding_step:
  assumes "task_advance F (T_holding g call) s = Some (k', t)" "task_fits s (T_holding g call)" "tk_locked s"
  shows "task_guarantee s (T_holding g call) t k'"
proof -
  obtain c where c: "tk_stream s = Some c" using assms(2) by auto
  obtain r p u where "task_body F call c s = Some ((r, p), u)" "task_answers s r p u"
    using task_body_answers by blast
  with assms c show ?thesis
    by (auto simp: run_seq guard_stream_def task_guarantee_def task_answers_def starts_def)
qed

lemma task_closing_step:
  assumes "task_advance F (T_closing h) s = Some (k', t)" "task_fits s (T_closing h)" "transfer_active s"
  shows "task_guarantee s (T_closing h) t k'"
  using assms task_finalize_run [of h F s] by (auto simp: run_seq task_guarantee_def)

lemma task_discarding_step:
  assumes "task_advance F (T_discarding h) s = Some (k', t)" "task_fits s (T_discarding h)" "transfer_active s"
  shows "task_guarantee s (T_discarding h) t k'"
  using assms drop_handle_run [of h F s] by (auto simp: run_seq task_guarantee_def)

lemma task_skipping_step:
  assumes "task_advance F (T_skipping rd offset) s = Some (k', t)" "task_fits s (T_skipping rd offset)" "transfer_active s"
  shows "task_guarantee s (T_skipping rd offset) t k'"
proof -
  obtain inner where i: "rd_inner rd = Some inner" using assms(2) by auto
  show ?thesis using assms i
    by (auto simp: tokio_skip_prefix_def run_seq task_guarantee_def Let_def split: prod.splits sum.splits if_splits)
qed

lemma task_advance_guarantee:
  assumes "task_advance F k s = Some (k', t)" "task_fits s k" "\<And>r. task_uses r k \<Longrightarrow> task_used r s"
  shows "task_guarantee s k t k'"
proof -
  have m: "task_uses Mutex k \<longrightarrow> tk_locked s" "task_uses Transfer k \<longrightarrow> transfer_active s"
    using assms(3) [of Mutex] assms(3) [of Transfer] by simp_all
  from assms(1,2) m show ?thesis
  proof (induction k)
    case (T_holding g call)
    then show ?case by (simp only: task_holding_step task_uses.simps simp_thms)
  next
    case (T_closing h)
    then show ?case by (simp only: task_closing_step task_uses.simps simp_thms)
  next
    case (T_discarding h)
    then show ?case by (simp only: task_discarding_step task_uses.simps simp_thms)
  next
    case (T_skipping rd offset)
    then show ?case by (simp only: task_skipping_step task_uses.simps simp_thms)
  qed (clarsimp simp: run_simps tokio_lock_def drop_operation_def shared_code task_guarantee_def split: if_splits sum.splits; auto)+
qed

lemma task_step_guarantee:
  assumes "task_step F s k t k'" "task_fits s k" "\<And>r. task_uses r k \<Longrightarrow> task_used r s"
  shows "task_guarantee s k t k'"
  using assms
proof (induction rule: task_step.induct)
  case (proceeds k s k' t)
  then show ?case by (rule task_advance_guarantee)
next
  case (poll_reads ready rd n rb rd' s)
  with poll_read_alive [of rd F ready n rb rd'] show ?case by (simp add: task_guarantee_def)
next
  case (poll_writes ready wr buf s rn t)
  with poll_write_world(1) [of F ready wr buf s rn t] show ?case by (auto simp: task_guarantee_def)
next
  case (poll_flushes ready wr s ru t)
  with poll_write_world(2) [of F ready wr s ru t] show ?case by (auto simp: task_guarantee_def)
next
  case (poll_closes ready wr s ru t)
  with poll_write_world(3) [of F ready wr s ru t] show ?case by (auto simp: task_guarantee_def)
qed (simp_all add: task_guarantee_def)

lemma task_fits_kept:
  assumes "task_guarantee s k t k'" "task_fits s j" "\<And>r. task_uses r k \<Longrightarrow> \<not> task_uses r j"
  shows "task_fits t j"
proof -
  have "task_uses Mutex j \<longrightarrow> \<not> task_uses Mutex k" using assms(3) by blast
  with assms(1,2) show ?thesis
    by (induction j) (auto simp: task_guarantee_def)
qed

section \<open>Running to rest\<close>

fun task_waits :: "('c, 't) task \<Rightarrow> bool" where
  "task_waits (T_calling call) = True"
| "task_waits _ = False"

fun task_rests :: "('c, 't) task \<Rightarrow> bool" where
  "task_rests (T_finished result) = True"
| "task_rests (T_streaming h) = True"
| "task_rests (T_shut res) = True"
| "task_rests T_cancelled = True"
| "task_rests T_gone = True"
| "task_rests _ = False"

fun task_rank :: "('c, 't) task \<Rightarrow> nat" where
  "task_rank (T_calling call) = 11"
| "task_rank (T_locked call) = 10"
| "task_rank (T_quiet call) = 9"
| "task_rank (T_usable call) = 8"
| "task_rank (T_holding g call) = 7"
| "task_rank (T_ran g result requires_reconnect) = 6"
| "task_rank (T_answered result requires_reconnect) = 5"
| "task_rank (T_leaving e) = 1"
| "task_rank (T_dropping g) = 2"
| "task_rank (T_unwinding g) = 1"
| "task_rank (T_skipping rd offset) = 4"
| "task_rank (T_closing h) = 3"
| "task_rank (T_finalized res) = 2"
| "task_rank (T_discarding h) = 2"
| "task_rank (T_releasing res) = 1"
| "task_rank _ = 0"

lemma task_rank_settle: "task_rank (task_settle r) < 5"
  by (induction r rule: task_settle.induct) simp_all

lemma task_advance_moves:
  assumes "task_fits s k" "\<not> task_rests k" "task_waits k \<Longrightarrow> \<not> tk_locked s"
  shows "\<exists>t k'. task_advance F k s = Some (k', t) \<and> task_rank k' < task_rank k"
  using assms
proof (induction k)
  case (T_holding g call)
  then obtain c where c: "tk_stream s = Some c" by auto
  obtain r p u where "task_body F call c s = Some ((r, p), u)" using task_body_answers by blast
  with c show ?case by (simp add: run_seq guard_stream_def)
next
  case (T_answered r p)
  from task_rank_settle [of r] show ?case by (simp add: run_simps shared_code)
next
  case (T_skipping rd offset)
  then obtain inner where "rd_inner rd = Some inner" by auto
  then show ?case by (auto simp: tokio_skip_prefix_def run_seq Let_def split: prod.splits sum.splits)
next
  case (T_closing h)
  with task_finalize_run [of h F s] show ?case by (auto simp: run_seq)
next
  case (T_discarding h)
  with drop_handle_run [of h F s] show ?case by (auto simp: run_seq)
qed (clarsimp simp: run_simps tokio_lock_def drop_operation_def shared_code split: sum.splits; auto)+

text \<open>The stream a task owns.\<close>

fun task_stream_of :: "('c, 't) task \<Rightarrow> 't handle list" where
  "task_stream_of (T_streaming h) = [h]"
| "task_stream_of _ = []"

interpretation tasks: session_pool "task_step F" task_fresh task_used task_uses task_fits Mutex task_waits task_rests
    task_rank Transfer T_streaming task_stream_of alive
proof
  fix k :: "('b, 'c) task" and r and s :: "('a, 'b) tokio_ftp_fs"
  assume "task_fresh k"
  then show "\<not> task_uses r k" "task_fits s k" by (cases k; cases r; simp)+
next
  fix s t :: "('a, 'b) tokio_ftp_fs" and k k' :: "('b, 'c) task" and r
  assume "task_step F s k t k'" "task_fits s k" "\<And>r. task_uses r k \<Longrightarrow> task_used r s"
  from task_step_guarantee [OF this]
  show "of_bool (task_used r t) + of_bool (task_uses r k) = (of_bool (task_used r s) + of_bool (task_uses r k') :: nat)"
    and "task_fits t k'" by (cases r; simp add: task_guarantee_def)+
next
  fix s t :: "('a, 'b) tokio_ftp_fs" and k k' j :: "('b, 'c) task"
  assume a: "task_step F s k t k'" "task_fits s k" "task_fits s j" "\<And>r. task_uses r k \<Longrightarrow> task_used r s"
    "\<And>r. task_uses r k \<Longrightarrow> \<not> task_uses r j"
  from task_step_guarantee [OF a(1,2,4)] show "task_fits t j" by (rule task_fits_kept) (use a in auto)
next
  fix k :: "('b, 'c) task"
  assume "task_uses Mutex k"
  then show "\<not> task_waits k \<and> \<not> task_rests k" by (cases k) simp_all
next
  fix s :: "('a, 'b) tokio_ftp_fs" and k :: "('b, 'c) task"
  assume "task_fits s k" "\<not> task_rests k" "task_waits k \<Longrightarrow> \<not> task_used Mutex s"
  with task_advance_moves [of s k F] show "\<exists>t k'. task_step F s k t k' \<and> task_rank k' < task_rank k"
    by (auto intro: proceeds)
next
  fix k :: "('b, 'c) task" and r
  show "task_stream_of k \<noteq> [] \<Longrightarrow> \<exists>h. k = T_streaming h" by (cases k) simp_all
  show "task_rests k \<Longrightarrow> task_uses r k = (r = Transfer \<and> task_stream_of k \<noteq> [])" by (cases k; cases r; simp)
qed simp_all

section \<open>Pools on a session\<close>

definition task_streams :: "('c, 't) task list \<Rightarrow> 't handle list" where
  "task_streams ks = concat (map task_stream_of ks)"

lemma tasks_start:
  assumes "tokio_consistent (s, L)" "list_all task_fresh ks"
  shows "tasks.sound (s, map T_streaming L @ ks)"
proof (rule tasks.start_sound)
  have c: "consistent (blocking s, L)" "\<not> tk_locked s" using assms(1) by (simp_all add: tokio_consistent_def released_def)
  show "\<not> task_used r s" if "r \<noteq> Transfer" for r using that c by (cases r) simp_all
  show "length L = of_bool (task_used Transfer s)" "\<forall>h \<in> set L. alive h"
    using c(1) consistent_length [OF c(1)] by (auto simp: consistent_def)
qed (rule assms(2))

lemma tasks_rest:
  assumes "tasks.sound (s, ks)" "list_all task_rests ks" "mirrored s" "tk_stream s \<noteq> None"
  shows "tokio_consistent (s, task_streams ks)"
  using tasks.rest_sound(2,3) [OF assms(1,2), folded task_streams_def] tasks.rest_sound(1) [OF assms(1,2), of Mutex] assms(3,4)
  by (cases "transfer_active s"; cases "task_streams ks")
    (auto simp: tokio_consistent_def released_def consistent_def idle_def)

text \<open>What no step changes.\<close>

lemma tasks_keep_stream:
  assumes "tasks_reach F x y" "tasks.sound x"
  shows "tk_stream (fst y) = tk_stream (fst x) \<and> tk_connected (fst y) = tk_connected (fst x)"
  using assms
proof (induction rule: rtranclp_induct)
  case (step y z)
  then have y: "tasks.sound y" using tasks.reach_sound by blast
  from step(2) show ?case
  proof cases
    case (moves s k t k' ks js)
    with y have "tasks.sound (s, ks @ k # js)" by simp
    then have "task_guarantee s k t k'"
      using moves(3) by (intro task_step_guarantee) (auto intro: tasks.sound_fits tasks.sound_used)
    with step moves show ?thesis by (simp add: task_guarantee_def)
  qed (use step in auto)
qed simp

end
