(* ===== verification/Task_Calls.thy ===== *)
theory Task_Calls
  imports Task_Facts
begin

text \<open>
  The operations of the asynchronous client as the calls of a task, and the steps of a task that
  runs alone.
\<close>

section \<open>The operations as calls\<close>

lemma task_command_call:
  "replying Replied (run_command (command op)) = attempt lock_stream (\<lambda>g.
     seq guard_stream (\<lambda>c.
     seq (task_command (command op) c) (\<lambda>(result, requires_reconnect).
     seq (stream_guard_complete g) (\<lambda>_.
     seq (if requires_reconnect then tokio_mark_connection_unusable else ret ()) (\<lambda>_.
     ret result)))))"
  unfolding run_command_def task_command_def
  by (rule ext) (auto simp: replying_def run_simps shared_code split: option.splits sum.splits)

lemma task_calls:
  "replying Replied (run_command (command (\<lambda>h. lib_mkdir F h p))) = task_whole F (Guarded (MKD p))"
  "replying Replied (run_command (command (\<lambda>h. lib_rm F h p))) = task_whole F (Guarded (DELE p))"
  "replying Replied (run_command (command (\<lambda>h. lib_rmdir F h p))) = task_whole F (Guarded (RMD p))"
  "replying Replied (run_command (command (\<lambda>h. lib_rename F h p q))) = task_whole F (Guarded (RNFR p q))"
  by (simp_all only: task_command_call task_whole_def task_body.simps)

lemma task_exec:
  "tokio_exec F cmd = attempt (task_whole F (Guarded (SITE cmd))) (\<lambda>reply.
     case reply of
       Said response \<Rightarrow> ok \<lparr> eo_status = lib_status_code F (status response),
                             eo_output = from_utf8_lossy (body response) \<rparr>
     | _ \<Rightarrow> panic)"
  unfolding tokio_exec_def task_whole_def task_body.simps attempt_assoc attempt_seq
  apply (rule ext, rule attempt_cong_run, rule seq_cong_run)
  apply (simp only: seq_assoc seq_ret split_def)
  apply (rule seq_cong_run)
  by (auto simp: run_simps Let_def attempt_seq shared_code split: sum.splits option.splits)

lemma task_list_dir:
  "tokio_list_dir_raw F path remote = attempt (task_whole F (Guarded_list remote)) (\<lambda>reply.
     case reply of
       Listed bytes \<Rightarrow> (case decode_list_bytes bytes of
           Inl e \<Rightarrow> raise (ftp_error e)
         | Inr lines \<Rightarrow> expect (parse_list_lines (lib_rows F) path lines))
     | _ \<Rightarrow> panic)"
  unfolding tokio_list_dir_raw_def task_whole_def task_body.simps attempt_assoc attempt_seq
  apply (rule ext, rule attempt_cong_run, rule seq_cong_run)
  apply (simp only: seq_assoc seq_ret split_def)
  apply (rule seq_cong_run)
  by (auto simp: run_simps attempt_seq shared_code split: sum.splits option.splits)

definition task_opened ::
  "('s, 'c, 't) ftp_lib \<Rightarrow> task_call \<Rightarrow> (FtpError \<Rightarrow> (('s, 'c) tokio_ftp_fs, remote_error + 'a) act)
     \<Rightarrow> ('t handle \<times> 64 word \<Rightarrow> (('s, 'c) tokio_ftp_fs, remote_error + 'a) act) \<Rightarrow> (('s, 'c) tokio_ftp_fs, remote_error + 'a) act" where
  "task_opened F call denied begun =
     attempt (task_whole F call) (\<lambda>reply.
     case reply of Opened (Inl err) \<Rightarrow> denied err | Opened (Inr h) \<Rightarrow> begun h | _ \<Rightarrow> panic)"

lemma task_uploads:
  "tokio_create F path opts = attempt (ret (remote_path (lib_ensure F) path)) (\<lambda>remote.
     task_opened F (Guarded (STOR remote)) (\<lambda>err. seq (tokio_classify_create_refusal F path err) raise)
       (\<lambda>(h, _). case h of Writing wr \<Rightarrow> ok wr | Reading _ \<Rightarrow> panic))"
  "tokio_append F path opts = attempt (ret (remote_path (lib_ensure F) path)) (\<lambda>remote.
     task_opened F (Guarded (APPE remote)) (\<lambda>err. seq (tokio_classify_create_refusal F path err) raise)
       (\<lambda>(h, _). case h of Writing wr \<Rightarrow> ok wr | Reading _ \<Rightarrow> panic))"
  unfolding tokio_create_def tokio_append_def task_opened_def task_whole_def task_body.simps settled_now_def
    task_upload_def attempt_assoc attempt_seq
  by (rule ext, rule attempt_cong_run, rule attempt_cong_run, rule seq_cong_run,
      simp only: seq_assoc seq_ret split_def, rule seq_cong_run, rule seq_cong_run,
      auto simp: run_simps attempt_seq shared_code split: sum.splits option.splits)+

text \<open>A download under its guard is the blocking one, its errors recorded.\<close>

lemma task_download_start:
  "task_download F remote offset len c =
     seq (start_download F remote offset c) (\<lambda>r.
     seq (on_error record_remote_error r) (\<lambda>_.
     ret (map_sum id (\<lambda>result. Opened (map_sum id (\<lambda>(transfer, resumed).
       (Reading (new_read_stream transfer len), if resumed then 0 else offset)) result)) r)))"
  unfolding task_download_def start_download_def shared_code seq_attempt seq_assoc
  apply (rule ext, rule seq_cong_run)
  subgoal for s r u
  proof (cases r)
    case (Inr resumed)
    show ?thesis unfolding Inr sum.case
      by (rule seq_cong_run)
        (auto simp: retry_from_start_def run_simps split: option.splits sum.splits)
  qed (simp add: run_simps)
  done

lemma task_open:
  "tokio_open F path opts = attempt (ret (remote_path (lib_ensure F) path)) (\<lambda>remote.
     task_opened F (Guarded (RETR remote (offset_of opts) (ro_length opts)))
       (\<lambda>err. seq (tokio_classify_file_refusal F path err) raise)
       (\<lambda>(h, offset). case h of
          Reading rd \<Rightarrow> if offset > 0 then tokio_skip_locally F rd offset else ok rd
        | Writing _ \<Rightarrow> panic))"
  unfolding tokio_open_guarded guarded_def task_opened_def task_whole_def task_body.simps settled_now_def
    task_download_start attempt_assoc attempt_seq Let_def
  apply (rule ext, rule attempt_cong_run, rule attempt_cong_run, rule seq_cong_run)
  apply (simp only: seq_assoc seq_ret split_def)
  apply (rule seq_cong_run, rule seq_cong_run)
  by (auto simp: run_simps shared_code split: sum.splits option.splits)

section \<open>A task alone\<close>

fun task_drive :: "('s, 'c, 't) ftp_lib \<Rightarrow> nat \<Rightarrow> ('c, 't) task \<Rightarrow> (('s, 'c) tokio_ftp_fs, ('c, 't) task) act" where
  "task_drive F 0 k = ret k"
| "task_drive F (Suc n) k = seq (task_advance F k) (task_drive F n)"

lemma task_drive_runs: "task_drive F n k s = Some (k', t) \<Longrightarrow> runs (task_step F) s k t k'"
  by (induction n arbitrary: k s) (auto intro: runs.intros proceeds elim!: seq_SomeE)

lemma task_admitted:
  assumes "\<not> tk_locked s" "refused s = None"
  shows "runs (task_step F) s (T_calling call) (s\<lparr>tk_locked := True\<rparr>) (T_holding \<lparr> og_completed = False \<rparr> call)"
  using assms refusal_None [of "blocking s"]
  by (intro task_drive_runs [of F 4])
    (auto simp: eval_nat_numeral run_seq tokio_lock_def refused_def refusal_def split: if_splits)

lemma task_refused:
  assumes "\<not> tk_locked s" "refused s = Some e"
  shows "runs (task_step F) s (T_calling call) s (T_finished (Inl e))"
proof -
  have i: "s\<lparr>tk_locked := False\<rparr> = s" using assms(1) by (cases s) simp
  from assms(2) consider (busy) "transfer_active s" "e = busy_error"
    | (unusable) "\<not> transfer_active s" "\<not> connection_usable s" "e = unusable_error"
    | (none) "\<not> transfer_active s" "connection_usable s" "tk_stream s = None" "e = new_error KNotConnected"
    by (auto simp: refused_def refusal_def split: if_splits)
  then have "\<exists>n. task_drive F n (T_calling call) s = Some (T_finished (Inl e), s)"
  proof cases
    case busy
    with assms(1) i show ?thesis by (intro exI [of _ 3]) (simp add: eval_nat_numeral run_simps tokio_lock_def)
  next
    case unusable
    with assms(1) i show ?thesis by (intro exI [of _ 4]) (simp add: eval_nat_numeral run_simps tokio_lock_def)
  next
    case none
    with assms(1) i show ?thesis by (intro exI [of _ 5]) (simp add: eval_nat_numeral run_simps tokio_lock_def)
  qed
  then show ?thesis using task_drive_runs by blast
qed

lemma task_whole_runs:
  assumes "\<not> tk_locked s" "task_whole F call s = Some (r, t)"
  shows "runs (task_step F) s (T_calling call) t (task_settle r)"
proof (cases "refused s")
  case (Some e)
  with assms have "r = Inl e" "t = s" by (auto simp: task_whole_def run_attempt run_lock_stream)
  with task_refused [OF assms(1) Some] show ?thesis by simp
next
  case None
  then obtain c where c: "tk_stream s = Some c" using refused_None by blast
  obtain x p u where u: "task_body F call c (s\<lparr>tk_locked := True\<rparr>) = Some ((x, p), u)"
    using task_body_answers by blast
  with assms None c have "task_drive F 3 (T_holding \<lparr> og_completed = False \<rparr> call) (s\<lparr>tk_locked := True\<rparr>)
      = Some (task_settle r, t)"
    by (auto simp: task_whole_def run_attempt run_lock_stream eval_nat_numeral run_simps guard_stream_def shared_code
        split: option.splits if_splits)
  with task_admitted [OF assms(1) None] show ?thesis by (rule runs_trans [OF _ task_drive_runs])
qed

end
