(* ===== verification/Serial_Calls.thy ===== *)
theory Serial_Calls
  imports Serial Thread_Facts Task_Calls
begin

text \<open>
  The calls of both clients are serial: a call of the blocking client takes effect while it holds the
  mutex, and so does one of the asynchronous client, except for recording a loss, which comes after.
\<close>

section \<open>Threads\<close>

text \<open>The critical section of \<open>with_stream\<close>, entered in the state \<open>u\<close>.\<close>

fun critical :: "('s, 'c, 't) ftp_lib \<Rightarrow> stream_call \<Rightarrow> ('s, 'c) ftp_fs \<Rightarrow> ('s, 'c) ftp_fs \<Rightarrow> ('c, 't) strand \<Rightarrow> bool" where
  "critical F op u t (Locked call) = (call = With_stream op \<and> idle u \<and> t = u\<lparr>fs_locked := True\<rparr>)"
| "critical F op u t (Quiet call) = (call = With_stream op \<and> idle u \<and> t = u\<lparr>fs_locked := True\<rparr> \<and> \<not> transfer_active u)"
| "critical F op u t (Admitted call) = (call = With_stream op \<and> idle u \<and> t = u\<lparr>fs_locked := True\<rparr>
     \<and> \<not> transfer_active u \<and> connection_usable u)"
| "critical F op u t (Ran result) = (idle u \<and> refusal u = None \<and> fs_locked t
     \<and> (\<exists>c. fs_stream u = Some c \<and> closure F op c (u\<lparr>fs_locked := True\<rparr>) = Some (result, t)))"
| "critical F op u t (Leaving result) =
     (fs_locked t \<and> with_stream (closure F op) u = Some (result, t\<lparr>fs_locked := False\<rparr>))"
| "critical F op u t _ = False"

fun returned :: "remote_error + 't reply \<Rightarrow> ('c, 't) strand \<Rightarrow> bool" where
  "returned r (Finished result) = (result = r)"
| "returned r _ = False"

text \<open>A strand that owns a stream, has closed one, or panicked.\<close>

fun astray :: "('c, 't) strand \<Rightarrow> bool" where
  "astray (Skipping rd offset) = True"
| "astray (Streaming h) = True"
| "astray (Closing h) = True"
| "astray (Finalized result) = True"
| "astray (Releasing result) = True"
| "astray (Shut result) = True"
| "astray Unwinding = True"
| "astray (Unwinding_stream c) = True"
| "astray Unwinding_replaced = True"
| "astray Unwinding_flag = True"
| "astray Panicked = True"
| "astray _ = False"

inductive_simps calling_steps: "strand_step F s (Calling call) t k"
inductive_simps finished_steps: "strand_step F s (Finished r) t k"

lemma settle_returned: "\<not> astray (settle r) \<Longrightarrow> returned r (settle r)"
  by (induction r rule: settle.induct) (auto split: if_splits)

lemma critical_proceeds:
  assumes "critical F op u t k" "strand_step F t k t' k'" "\<not> astray k'"
  shows "critical F op u t' k' \<or> (\<exists>r. returned r k' \<and> with_stream (closure F op) u = Some (r, t') \<and> idle t')"
  using assms(2,1,3)
proof (induction rule: strand_step.induct)
  case (advances k s k' t)
  then show ?case
  proof (induction k)
    case (Locked call)
    then show ?case
      using with_stream_refused [of u busy_error "closure F op"]
      by (auto simp: run_seq refusal_def split: if_splits)
  next
    case (Quiet call)
    then show ?case
      using with_stream_refused [of u unusable_error "closure F op"]
      by (auto simp: run_seq refusal_def split: if_splits)
  next
    case (Admitted call)
    show ?case
    proof (cases "fs_stream u")
      case None
      with Admitted show ?thesis
        using with_stream_refused [of u "new_error KNotConnected" "closure F op"]
        by (auto simp: run_seq refusal_def)
    next
      case (Some c)
      obtain r v where "closure F op c s = Some (r, v)" "answers s r v" using closure_answers by blast
      with Some Admitted show ?thesis
        by (auto simp: run_seq refusal_def answers_def starts_def)
    qed
  next
    case (Ran r)
    then obtain c where c: "idle u" "refusal u = None" "fs_stream u = Some c"
      "closure F op c (u\<lparr>fs_locked := True\<rparr>) = Some (r, s)" "fs_locked s" by auto
    moreover have "fs_locked (noted r s)" using c(5) by (simp add: noted_def split: sum.splits)
    ultimately show ?case using Ran(1) with_stream_admitted [OF c(1-3), of "closure F op"]
      by (auto simp: run_seq run_noted)
  next
    case (Leaving r)
    then show ?case by (auto simp: run_seq idle_def intro: settle_returned)
  qed (simp_all add: run_seq)
qed auto

interpretation serial_threads: serial_pool "strand_step F" fresh used uses fits "\<lambda>op. Calling (With_stream op)"
    "\<lambda>op. with_stream (closure F op)" idle "critical F" returned astray "\<lambda>_. False"
proof unfold_locales
  fix t t' :: "('a, 'b) ftp_fs" and k :: "('b, 'c) strand" and op
  assume "strand_step F t (Calling (With_stream op)) t' k" "\<not> astray k"
  then show "idle t \<and> critical F op t t' k"
    by (auto simp: calling_steps run_seq lock_def idle_def split: if_splits)
next
  fix u t :: "('a, 'b) ftp_fs" and k :: "('b, 'c) strand" and op r d
  assume "critical F op u t k"
  then show "\<not> idle t \<and> \<not> returned r k \<and> k \<noteq> Calling (With_stream d)"
    by (induction k) (auto simp: idle_def)
next
  fix t t' :: "('a, 'b) ftp_fs" and k k' :: "('b, 'c) strand" and r
  assume "returned r k" "strand_step F t k t' k'"
  then show "returned r k' \<and> t' = t" by (induction k) (auto simp: finished_steps)
next
  fix k :: "('b, 'c) strand" and r op
  assume "returned r k"
  then show "\<not> astray k \<and> k \<noteq> Calling (With_stream op)" by (induction k) auto
next
  fix t t' :: "('a, 'b) ftp_fs" and k k' :: "('b, 'c) strand"
  assume "strand_step F t k t' k'" "astray k"
  then have "astray k'"
  proof (induction rule: strand_step.induct)
    case (advances k s k' t)
    then show ?case by (induction k) (auto simp: run_simps lock_def split: option.splits sum.splits prod.splits if_splits)
  qed auto
  then show "astray k' \<or> False" by simp
qed (use critical_proceeds in blast)+

section \<open>Tasks\<close>

text \<open>
  The steps of calls. A task that was handed a stream keeps it as it is: what is done with a stream is no
  part of the call that opened it.
\<close>

fun handed_out :: "('c, 't) task \<Rightarrow> bool" where
  "handed_out (T_skipping rd offset) = True"
| "handed_out (T_streaming h) = True"
| "handed_out _ = False"

definition call_step ::
  "('s, 'c, 't) ftp_lib \<Rightarrow> ('s, 'c) tokio_ftp_fs \<Rightarrow> ('c, 't) task \<Rightarrow> ('s, 'c) tokio_ftp_fs \<Rightarrow> ('c, 't) task \<Rightarrow> bool" where
  "call_step F s k t k' \<longleftrightarrow> task_step F s k t k' \<and> \<not> handed_out k"

text \<open>
  The critical section of a call of the asynchronous client. A call that left it with a loss still to
  be recorded is astray, and so is one that was cancelled.
\<close>

fun task_critical ::
  "('s, 'c, 't) ftp_lib \<Rightarrow> task_call \<Rightarrow> ('s, 'c) tokio_ftp_fs \<Rightarrow> ('s, 'c) tokio_ftp_fs \<Rightarrow> ('c, 't) task \<Rightarrow> bool" where
  "task_critical F call u t (T_locked c) = (c = call \<and> \<not> tk_locked u \<and> t = u\<lparr>tk_locked := True\<rparr>)"
| "task_critical F call u t (T_quiet c) = (c = call \<and> \<not> tk_locked u \<and> t = u\<lparr>tk_locked := True\<rparr> \<and> \<not> transfer_active u)"
| "task_critical F call u t (T_usable c) = (c = call \<and> \<not> tk_locked u \<and> t = u\<lparr>tk_locked := True\<rparr>
     \<and> \<not> transfer_active u \<and> connection_usable u)"
| "task_critical F call u t (T_holding g c) = (c = call \<and> \<not> tk_locked u \<and> t = u\<lparr>tk_locked := True\<rparr>
     \<and> refused u = None \<and> g = \<lparr> og_completed = False \<rparr>)"
| "task_critical F call u t (T_ran g result requires_reconnect) = (\<not> tk_locked u \<and> tk_locked t \<and> refused u = None
     \<and> g = \<lparr> og_completed = False \<rparr> \<and> (\<exists>c. tk_stream u = Some c
       \<and> task_body F call c (u\<lparr>tk_locked := True\<rparr>) = Some ((result, requires_reconnect), t)))"
| "task_critical F call u t (T_leaving e) =
     (tk_locked t \<and> task_whole F call u = Some (Inl e, t\<lparr>tk_locked := False\<rparr>))"
| "task_critical F call u t _ = False"

definition task_returned :: "remote_error + 't reply \<Rightarrow> ('c, 't) task \<Rightarrow> bool" where
  "task_returned r k \<longleftrightarrow> k = T_answered r False \<or> k = task_settle r"

fun task_astray :: "('c, 't) task \<Rightarrow> bool" where
  "task_astray (T_answered result requires_reconnect) = requires_reconnect"
| "task_astray (T_dropping g) = True"
| "task_astray (T_unwinding g) = True"
| "task_astray T_cancelled = True"
| "task_astray (T_closing h) = True"
| "task_astray (T_finalized result) = True"
| "task_astray (T_discarding h) = True"
| "task_astray (T_releasing result) = True"
| "task_astray (T_shut result) = True"
| "task_astray T_gone = True"
| "task_astray _ = False"

inductive_simps task_calling_steps: "task_step F s (T_calling call) t k"
inductive_simps task_answered_steps: "task_step F s (T_answered r p) t k"
inductive_simps task_finished_steps: "task_step F s (T_finished r) t k"

lemma task_settle_place: "task_settle r = T_finished r \<or> handed_out (task_settle r)"
  by (induction r rule: task_settle.induct) auto

lemma task_settle_not_answered [simp]: "task_settle r \<noteq> T_answered r' p" "T_answered r' p \<noteq> task_settle r"
  by (induction r rule: task_settle.induct) auto

lemma task_returned_place:
  "task_returned r k \<Longrightarrow> k = T_answered r False \<or> k = T_finished r \<or> handed_out k"
  using task_settle_place [of r] by (auto simp: task_returned_def)

lemma task_whole_refused: "\<not> tk_locked u \<Longrightarrow> refused u = Some e \<Longrightarrow> task_whole F call u = Some (Inl e, u)"
  by (simp add: task_whole_def run_attempt run_lock_stream)

lemma task_whole_admitted:
  assumes "\<not> tk_locked u" "refused u = None" "tk_stream u = Some c"
    and "task_body F call c (u\<lparr>tk_locked := True\<rparr>) = Some ((r, False), t)"
  shows "task_whole F call u = Some (r, t\<lparr>tk_locked := False\<rparr>)"
  using assms by (auto simp: task_whole_def run_attempt run_lock_stream run_simps guard_stream_def shared_code)

lemma task_critical_proceeds:
  assumes "task_critical F call u t k" "task_step F t k t' k'" "\<not> task_astray k'"
  shows "task_critical F call u t' k' \<or> (\<exists>r. task_returned r k' \<and> task_whole F call u = Some (r, t') \<and> \<not> tk_locked t')"
  using assms(2,1,3)
proof (induction rule: task_step.induct)
  case (proceeds k s k' t)
  have unlocked: "u\<lparr>tk_locked := False\<rparr> = u" if "\<not> tk_locked u" using that by (cases u) simp
  from proceeds show ?case
  proof (induction k)
    case (T_locked c)
    then show ?case using task_whole_refused [of u busy_error F call] unlocked
      by (auto simp: run_seq refused_def refusal_def split: if_splits)
  next
    case (T_quiet c)
    then show ?case using task_whole_refused [of u unusable_error F call] unlocked
      by (auto simp: run_seq refused_def refusal_def split: if_splits)
  next
    case (T_usable c)
    then show ?case using task_whole_refused [of u "new_error KNotConnected" F call] unlocked
      by (auto simp: run_seq refused_def refusal_def split: if_splits)
  next
    case (T_holding g c)
    then obtain h where h: "tk_stream u = Some h" using refused_None by auto
    obtain r p v where "task_body F call h s = Some ((r, p), v)" "task_answers s r p v"
      using task_body_answers by blast
    with T_holding h show ?case
      by (auto simp: run_seq guard_stream_def task_answers_def starts_def)
  next
    case (T_ran g r p)
    then show ?case using task_whole_admitted [of u _ F call r s]
      by (auto simp: run_seq run_complete task_returned_def)
  next
    case (T_leaving e)
    then show ?case by (auto simp: run_simps shared_code task_returned_def)
  qed (simp_all add: run_seq)
qed auto

interpretation serial_tasks: serial_pool "call_step F" task_fresh task_used task_uses task_fits T_calling
    "task_whole F" "\<lambda>s. \<not> tk_locked s" "task_critical F" task_returned task_astray "\<lambda>s. \<not> connection_usable s"
proof
  fix k :: "('b, 'c) task" and r and s :: "('a, 'b) tokio_ftp_fs"
  assume "task_fresh k"
  then show "\<not> task_uses r k" "task_fits s k" by (rule tasks.fresh_idle, rule tasks.fresh_fits)
next
  fix s t :: "('a, 'b) tokio_ftp_fs" and k k' :: "('b, 'c) task" and r
  assume a: "call_step F s k t k'" "task_fits s k" "\<And>r. task_uses r k \<Longrightarrow> task_used r s"
  then have "task_step F s k t k'" by (simp add: call_step_def)
  note a = this a(2,3)
  show "of_bool (task_used r t) + of_bool (task_uses r k) = (of_bool (task_used r s) + of_bool (task_uses r k') :: nat)"
    by (rule tasks.accounts [OF a])
  show "task_fits t k'" by (rule tasks.own [OF a])
next
  fix s t :: "('a, 'b) tokio_ftp_fs" and k k' j :: "('b, 'c) task"
  assume a: "call_step F s k t k'" "task_fits s k" "task_fits s j" "\<And>r. task_uses r k \<Longrightarrow> task_used r s"
    "\<And>r. task_uses r j \<Longrightarrow> task_used r s" "\<And>r. task_uses r k \<Longrightarrow> \<not> task_uses r j"
  then have "task_step F s k t k'" by (simp add: call_step_def)
  from tasks.others [OF this a(2-6)] show "task_fits t j" .
next
  fix t t' :: "('a, 'b) tokio_ftp_fs" and k :: "('b, 'c) task" and call
  assume "call_step F t (T_calling call) t' k" "\<not> task_astray k"
  then show "\<not> tk_locked t \<and> task_critical F call t t' k"
    by (auto simp: call_step_def task_calling_steps run_seq tokio_lock_def split: if_splits)
next
  fix u t t' :: "('a, 'b) tokio_ftp_fs" and k k' :: "('b, 'c) task" and call
  assume "task_critical F call u t k" "call_step F t k t' k'" "\<not> task_astray k'"
  then show "task_critical F call u t' k' \<or> (\<exists>r. task_returned r k' \<and> task_whole F call u = Some (r, t') \<and> \<not> tk_locked t')"
    unfolding call_step_def using task_critical_proceeds by blast
next
  fix u t :: "('a, 'b) tokio_ftp_fs" and k :: "('b, 'c) task" and call r d
  assume "task_critical F call u t k"
  then show "\<not> \<not> tk_locked t \<and> \<not> task_returned r k \<and> k \<noteq> T_calling d"
    using task_returned_place [of r k] by (induction k) auto
next
  fix t t' :: "('a, 'b) tokio_ftp_fs" and k k' :: "('b, 'c) task" and r
  assume a: "task_returned r k" "call_step F t k t' k'" "\<not> task_astray k'"
  from task_returned_place [OF a(1)] show "task_returned r k' \<and> t' = t"
  proof (elim disjE)
    assume "k = T_answered r False"
    with a(2) show ?thesis by (auto simp: call_step_def task_answered_steps run_simps task_returned_def)
  qed (use a(2) in \<open>auto simp: call_step_def task_finished_steps run_simps\<close>)
next
  fix k :: "('b, 'c) task" and r call
  assume "task_returned r k"
  then show "\<not> task_astray k \<and> k \<noteq> T_calling call" using task_returned_place [of r k] by (cases k) auto
next
  fix t t' :: "('a, 'b) tokio_ftp_fs" and k k' :: "('b, 'c) task"
  assume "call_step F t k t' k'" "task_astray k"
  then have "task_step F t k t' k'" "task_astray k" by (simp_all add: call_step_def)
  then show "task_astray k' \<or> \<not> connection_usable t'"
  proof (induction rule: task_step.induct)
    case (proceeds k s k' t)
    then show ?case by (induction k) (auto simp: run_simps shared_code split: option.splits sum.splits prod.splits if_splits)
  qed auto
next
  fix t t' :: "('a, 'b) tokio_ftp_fs" and k k' :: "('b, 'c) task"
  assume "call_step F t k t' k'" "task_fits t k" "\<And>r. task_uses r k \<Longrightarrow> task_used r t" "\<not> connection_usable t"
  then show "\<not> connection_usable t'" using task_step_guarantee unfolding task_guarantee_def call_step_def by blast
qed

end
