(* ===== verification/Thread_Props.thy ===== *)
theory Thread_Props
  imports Thread_Facts Sync_Demo
begin

text \<open>The properties of a blocking client that several threads share.\<close>

section \<open>Isolation\<close>

text \<open>
  C13: Threads do not step on each other. Let any number of threads call the operations, use and
  close streams, ask whether the client is connected, and panic, in any interleaving: the mutex, the
  transfer flag and the control stream are each taken exactly while one strand of one thread uses
  it. A thread that passed the checks of a gate finds the control stream in its place, the
  connection usable and no transfer alive; and once a call has returned an outcome that may have
  left replies unread, or a stream failed to close, the connection is unusable, so that no thread
  can pass the checks any more.
\<close>

theorem threads_exclude_each_other:
  assumes "consistent (s, L)" "fs_stream s \<noteq> None" "list_all fresh ks"
    and "threads_reach F (s, map Streaming L @ ks) (t, js)"
  shows "length (filter (uses r) js) = (if used r t then 1 else 0)
    \<and> (Admitted call \<in> set js \<longrightarrow> fs_locked t \<and> connection_usable t \<and> \<not> transfer_active t \<and> fs_stream t \<noteq> None)
    \<and> (\<forall>res. Finished res \<in> set js \<longrightarrow> lost res \<longrightarrow> \<not> connection_usable t)
    \<and> (\<forall>e. Shut (Inl e) \<in> set js \<longrightarrow> \<not> connection_usable t)"
proof -
  from threads.reach_sound [OF assms(4) threads_start [OF assms(1-3)]] have s: "threads.sound (t, js)" .
  show ?thesis
    using threads.sound_count [OF s, of r] admitted_alone [OF s] threads.sound_fits [OF s]
    by (force split: if_splits)
qed

definition demo_threads :: "(nat, nat) strand list" where
  "demo_threads = [Calling (With_exclusive_stream ''/''), Calling (With_stream (MKD ''/pub/new'')), Asking]"

lemma demo_consistent: "consistent (demo_client, [] :: nat handle list)" "fs_stream demo_client = Some \<lparr> ctl_handle = 0, ctl_hooked = False \<rparr>"
  by (simp_all add: consistent_def demo_client_def new_def idle_def)

theorem threads_exclude_each_other_witness:
  "\<exists>t js. threads_reach demo_lib (demo_client, demo_threads) (t, js)
     \<and> Admitted (With_exclusive_stream ''/'') \<in> set js \<and> length (filter (uses Mutex) js) = 1"
proof -
  have f: "list_all fresh demo_threads" by (simp add: demo_threads_def)
  have n: "fs_stream demo_client \<noteq> None" by (simp add: demo_consistent)
  from reach_runs [OF admitted_runs [OF demo_client_idle], where ks = "[]" and fresh = fresh]
  have r: "threads_reach demo_lib (demo_client, map Streaming [] @ demo_threads)
      (demo_client\<lparr>fs_locked := True\<rparr>, Admitted (With_exclusive_stream ''/'') # tl demo_threads)"
    by (simp add: demo_threads_def)
  from threads_exclude_each_other [OF demo_consistent(1) n f r, of Mutex] r show ?thesis by force
qed

text \<open>
  C16: The pool never blocks for good. From whatever point an interleaving has reached, the calls
  begun so far can be run to their ends, all of them, and then the mutex is free and the client
  and the streams still alive are a consistent session: the invariant of the client used from a
  single thread holds again.
\<close>

theorem threads_run_to_rest:
  assumes "consistent (s, L)" "fs_stream s \<noteq> None" "list_all fresh ks"
    and "threads_reach F (s, map Streaming L @ ks) (t, js)"
  shows "\<exists>u ls. threads_reach F (t, js) (u, ls) \<and> list_all rests ls \<and> length ls = length js
    \<and> consistent (u, streams ls) \<and> fs_stream u \<noteq> None"
proof -
  from threads.reach_sound [OF assms(4) threads_start [OF assms(1-3)]] have s: "threads.sound (t, js)" .
  from threads.drains [OF s, of F] obtain u ls where
    u: "threads_reach F (t, js) (u, ls)" "list_all rests ls" "length ls = length js" by blast
  from threads_rest [OF threads.reach_sound [OF u(1) s] u(2)] u show ?thesis by blast
qed

theorem threads_run_to_rest_witness:
  "\<exists>u ls. threads_reach demo_lib (demo_client, demo_threads) (u, ls) \<and> list_all rests ls
     \<and> length ls = length demo_threads \<and> consistent (u, streams ls)"
proof -
  have f: "list_all fresh demo_threads" by (simp add: demo_threads_def)
  have n: "fs_stream demo_client \<noteq> None" by (simp add: demo_consistent)
  from threads_run_to_rest [OF demo_consistent(1) n f rtranclp.rtrancl_refl, of demo_lib] obtain u ls where
    "threads_reach demo_lib (demo_client, map Streaming [] @ demo_threads) (u, ls)" "list_all rests ls"
    "length ls = length (map Streaming ([] :: nat handle list) @ demo_threads)" "consistent (u, streams ls)" by blast
  then show ?thesis by auto
qed

lemma outer_exclusive: "outer.framed (with_exclusive_stream (listing_closure F remote))"
  unfolding listing_closure_def by (intro frame_intros)

text \<open>Without a \<open>connect\<close> no step makes the connection usable again.\<close>

lemma usable_throughout:
  assumes "threads_reach F x y" "threads.sound x" "connection_usable (fst y)"
  shows "connection_usable (fst x)"
  using assms(1,3)
proof (induction rule: rtranclp_induct)
  case (step y z)
  from threads.reach_sound [OF step(1) assms(2)] have s: "threads.sound y" .
  from step(2,4) have "connection_usable (fst y)"
  proof cases
    case (moves u k v k' ks js)
    with s have f: "fits u k" "\<And>r. uses r k \<Longrightarrow> used r u"
      using threads.sound_fits [of u "ks @ k # js" k] threads.sound_used [of u "ks @ k # js" k] by simp_all
    from strand_step_guarantee [OF moves(3) f] step(4) moves show ?thesis
      by (simp add: guarantee_def considerate_def)
  qed simp
  with step(3) show ?case by blast
qed simp

text \<open>
  C29: What a listing shows to other threads. While one thread lists a directory it has taken the
  control stream out of the client and raised the transfer flag, with the mutex free. So another
  thread's operation does not wait for its turn: it fails as if a stream were alive, though none
  is. \<open>welcome_message\<close> finds no stream and answers that there is no banner. And \<open>is_connected\<close>, which
  reads the stream and the flag one after the other, can answer that a client is not connected though
  it is before and after, and its connection usable at every moment in between, when the listing has
  not lost it: the listing puts the stream back and lowers the flag between the two reads.
\<close>

theorem listing_misleads_other_threads:
  assumes "idle s" "refusal s = None"
    and "with_exclusive_stream (listing_closure F remote) s = Some (Inr bytes, t)" "connection_usable t"
  shows "threads_reach F (s, [Calling (With_exclusive_stream remote), Calling call])
      (t, [Finished (Inr (Listed bytes)), Finished (Inl busy_error)])
    \<and> threads_reach F (s, [Calling (With_exclusive_stream remote), Asking])
      (t, [Finished (Inr (Listed bytes)), Told False])
    \<and> threads_reach F (s, [Calling (With_exclusive_stream remote), Greeting])
      (t, [Finished (Inr (Listed bytes)), Welcomed None])
    \<and> is_connected s = Some (True, s) \<and> is_connected t = Some (True, t) \<and> fs_stream t = fs_stream s
    \<and> (\<forall>u js. threads_reach F (s, [Calling (With_exclusive_stream remote), Asking]) (u, js) \<longrightarrow>
         threads_reach F (u, js) (t, [Finished (Inr (Listed bytes)), Told False]) \<longrightarrow> connection_usable u)"
proof -
  from refusal_None [OF assms(2)] obtain c where c: "fs_stream s = Some c" "connection_usable s" by blast
  note l = listing_runs [OF assms(1,2) c(1) assms(3)]
  have i: "idle (taken s)" "refusal (taken s) = Some busy_error"
    using assms(1) by (simp_all add: taken_def idle_def refusal_def)
  note busy = refused_runs [OF i, of F call]
  have "(taken s)\<lparr>fs_locked := False\<rparr> = taken s" using i(1) by simp
  then have a: "runs (strand_step F) (taken s) Asking (taken s) Asking_flag"
    using c(2) i(1) by (intro drive_runs [of F 3]) (simp add: drive_simps run_unlocked, simp add: taken_def)
  have g: "runs (strand_step F) (taken s) Greeting (taken s) (Welcomed None)"
    by (rule welcome_runs [OF i(1)])
      (use i(1) \<open>(taken s)\<lparr>fs_locked := False\<rparr> = taken s\<close> in \<open>simp add: welcome_message_def run_with_lock, simp add: taken_def\<close>)
  have k: "keeps s t" using outer.framedD [OF outer_exclusive assms(1,3)] by blast
  then have it: "idle t \<and> \<not> transfer_active t"
    using assms(1) refusal_None [OF assms(2)] by (simp add: keeps_def starts_def idle_def)
  have ft: "fs_stream t = fs_stream s" using k by (simp add: keeps_def starts_def)
  have "consistent (s, [])" using assms(1) refusal_None [OF assms(2)] by (simp add: consistent_def)
  from threads_start [OF this, of "[Calling (With_exclusive_stream remote), Asking]"] c(1)
  have start: "threads.sound (s, [Calling (With_exclusive_stream remote), Asking])" by simp
  from it have b: "runs (strand_step F) t Asking_flag t (Told False)"
    by (intro drive_runs [of F 1]) (simp add: drive_simps)
  note first = reach_runs [where ks = "[]", OF l(1)] and last = reach_runs [where ks = "[]", OF l(2)]
  have "threads_reach F (s, [Calling (With_exclusive_stream remote), Calling call])
      (t, [Finished (Inr (Listed bytes)), Finished (Inl busy_error)])"
    using first [of fresh "[Calling call]"] reach_runs [OF busy, of fresh "[Owning c remote]" "[]"]
      last [of fresh "[Finished (Inl busy_error)]"] by simp
  moreover have "threads_reach F (s, [Calling (With_exclusive_stream remote), Asking])
      (t, [Finished (Inr (Listed bytes)), Told False])"
    using first [of fresh "[Asking]"] reach_runs [OF a, of fresh "[Owning c remote]" "[]"]
      last [of fresh "[Asking_flag]"] reach_runs [OF b, of fresh "[Finished (Inr (Listed bytes))]" "[]"] by simp
  moreover have "threads_reach F (s, [Calling (With_exclusive_stream remote), Greeting])
      (t, [Finished (Inr (Listed bytes)), Welcomed None])"
    using first [of fresh "[Greeting]"] reach_runs [OF g, of fresh "[Owning c remote]" "[]"]
      last [of fresh "[Welcomed None]"] by simp
  moreover have "connection_usable u" 
   if "threads_reach F (s, [Calling (With_exclusive_stream remote), Asking]) (u, js)"
      "threads_reach F (u, js) (t, [Finished (Inr (Listed bytes)), Told False])" for u js
    using usable_throughout [OF that(2)] threads.reach_sound [OF that(1) start] assms(4) by simp
  moreover have "is_connected s = Some (True, s)" "is_connected t = Some (True, t)"
    using run_is_connected [OF assms(1)] run_is_connected [of t] it ft c assms(4) by simp_all
  ultimately show ?thesis using ft by blast
qed

theorem listing_misleads_other_threads_witness:
  "\<exists>bytes t. threads_reach demo_lib
      (demo_client, [Calling (With_exclusive_stream ''/''), Calling (With_stream (MKD ''/pub/new''))])
      (t, [Finished (Inr (Listed bytes)), Finished (Inl busy_error)])
    \<and> threads_reach demo_lib (demo_client, [Calling (With_exclusive_stream ''/''), Asking])
      (t, [Finished (Inr (Listed bytes)), Told False])
    \<and> is_connected demo_client = Some (True, demo_client) \<and> is_connected t = Some (True, t)"
proof -
  define r where "r = the (with_exclusive_stream (listing_closure demo_lib ''/'') demo_client)"
  define bytes where "bytes = projr (fst r)"
  define t where "t = snd r"
  have w: "with_exclusive_stream (listing_closure demo_lib ''/'') demo_client = Some (Inr bytes, t)"
    unfolding bytes_def t_def r_def demo_client_def by code_simp
  have "connection_usable t" unfolding t_def r_def demo_client_def by code_simp
  from listing_misleads_other_threads [OF demo_client_idle w this, of "With_stream (MKD ''/pub/new'')"]
  show ?thesis by blast
qed

end
