(* ===== verification/Task_Props.thy ===== *)
theory Task_Props
  imports Task_Calls Tokio_Props Thread_Props
begin

text \<open>The properties of an asynchronous client that several tasks share, and of cancellation.\<close>

section \<open>Isolation\<close>

text \<open>
  C12: Tasks exclude each other. Let any number of tasks call the operations, use and give up
  streams and be cancelled wherever they wait, in any interleaving: the mutex and the transfer flag
  are each taken exactly while one task uses them, and a task that runs a command holds the mutex,
  finds the control stream in its place and no transfer alive. Once a task was cancelled inside a
  call that it had been admitted to, and has unwound, or a call has returned an outcome that may have
  left replies unread, or a \<open>finish\<close> has answered with an error, the connection is unusable. (A call
  dropped before it took the mutex has done nothing; a cancelled \<open>finish\<close> is no such case.)
\<close>

theorem tasks_exclude_each_other:
  assumes "tokio_consistent (s, L)" "list_all task_fresh ks"
    and "tasks_reach F (s, map T_streaming L @ ks) (t, js)"
  shows "length (filter (task_uses r) js) = (if task_used r t then 1 else 0)
    \<and> (T_holding g call \<in> set js \<longrightarrow> tk_locked t \<and> \<not> transfer_active t \<and> tk_stream t \<noteq> None)
    \<and> (\<forall>res. T_finished res \<in> set js \<longrightarrow> lost res \<longrightarrow> \<not> connection_usable t)
    \<and> (\<forall>e. T_shut (Some (Inl e)) \<in> set js \<longrightarrow> \<not> connection_usable t)
    \<and> (T_cancelled \<in> set js \<longrightarrow> \<not> connection_usable t)"
proof -
  from tasks.reach_sound [OF assms(3) tasks_start [OF assms(1,2)]] have s: "tasks.sound (t, js)" .
  have "tk_locked t" if "T_holding g call \<in> set js"
    using tasks.sound_used [OF s that, of Mutex] by simp
  with tasks.sound_count [OF s, of r] tasks.sound_fits [OF s] show ?thesis by (force split: if_splits)
qed

definition demo_tasks :: "(nat, nat) task list" where
  "demo_tasks = [T_calling (Guarded (DELE ''/pub/a.txt'')), T_calling (Guarded_list ''/'')]"

lemma demo_tokio_consistent: "tokio_consistent (demo_tokio, [] :: nat handle list)"
  using demo_tokio_released(1) by (simp add: tokio_consistent_def demo_tokio_blocking demo_consistent)

theorem tasks_exclude_each_other_witness:
  "\<exists>t js. tasks_reach demo_lib (demo_tokio, demo_tasks) (t, js)
     \<and> tk_locked t \<and> length (filter (task_uses Mutex) js) = 1"
proof -
  have l: "\<not> tk_locked demo_tokio" using demo_tokio_released(1) by (simp add: released_def)
  have f: "list_all task_fresh demo_tasks" by (simp add: demo_tasks_def)
  from reach_runs [OF task_admitted [OF l demo_tokio_released(2)], where ks = "[]" and fresh = task_fresh]
  have r: "tasks_reach demo_lib (demo_tokio, map T_streaming [] @ demo_tasks)
      (demo_tokio\<lparr>tk_locked := True\<rparr>, T_holding \<lparr> og_completed = False \<rparr> (Guarded (DELE ''/pub/a.txt'')) # tl demo_tasks)"
    by (simp add: demo_tasks_def)
  from tasks_exclude_each_other [OF demo_tokio_consistent f r, of Mutex] r show ?thesis by force
qed

text \<open>
  C32: However a pool of tasks was interleaved and cancelled so far, all its calls can be run to
  their ends, and then the mutex is free and the client and the streams still alive are a
  consistent session.
\<close>

theorem tasks_run_to_rest:
  assumes "tokio_consistent (s, L)" "tk_stream s \<noteq> None" "list_all task_fresh ks"
    and "tasks_reach F (s, map T_streaming L @ ks) (t, js)"
  shows "\<exists>u ls. tasks_reach F (t, js) (u, ls) \<and> list_all task_rests ls \<and> length ls = length js
    \<and> tokio_consistent (u, task_streams ls) \<and> tk_stream u = tk_stream s"
proof -
  have i: "tasks.sound (s, map T_streaming L @ ks)" by (rule tasks_start [OF assms(1,3)])
  from tasks.reach_sound [OF assms(4) i] have s: "tasks.sound (t, js)" .
  from tasks.drains [OF s, of F] obtain u ls where
    u: "tasks_reach F (t, js) (u, ls)" "list_all task_rests ls" "length ls = length js" by blast
  have k: "tk_stream u = tk_stream s" "tk_connected u = tk_connected s"
    using tasks_keep_stream [OF assms(4) i] tasks_keep_stream [OF u(1) s] by simp_all
  with assms(1) have "mirrored u" by (simp add: tokio_consistent_def released_def mirrored_def)
  with tasks_rest [OF tasks.reach_sound [OF u(1) s] u(2)] k assms(2) u show ?thesis by auto
qed

theorem tasks_run_to_rest_witness:
  "\<exists>u ls. tasks_reach demo_lib (demo_tokio, demo_tasks) (u, ls) \<and> list_all task_rests ls
     \<and> tokio_consistent (u, task_streams ls)"
proof -
  have f: "list_all task_fresh demo_tasks" by (simp add: demo_tasks_def)
  have n: "tk_stream demo_tokio \<noteq> None" by (simp add: demo_tokio_def)
  from tasks_run_to_rest [OF demo_tokio_consistent n f rtranclp.rtrancl_refl, of demo_lib] obtain u ls where
    "tasks_reach demo_lib (demo_tokio, map T_streaming [] @ demo_tasks) (u, ls)" "list_all task_rests ls"
    "tokio_consistent (u, task_streams ls)" by blast
  then show ?thesis by auto
qed

section \<open>Losing step with the server\<close>

text \<open>A call on a free client, from the mutex to its completed guard, and to its cancellation.\<close>

lemma task_answers_alone:
  assumes "\<not> tk_locked s" "refused s = None" "tk_stream s = Some c"
    and "task_body F call c (s\<lparr>tk_locked := True\<rparr>) = Some ((r, p), s\<lparr>tk_locked := True, world := w\<rparr>)"
  shows "runs (task_step F) s (T_calling call) (s\<lparr>world := w\<rparr>) (T_answered r p)"
proof -
  have "s\<lparr>tk_locked := True, world := w, tk_locked := False\<rparr> = s\<lparr>world := w\<rparr>" using assms(1) by (cases s) simp
  with assms(3,4) have "task_drive F 2 (T_holding \<lparr> og_completed = False \<rparr> call) (s\<lparr>tk_locked := True\<rparr>)
      = Some (T_answered r p, s\<lparr>world := w\<rparr>)"
    by (simp add: eval_nat_numeral run_simps guard_stream_def)
  with task_admitted [OF assms(1,2)] show ?thesis by (rule runs_trans [OF _ task_drive_runs])
qed

lemma task_cancelled_alone:
  assumes "\<not> tk_locked s" "refused s = None"
  shows "runs (task_step F) s (T_calling call) (s\<lparr>world := sent (world s)\<rparr>) (T_unwinding \<lparr> og_completed = False \<rparr>)"
proof -
  let ?g = "\<lparr> og_completed = False \<rparr>"
  have u: "s\<lparr>tk_locked := True, world := sent (world s), tk_locked := False\<rparr> = s\<lparr>world := sent (world s)\<rparr>"
    using assms(1) by (cases s) simp
  have "task_step F (s\<lparr>tk_locked := True\<rparr>) (T_holding ?g call)
      (s\<lparr>tk_locked := True, world := sent (world s)\<rparr>) (T_dropping ?g)"
    using cancels_command [of F "s\<lparr>tk_locked := True\<rparr>" ?g call sent] by simp
  moreover have "task_step F (s\<lparr>tk_locked := True, world := sent (world s)\<rparr>) (T_dropping ?g)
      (s\<lparr>world := sent (world s)\<rparr>) (T_unwinding ?g)"
    using proceeds [of F "T_dropping ?g" "s\<lparr>tk_locked := True, world := sent (world s)\<rparr>"] u
    by (simp add: run_simps)
  ultimately show ?thesis using task_admitted [OF assms, of F call] by (blast intro: runs_trans runs_step)
qed

lemma refused_world: "refused (s\<lparr>world := w\<rparr>) = refused s"
  by (simp add: refused_def refusal_def)

text \<open>
  C27: A lost connection is used once more. The mutex is released before the loss is recorded: a
  task whose command failed with an error that calls for a reconnect has completed its guard, and
  one that was cancelled has dropped it, with the mutex free and the connection not yet marked. A
  task that waits is admitted then, and its whole command runs on the connection that is out of
  step.
\<close>

theorem command_runs_before_loss_is_recorded:
  assumes "released s" "refused s = None" "tk_stream s = Some c"
    and "task_body F first c (s\<lparr>tk_locked := True\<rparr>) = Some ((r, True), s\<lparr>tk_locked := True, world := w\<rparr>)"
    and "task_body F second c (s\<lparr>world := w, tk_locked := True\<rparr>)
      = Some ((r', p'), s\<lparr>world := w, tk_locked := True, world := w'\<rparr>)"
    and "sent (world s) = w"
  shows "tasks_reach F (s, [T_calling first, T_calling second]) (s\<lparr>world := w'\<rparr>, [T_answered r True, T_answered r' p'])
    \<and> tasks_reach F (s, [T_calling first, T_calling second])
        (s\<lparr>world := w'\<rparr>, [T_unwinding \<lparr> og_completed = False \<rparr>, T_answered r' p'])
    \<and> connection_usable s"
proof -
  have l: "\<not> tk_locked s" using assms(1) by (simp add: released_def)
  have second: "runs (task_step F) (s\<lparr>world := w\<rparr>) (T_calling second) (s\<lparr>world := w'\<rparr>) (T_answered r' p')"
    using task_answers_alone [of "s\<lparr>world := w\<rparr>" c F second r' p' w'] l assms(2,3,5) refused_world [of w s] by simp
  note first = task_answers_alone [OF l assms(2-4)] task_cancelled_alone [OF l assms(2), of F first sent]
  note lift = reach_runs [where fresh = task_fresh]
  have u: "connection_usable s" using assms(2) by (auto simp: refused_def refusal_def split: if_splits)
  have "tasks_reach F (s, [T_calling first, T_calling second]) (s\<lparr>world := w\<rparr>, [k, T_calling second])
      \<Longrightarrow> tasks_reach F (s, [T_calling first, T_calling second]) (s\<lparr>world := w'\<rparr>, [k, T_answered r' p'])" for k
    using lift [OF second, of "[k]" "[]"] by (simp add: rtranclp_trans)
  with lift [OF first(1), of "[]" "[T_calling second]"] lift [OF first(2), of "[]" "[T_calling second]"] assms(6) u
  show ?thesis by simp
qed

definition lossy_lib :: "(string list, nat, nat) ftp_lib" where
  "lossy_lib = demo_lib\<lparr>lib_rm := (\<lambda>c p w. (Inl BadResponse, ''DELE'' # w))\<rparr>"

theorem command_runs_before_loss_is_recorded_witness:
  "tasks_reach lossy_lib
     (demo_tokio, [T_calling (Guarded (DELE ''/pub/a.txt'')), T_calling (Guarded (MKD ''/pub/new''))])
     (demo_tokio\<lparr>world := [''MKD /pub/new'', ''DELE'']\<rparr>,
      [T_answered (Inr (Replied (Inl BadResponse))) True, T_answered (Inr (Replied (Inr ()))) False])"
proof -
  have c: "tk_stream demo_tokio = Some \<lparr> ctl_handle = 0, ctl_hooked = False \<rparr>" by (simp add: demo_tokio_def)
  have a: "task_body lossy_lib (Guarded (DELE ''/pub/a.txt'')) \<lparr> ctl_handle = 0, ctl_hooked = False \<rparr> (demo_tokio\<lparr>tk_locked := True\<rparr>)
      = Some ((Inr (Replied (Inl BadResponse)), True), demo_tokio\<lparr>tk_locked := True, world := [''DELE'']\<rparr>)"
    by (simp add: lossy_lib_def task_command_def command_def run_simps demo_tokio_def tokio_new_def)
  have b: "task_body lossy_lib (Guarded (MKD ''/pub/new'')) \<lparr> ctl_handle = 0, ctl_hooked = False \<rparr>
        (demo_tokio\<lparr>world := [''DELE''], tk_locked := True\<rparr>)
      = Some ((Inr (Replied (Inr ())), False),
          demo_tokio\<lparr>world := [''DELE''], tk_locked := True, world := [''MKD /pub/new'', ''DELE'']\<rparr>)"
    by (simp add: lossy_lib_def demo_lib_def demo_cmd_def task_command_def command_def run_simps demo_tokio_def tokio_new_def)
  have "''DELE'' # world demo_tokio = [''DELE'']" by (simp add: demo_tokio_def tokio_new_def)
  from command_runs_before_loss_is_recorded [OF demo_tokio_released c a b, of "\<lambda>w. ''DELE'' # w", OF this]
  show ?thesis by blast
qed

text \<open>
  C28: A cancelled \<open>finish\<close> leaves its replies to the next command. Dropping a download that has not
  seen its end makes the connection unusable, because the server may still send more than the one
  reply that the next command would drain. \<open>finish\<close> has already taken the transfer when it waits,
  so dropping its future releases the transfer flag and leaves the connection usable: the next
  operation is admitted.
\<close>

theorem cancelled_finish_keeps_the_connection:
  assumes "tokio_consistent (s, [Reading rd])" "connection_usable s" "\<not> rd_at_eof rd"
  shows "\<exists>t u. tokio_cancelled_finish F sent rd s = Some ((), t) \<and> tokio_drop_read_stream F rd s = Some ((), u)
    \<and> world t = sent (world s) \<and> \<not> transfer_active t \<and> connection_usable t \<and> refused t = None
    \<and> \<not> transfer_active u \<and> refused u = Some unusable_error"
proof -
  from assms(1) obtain inner c where i: "rd_inner rd = Some inner" "tk_stream s = Some c"
    by (auto simp: tokio_consistent_def consistent_def)
  have "tokio_cancelled_finish F sent rd s = Some ((), s\<lparr>world := sent (world s), transfer_active := False\<rparr>)"
    using i by (simp add: tokio_cancelled_finish_def tokio_drop_read_stream_def run_simps)
  moreover from tokio_drop_read_run [OF i(1), of F s] assms(3) obtain u where
    "tokio_drop_read_stream F rd s = Some ((), u)" "\<not> transfer_active u" "\<not> connection_usable u" by auto
  ultimately show ?thesis using assms(2) i(2) by (auto simp: refused_def refusal_def)
qed

theorem cancelled_finish_keeps_the_connection_witness:
  "\<exists>t. tokio_cancelled_finish demo_lib (\<lambda>w. ''abort'' # w)
       (tokio_new_read_stream \<lparr> tr_handle = 0, tr_events = [Chunk ''ab''] \<rparr> None)
       (demo_tokio\<lparr>transfer_active := True\<rparr>) = Some ((), t) \<and> refused t = None"
proof -
  let ?rd = "tokio_new_read_stream \<lparr> tr_handle = 0 :: nat, tr_events = [Chunk ''ab''] \<rparr> None"
  have "tokio_consistent (demo_tokio\<lparr>transfer_active := True\<rparr>, [Reading ?rd])"
    using demo_tokio_released(1)
    by (simp add: tokio_consistent_def released_def mirrored_def consistent_def demo_tokio_def tokio_new_def
        blocking_def idle_def tokio_new_read_stream_def)
  from cancelled_finish_keeps_the_connection [OF this, of demo_lib "\<lambda>w. ''abort'' # w"] show ?thesis
    by (auto simp: demo_tokio_def tokio_new_def tokio_new_read_stream_def)
qed

text \<open>
  C35: Connecting and disconnecting can be cancelled. What a dropped future of either leaves is a
  client without a stream that reports itself disconnected, has no flag raised, and connects as a
  fresh client does; unless the call was refused, and then it is the client it was.
\<close>

theorem cancelled_connecting_leaves_no_half_state:
  fixes F :: "('s, 'c, 't) ftp_lib" and L :: "'t handle list"
  assumes "tokio_consistent (s, L)"
    and "tokio_cancelled_connect F sent s = Some (Inr (), t) \<or> tokio_cancelled_disconnect F sent s = Some (Inr (), t)"
  shows "tokio_consistent (t, L) \<and> L = [] \<and> \<not> transfer_active t \<and> connection_usable t \<and> tk_stream t = None
    \<and> \<not> tokio_is_connected t
    \<and> tokio_connect F t = (case tokio_open_control F t of
        None \<Rightarrow> None
      | Some (Inl e, u) \<Rightarrow> Some (Inl e, u)
      | Some (Inr c, u) \<Rightarrow> Some (Inr (),
          u\<lparr>tk_welcome := lib_welcome F (ctl_handle c) (world u), tk_stream := Some c, tk_connected := True\<rparr>))"
proof -
  have t: "\<not> transfer_active t \<and> connection_usable t \<and> tk_stream t = None \<and> \<not> transfer_active s"
    using assms(2)
    by (cases "tk_stream s"; cases "connection_usable s")
      (auto simp: cancelled_connect_run cancelled_disconnect_run tokio_cleared_def split: if_splits)
  have c: "tokio_consistent (t, L)"
    using assms tk_cancel_connect [of F sent s "Inr ()" t L] tk_cancel_disconnect [of F sent s "Inr ()" t L]
    by (blast intro: tokio_step_consistent)
  then have "L = []" "\<not> tk_connected t" using t by (auto simp: tokio_consistent_def consistent_def released_def mirrored_def)
  moreover have "tokio_cleared F t = t" using t by (simp add: tokio_cleared_def)
  ultimately show ?thesis using t c tokio_connect_run [of t F] by (simp add: tokio_is_connected_def)
qed

theorem cancelled_connecting_leaves_no_half_state_witness:
  "\<exists>t. tokio_cancelled_disconnect demo_lib (\<lambda>w. ''QUIT'' # w) demo_tokio = Some (Inr (), t)
     \<and> tk_stream t = None \<and> \<not> tokio_is_connected t"
proof -
  define t where "t = snd (the (tokio_cancelled_disconnect demo_lib (\<lambda>w. ''QUIT'' # w) demo_tokio))"
  have "tokio_cancelled_disconnect demo_lib (\<lambda>w. ''QUIT'' # w) demo_tokio = Some (Inr (), t)"
    by (simp add: t_def cancelled_disconnect_run demo_tokio_def tokio_new_def)
  with cancelled_connecting_leaves_no_half_state [OF demo_tokio_consistent, of demo_lib "\<lambda>w. ''QUIT'' # w" t]
  show ?thesis by blast
qed

end
