(* ===== verification/Serial_Props.thy ===== *)
theory Serial_Props
  imports Serial_Calls Thread_Props Task_Props
begin

text \<open>
  The properties of shared clients whose calls take effect one at a time, and of what a panic of one
  thread leaves to the others.
\<close>

section \<open>Linearizability\<close>

lemma not_False: "\<not> False"
  by simp

lemma results_at:
  assumes "list_all2 (\<lambda>r i. (f r) (ks ! i)) rs' xs" "\<And>r i. i \<in> set xs \<Longrightarrow> f r (ks ! i) \<Longrightarrow> g i = h r"
  shows "map h rs' = map g xs"
  using assms by (induction rule: list_all2_induct) auto

lemma indices_below: "mset xs = mset [0..<n] \<Longrightarrow> i \<in> set xs \<Longrightarrow> i < n"
  using mset_eq_setD by fastforce

text \<open>
  C14: The blocking client is linearizable for what goes through \<open>with_stream\<close>. Let threads call
  commands and openings of transfers in any interleaving, until all have returned, no stream being
  handed out. Then there is an order in which the same calls, made one after the other by a single
  thread, give each caller the same result and leave the client and the server in the same state. The
  order respects time: at any moment of the history, what had returned comes before what had not begun.
\<close>

theorem concurrent_calls_are_linearizable:
  fixes F :: "('s, 'c, 't) ftp_lib"
  assumes "consistent (s, [] :: 't handle list)" "fs_stream s \<noteq> None"
    and "pool_runs (strand_step F) (s, map (\<lambda>op. Calling (With_stream op)) ops) (m, ms)"
    and "pool_runs (strand_step F) (m, ms) (t, map Finished rs)"
  shows "\<exists>xs ys. mset (xs @ ys) = mset [0..<length ops]
    \<and> replay (\<lambda>op. with_stream (closure F op)) (map ((!) ops) (xs @ ys)) s = Some (map ((!) rs) (xs @ ys), t)
    \<and> (\<forall>i < length ops. (\<forall>r. ms ! i = Finished r \<longrightarrow> i \<in> set xs)
        \<and> (ms ! i = Calling (With_stream (ops ! i)) \<longrightarrow> i \<in> set ys))"
proof -
  have l: "length rs = length ops" using pool_runs_length [OF assms(3)] pool_runs_length [OF assms(4)] by simp
  note s = threads_start [OF assms(1,2), of "map (\<lambda>op. Calling (With_stream op)) ops", unfolded list_all_iff, simplified]
  have i: "idle s" using assms(1) by (simp add: consistent_def)
  have e: "\<forall>k \<in> set (map Finished rs). \<exists>r. returned r k" by auto
  from serial_threads.linearizes [OF s i assms(3,4) e not_False] obtain xs ys rs' where
    p: "mset (xs @ ys) = mset [0..<length ops]"
    and r: "replay (\<lambda>op. with_stream (closure F op)) (map ((!) ops) (xs @ ys)) s = Some (rs', t)"
      "list_all2 (\<lambda>r i. returned r ((map Finished rs :: ('c, 't) strand list) ! i)) rs' (xs @ ys)"
    and o: "\<forall>i < length ops. (\<forall>r. returned r (ms ! i) \<longrightarrow> i \<in> set xs)
      \<and> (ms ! i = Calling (With_stream (ops ! i)) \<longrightarrow> i \<in> set ys)"
    by blast
  have "map id rs' = map ((!) rs) (xs @ ys)"
    by (rule results_at [OF r(2)]) (use indices_below [OF p] l in auto)
  then have "rs' = map ((!) rs) (xs @ ys)" by simp
  with p r(1) o show ?thesis by (metis returned.simps(1))
qed

lemma second_first:
  assumes "mset (xs @ ys) = mset [0..<length [a, b]]" "1 \<in> set xs" "0 \<in> set ys"
  shows "xs = [1] \<and> ys = [0 :: nat]"
proof -
  have "length (xs @ ys) = 2" using mset_eq_length [OF assms(1)] by simp
  moreover have "xs \<noteq> []" "ys \<noteq> []" using assms(2,3) by auto
  ultimately have "length xs = 1" "length ys = 1" by (cases xs; cases ys; simp)+
  with assms(2,3) show ?thesis by (auto simp: length_Suc_conv)
qed

theorem concurrent_calls_are_linearizable_witness:
  "\<exists>t. replay (\<lambda>op. with_stream (closure demo_lib op)) [DELE ''/pub/a.txt'', MKD ''/pub/new''] demo_client
     = Some ([Inr (Replied (Inr ())), Inr (Replied (Inr ()))], t)"
proof -
  let ?dele = "DELE ''/pub/a.txt''" and ?mkd = "MKD ''/pub/new''"
  define m where "m = snd (the (with_stream (closure demo_lib ?dele) demo_client))"
  define t where "t = snd (the (with_stream (closure demo_lib ?mkd) m))"
  have a: "with_stream (closure demo_lib ?dele) demo_client = Some (Inr (Replied (Inr ())), m)"
    unfolding m_def demo_client_def by code_simp
  have b: "with_stream (closure demo_lib ?mkd) m = Some (Inr (Replied (Inr ())), t)"
    unfolding t_def m_def demo_client_def by code_simp
  have i: "idle m" unfolding m_def demo_client_def by code_simp
  have n: "fs_stream demo_client \<noteq> None" by (simp add: demo_consistent)
  have first: "pool_runs (strand_step demo_lib) (demo_client, map (\<lambda>op. Calling (With_stream op)) [?mkd, ?dele])
      (m, [Calling (With_stream ?mkd), Finished (Inr (Replied (Inr ())))])"
    using reach_runs [OF with_stream_runs [OF demo_client_idle(1) a], of _ "[Calling (With_stream ?mkd)]" "[]"] by simp
  have last: "pool_runs (strand_step demo_lib) (m, [Calling (With_stream ?mkd), Finished (Inr (Replied (Inr ())))])
      (t, map Finished [Inr (Replied (Inr ())), Inr (Replied (Inr ()))])"
    using reach_runs [OF with_stream_runs [OF i b], of _ "[]" "[Finished (Inr (Replied (Inr ())))]"] by simp
  from concurrent_calls_are_linearizable [OF demo_consistent(1) n first last] obtain xs ys where
    xs: "mset (xs @ ys) = mset [0..<length [?mkd, ?dele]]" "1 \<in> set xs" "0 \<in> set ys"
    and rp: "replay (\<lambda>op. with_stream (closure demo_lib op)) (map ((!) [?mkd, ?dele]) (xs @ ys)) demo_client
      = Some (map ((!) [Inr (Replied (Inr ())), Inr (Replied (Inr ()))]) (xs @ ys), t)" by auto
  from second_first [OF xs] rp show ?thesis by auto
qed

text \<open>A call on a free client, as steps of a call.\<close>

fun calls_drive :: "('s, 'c, 't) ftp_lib \<Rightarrow> nat \<Rightarrow> ('c, 't) task \<Rightarrow> (('s, 'c) tokio_ftp_fs, ('c, 't) task) act" where
  "calls_drive F 0 k = ret k"
| "calls_drive F (Suc n) k = (if handed_out k then panic else seq (task_advance F k) (calls_drive F n))"

lemma call_step_advance: "task_advance F k s = Some (k', t) \<Longrightarrow> \<not> handed_out k \<Longrightarrow> call_step F s k t k'"
  by (simp add: call_step_def proceeds)

lemma calls_drive_runs: "calls_drive F n k s = Some (k', t) \<Longrightarrow> runs (call_step F) s k t k'"
  by (induction n arbitrary: k s)
    (auto intro: runs.intros call_step_advance elim!: seq_SomeE split: if_splits)

lemma admitted_call_runs:
  assumes "\<not> tk_locked s" "refused s = None" "task_whole F call s = Some (r, t)"
  shows "runs (call_step F) s (T_calling call) t (task_settle r)"
proof -
  obtain c where c: "tk_stream s = Some c" using refused_None [OF assms(2)] by blast
  obtain x p u where u: "task_body F call c (s\<lparr>tk_locked := True\<rparr>) = Some ((x, p), u)"
    using task_body_answers by blast
  have "calls_drive F 4 (T_calling call) s = Some (T_holding \<lparr> og_completed = False \<rparr> call, s\<lparr>tk_locked := True\<rparr>)"
    using assms(1,2) c by (auto simp: eval_nat_numeral run_seq tokio_lock_def refused_def refusal_def split: if_splits)
  moreover have "calls_drive F 3 (T_holding \<lparr> og_completed = False \<rparr> call) (s\<lparr>tk_locked := True\<rparr>) = Some (task_settle r, t)"
    using assms c u
    by (auto simp: task_whole_def run_attempt run_lock_stream eval_nat_numeral run_simps guard_stream_def shared_code
        split: option.splits if_splits)
  ultimately show ?thesis by (blast intro: runs_trans calls_drive_runs)
qed

text \<open>
  C15: The asynchronous client is linearizable as long as the connection is usable: commands, \<open>SITE\<close>,
  openings and whole listings of any number of tasks, none of them cancelled, are equal to the same
  calls of a single task in an order that respects time. An opening that succeeded holds its stream at
  the end, unused, and every call that came after it was refused. (Without a usable connection at the
  end this fails, since a loss is recorded after the mutex is free.)
\<close>

theorem concurrent_tasks_are_linearizable:
  fixes F :: "('s, 'c, 't) ftp_lib"
  assumes "tokio_consistent (s, [] :: 't handle list)" "connection_usable t"
    and "pool_runs (call_step F) (s, map T_calling calls) (m, ms)"
    and "pool_runs (call_step F) (m, ms) (t, map task_settle rs)"
  shows "\<exists>xs ys rs'. mset (xs @ ys) = mset [0..<length calls]
    \<and> replay (task_whole F) (map ((!) calls) (xs @ ys)) s = Some (rs', t)
    \<and> map task_settle rs' = map (\<lambda>i. task_settle (rs ! i) :: ('c, 't) task) (xs @ ys)
    \<and> (\<forall>i < length calls. (\<forall>r. ms ! i = task_settle r \<longrightarrow> i \<in> set xs)
        \<and> (ms ! i = T_calling (calls ! i) \<longrightarrow> i \<in> set ys))"
proof -
  let ?ks = "map task_settle rs :: ('c, 't) task list"
  have l: "length rs = length calls" using pool_runs_length [OF assms(3)] pool_runs_length [OF assms(4)] by simp
  have s: "serial_tasks.sound (s, map T_calling calls)"
    using tasks_start [OF assms(1), of "map T_calling calls"] by (simp add: tasks.sound_def serial_tasks.sound_def list_all_iff)
  have i: "\<not> tk_locked s" using assms(1) by (simp add: tokio_consistent_def released_def)
  have e: "\<forall>k \<in> set ?ks. \<exists>r. task_returned r k" by (auto simp: task_returned_def)
  from assms(2) have u: "\<not> \<not> connection_usable t" by simp
  from serial_tasks.linearizes [OF s i assms(3,4) e u] obtain xs ys rs' where
    p: "mset (xs @ ys) = mset [0..<length calls]"
    and r: "replay (task_whole F) (map ((!) calls) (xs @ ys)) s = Some (rs', t)"
      "list_all2 (\<lambda>r i. task_returned r (?ks ! i)) rs' (xs @ ys)"
    and o: "\<forall>i < length calls. (\<forall>r. task_returned r (ms ! i) \<longrightarrow> i \<in> set xs)
      \<and> (ms ! i = T_calling (calls ! i) \<longrightarrow> i \<in> set ys)"
    by blast
  have "task_settle (rs ! i) = (task_settle r :: ('c, 't) task)" if "i \<in> set (xs @ ys)" "task_returned r (?ks ! i)" for i r
    using that(2) indices_below [OF p that(1)] l task_settle_place [of "rs ! i"] by (auto simp: task_returned_def)
  from results_at [OF r(2) this] have "map task_settle rs' = map (\<lambda>i. task_settle (rs ! i) :: ('c, 't) task) (xs @ ys)" .
  with p r(1) o show ?thesis unfolding task_returned_def by blast
qed

theorem concurrent_tasks_are_linearizable_witness:
  "\<exists>t rd. replay (task_whole demo_lib) [Guarded (MKD ''/pub/new''), Guarded (RETR ''/pub/a.txt'' 0 None)] demo_tokio
     = Some ([Inr (Replied (Inr ())), Inr (Opened (Inr (Reading rd, 0)))], t)"
proof -
  let ?mkd = "Guarded (MKD ''/pub/new'')" and ?retr = "Guarded (RETR ''/pub/a.txt'' 0 None)"
  define x where "x = the (task_whole demo_lib ?mkd demo_tokio)"
  define m where "m = snd x"
  define y where "y = the (task_whole demo_lib ?retr m)"
  define rd where "rd = (case projr (fst y) of Opened (Inr (Reading rd, _)) \<Rightarrow> rd | _ \<Rightarrow> undefined)"
  define t where "t = snd y"
  have a: "task_whole demo_lib ?mkd demo_tokio = Some (Inr (Replied (Inr ())), m)"
    unfolding m_def x_def demo_tokio_def by code_simp
  have b: "task_whole demo_lib ?retr m = Some (Inr (Opened (Inr (Reading rd, 0))), t)"
    unfolding rd_def t_def y_def m_def x_def demo_tokio_def by code_simp
  have i: "\<not> tk_locked demo_tokio" "\<not> tk_locked m" "connection_usable t" "refused demo_tokio = None" "refused m = None"
    unfolding t_def y_def m_def x_def demo_tokio_def by code_simp+
  let ?ms = "[T_calling ?retr, T_finished (Inr (Replied (Inr ())))] :: (nat, nat) task list"
  let ?rs = "[Inr (Opened (Inr (Reading rd, 0))), Inr (Replied (Inr ()))]"
  have first: "pool_runs (call_step demo_lib) (demo_tokio, map T_calling [?retr, ?mkd])
      (m, ?ms)"
    using reach_runs [OF admitted_call_runs [OF i(1,4) a], of _ "[T_calling ?retr]" "[]"] by simp
  have last: "pool_runs (call_step demo_lib) (m, ?ms)
      (t, map task_settle ?rs)"
    using reach_runs [OF admitted_call_runs [OF i(2,5) b], of _ "[]" "[T_finished (Inr (Replied (Inr ())))]"] by simp
  from concurrent_tasks_are_linearizable [OF demo_tokio_consistent i(3) first last] obtain xs ys rs' where
    p: "mset (xs @ ys) = mset [0..<length [?retr, ?mkd]]"
    and rp: "replay (task_whole demo_lib) (map ((!) [?retr, ?mkd]) (xs @ ys)) demo_tokio = Some (rs', t)"
    and o: "\<forall>i < length [?retr, ?mkd].
        (\<forall>r. ?ms ! i = task_settle r \<longrightarrow> i \<in> set xs)
      \<and> (?ms ! i = T_calling ([?retr, ?mkd] ! i) \<longrightarrow> i \<in> set ys)"
    by blast
  have "1 \<in> set xs" using o by (metis One_nat_def length_Cons lessI list.size(3) nth_Cons_0 nth_Cons_Suc task_settle.simps(4))
  moreover have "0 \<in> set ys" using o by (metis length_greater_0_conv list.distinct(1) nth_Cons_0)
  ultimately have "xs = [1]" "ys = [0]" using second_first [OF p] by simp_all
  with rp a b show ?thesis by (auto simp: run_seq)
qed

section \<open>Waiting for each other\<close>

text \<open>Calls of the asynchronous client that hand out no stream, and where they can stand.\<close>

fun streamless :: "task_call \<Rightarrow> bool" where
  "streamless (Guarded (RETR p offset len)) = False"
| "streamless (Guarded (STOR p)) = False"
| "streamless (Guarded (APPE p)) = False"
| "streamless _ = True"

definition served :: "remote_error + 't reply \<Rightarrow> bool" where
  "served r \<longleftrightarrow> \<not> opened r \<and> r \<noteq> Inl busy_error"

fun patient :: "('c, 't) task \<Rightarrow> bool" where
  "patient (T_calling call) = streamless call"
| "patient (T_locked call) = streamless call"
| "patient (T_quiet call) = streamless call"
| "patient (T_usable call) = streamless call"
| "patient (T_holding g call) = streamless call"
| "patient (T_ran g result requires_reconnect) = served result"
| "patient (T_answered result requires_reconnect) = served result"
| "patient (T_leaving e) = (e \<noteq> busy_error)"
| "patient (T_finished result) = served result"
| "patient (T_dropping g) = True"
| "patient (T_unwinding g) = True"
| "patient T_cancelled = True"
| "patient T_gone = True"
| "patient _ = False"

lemma ftp_error_not_busy [simp]: "ftp_error e \<noteq> busy_error" "with_source k d \<noteq> busy_error"
  by (cases e; simp add: with_source_def busy_error_def with_message_def)+

lemma served_simps [simp]:
  "served (Inr (Replied x))" "served (Inr (Said y))" "served (Inr Reached)" "served (Inr (Listed b))"
  "served (Inl e) = (e \<noteq> busy_error)"
  by (simp_all add: served_def)

lemma streamless_served:
  assumes "task_body F call c s = Some ((r, p), t)" "streamless call"
  shows "served r"
proof (cases call)
  case (Guarded_list remote)
  with assms(1) show ?thesis
    by (auto simp: tokio_read_list_bytes_def Let_def elim!: seq_SomeE split: sum.splits prod.splits)
next
  case (Guarded op)
  with assms show ?thesis
    by (cases op) (auto simp: task_command_def elim!: seq_SomeE split: sum.splits)
qed

lemma patient_settles: "served r \<Longrightarrow> patient (task_settle r)"
  by (induction r rule: task_settle.induct) (auto simp: served_def)

lemma unusable_not_busy [simp]: "unusable_error \<noteq> busy_error" "new_error k \<noteq> busy_error"
  by (simp_all add: busy_error_def unusable_error_def new_error_def with_message_def)

lemma patient_step:
  assumes "task_step F s k t k'" "patient k" "\<not> transfer_active s"
  shows "patient k' \<and> \<not> transfer_active t"
  using assms
proof (induction rule: task_step.induct)
  case (proceeds k s k' t)
  then show ?case
  proof (induction k)
    case (T_holding g call)
    then obtain c where c: "tk_stream s = Some c"
      by (cases "tk_stream s") (auto simp: guard_stream_def run_simps)
    obtain r p u where b: "task_body F call c s = Some ((r, p), u)" "task_answers s r p u"
      using task_body_answers by blast
    with T_holding c streamless_served [OF b(1)] show ?case
      by (auto simp: run_seq guard_stream_def task_answers_def served_def)
  qed (auto simp: run_simps tokio_lock_def drop_operation_def shared_code intro: patient_settles split: if_splits)
qed auto

text \<open>
  C30: Tasks wait for each other instead of failing. As long as no call hands out a stream, no task is
  ever refused as if a transfer were in progress, however commands, \<open>SITE\<close> and listings interleave
  and are cancelled: each waits for the mutex. The blocking client is different: a listing there makes
  the operations of other threads fail.
\<close>

theorem tasks_wait_for_each_other:
  fixes F :: "('s, 'c, 't) ftp_lib"
  assumes "\<not> transfer_active s" "list_all streamless calls"
    and "pool_reach (task_step F) (\<lambda>k. \<exists>c. k = T_calling c \<and> streamless c) (s, map T_calling calls) (t, js)"
  shows "\<not> transfer_active t \<and> T_leaving busy_error \<notin> set js \<and> T_finished (Inl busy_error) \<notin> set js"
proof -
  have "\<not> transfer_active (fst y) \<and> list_all patient (snd y)"
    if "pool_reach (task_step F) (\<lambda>k. \<exists>c. k = T_calling c \<and> streamless c) (s, map T_calling calls) y" for y
    using that
  proof (induction rule: rtranclp_induct)
    case base
    show ?case using assms(1,2) by (simp add: list.pred_map o_def)
  next
    case (step y z)
    from step(2,3) show ?case by cases (auto dest: patient_step)
  qed
  from this [OF assms(3)] show ?thesis by (auto simp: list_all_iff)
qed

theorem tasks_wait_for_each_other_witness:
  "\<exists>t js. pool_reach (task_step demo_lib) (\<lambda>k. \<exists>c. k = T_calling c \<and> streamless c)
       (demo_tokio, map T_calling [Guarded_list ''/'', Guarded (DELE ''/pub/a.txt'')]) (t, js :: (nat, nat) task list)
     \<and> T_holding \<lparr> og_completed = False \<rparr> (Guarded_list ''/'') \<in> set js \<and> T_finished (Inl busy_error) \<notin> set js"
proof -
  let ?fresh = "\<lambda>k. \<exists>c. k = T_calling c \<and> streamless c" and ?calls = "[Guarded_list ''/'', Guarded (DELE ''/pub/a.txt'')]"
  have d: "\<not> tk_locked demo_tokio" "\<not> transfer_active demo_tokio" "refused demo_tokio = None" "list_all streamless ?calls"
    unfolding demo_tokio_def by code_simp+
  from reach_runs [OF task_admitted [OF d(1,3), of demo_lib], of ?fresh "[]"]
  have r: "pool_reach (task_step demo_lib) ?fresh (demo_tokio, map T_calling ?calls)
      (demo_tokio\<lparr>tk_locked := True\<rparr>, T_holding \<lparr> og_completed = False \<rparr> (Guarded_list ''/'')
        # map T_calling (tl ?calls) :: (nat, nat) task list)"
    by simp
  with tasks_wait_for_each_other [OF d(2,4) r] show ?thesis by (intro exI conjI) auto
qed

section \<open>Panics\<close>

text \<open>
  C31: A panic under a gate of the blocking client is forgotten. A thread that panics in the library, or in
  a passive stream builder, while a command or a listing runs leaves the mutex free, the control
  stream in its place and the connection usable, wherever the command had got: the poison of the
  mutex is ignored, so the next operation is admitted. In the asynchronous client the guard of the
  operation is dropped instead, and the connection is unusable.
\<close>

theorem panics_leave_the_connection_usable:
  fixes F :: "('s, 'c, 't) ftp_lib" and v :: "('s, 'c) tokio_ftp_fs"
  assumes "idle s" "refusal s = None" "\<not> tk_locked v" "refused v = None"
  shows "runs (strand_step F) s (Calling (With_stream op)) (s\<lparr>world := sent (world s)\<rparr>) Panicked
    \<and> runs (strand_step F) s (Calling (With_exclusive_stream remote)) (s\<lparr>world := sent (world s)\<rparr>) Panicked
    \<and> idle (s\<lparr>world := sent (world s)\<rparr>) \<and> refusal (s\<lparr>world := sent (world s)\<rparr>) = None
    \<and> runs (task_step F) v (T_calling call) (v\<lparr>world := sent (world v), connection_usable := False\<rparr>) T_cancelled"
proof -
  let ?w = "s\<lparr>world := sent (world s)\<rparr>"
  from refusal_None [OF assms(2)] obtain c where
    c: "fs_stream s = Some c" "connection_usable s" "\<not> transfer_active s" by blast
  have w: "idle ?w" "refusal ?w = None" using assms(1,2) by (simp_all add: idle_def refusal_def split: if_splits)
  let ?l = "s\<lparr>fs_locked := True\<rparr>"
  have p: "strand_step F ?l (Admitted (With_stream op))
      (?l\<lparr>world := sent (world ?l), connection_usable := (connection_usable ?l \<and> True)\<rparr>) Unwinding"
    by (rule panics_in_call)
  have "runs (strand_step F) (?l\<lparr>world := sent (world ?l), connection_usable := (connection_usable ?l \<and> True)\<rparr>) Unwinding ?w Panicked"
    by (rule drive_runs [of F 1]) (use assms(1) c in \<open>cases s, simp add: drive_simps idle_def\<close>)
  with runs_trans [OF admitted_runs [OF assms(1,2)] runs.goes [where strand_step = "strand_step F", OF p]]
  have call: "runs (strand_step F) s (Calling (With_stream op)) ?w Panicked" by blast
  let ?t = "taken s"
  have "drive F 3 (Admitted (With_exclusive_stream remote)) ?l = Some (Owning c remote, ?t)"
    using c assms(1) by (cases s) (simp add: drive_simps taken_def idle_def)
  note own = runs_trans [OF admitted_runs [OF assms(1,2)] drive_runs [OF this]]
  have q: "strand_step F ?t (Owning c remote)
      (?t\<lparr>world := sent (world ?t), connection_usable := (connection_usable ?t \<and> True)\<rparr>) (Unwinding_stream c)"
    by (rule panics_in_listing)
  have "runs (strand_step F) (?t\<lparr>world := sent (world ?t), connection_usable := (connection_usable ?t \<and> True)\<rparr>)
      (Unwinding_stream c) ?w Panicked"
    by (rule drive_runs [of F 3])
      (use assms(1) c in \<open>cases s, simp add: drive_simps taken_def idle_def lock_def\<close>)
  with runs_trans [OF own runs.goes [where strand_step = "strand_step F", OF q]]
  have listing: "runs (strand_step F) s (Calling (With_exclusive_stream remote)) ?w Panicked" by blast
  have "runs (task_step F) (v\<lparr>world := sent (world v)\<rparr>) (T_unwinding \<lparr> og_completed = False \<rparr>)
      (v\<lparr>world := sent (world v), connection_usable := False\<rparr>) T_cancelled"
    by (rule task_drive_runs [of F 1]) (simp add: eval_nat_numeral run_simps drop_operation_def shared_code)
  with task_cancelled_alone [OF assms(3,4), of F call sent]
  have "runs (task_step F) v (T_calling call) (v\<lparr>world := sent (world v), connection_usable := False\<rparr>) T_cancelled"
    by (rule runs_trans)
  with call listing w show ?thesis by simp
qed

theorem panics_leave_the_connection_usable_witness:
  "\<exists>t u. runs (strand_step demo_lib) demo_client (Calling (With_exclusive_stream ''/'')) t Panicked \<and> refusal t = None
    \<and> runs (task_step demo_lib) demo_tokio (T_calling (Guarded_list ''/'')) u T_cancelled \<and> \<not> connection_usable u"
proof -
  have d: "\<not> tk_locked demo_tokio" "refused demo_tokio = None" unfolding demo_tokio_def by code_simp+
  from panics_leave_the_connection_usable [OF demo_client_idle d, of demo_lib ROOT "\<lambda>w. ''LIST /'' # w" "''/''" "Guarded_list ''/''"]
  show ?thesis by (intro exI conjI) (assumption | simp | blast)+
qed

end
