(* ===== verification/Wire.thy ===== *)
theory Wire
  imports Tokio_Session
begin

text \<open>
  What goes on the wire. \<open>off_wire F G\<close> is the library \<open>F\<close> on paths that can be sent and \<open>G\<close>, any
  other library, on all the rest: a client that behaves the same with both never sends such a path.
\<close>

text \<open>The branches of a case distinction are rewritten too.\<close>

lemmas weak_congs = if_weak_cong option.case_cong_weak sum.case_cong_weak prod.case_cong_weak
  FtpError.case_cong_weak

section \<open>Two libraries that agree on the wire\<close>

definition list_target :: "string \<Rightarrow> bool" where
  "list_target cmd \<longleftrightarrow> starts_with ''LIST '' cmd \<and> wire_path (drop 5 cmd)"

definition off_wire :: "('s, 'c, 't) ftp_lib \<Rightarrow> ('s, 'c, 't) ftp_lib \<Rightarrow> ('s, 'c, 't) ftp_lib" where
  "off_wire F G = F\<lparr>
     lib_mkdir := \<lambda>c p. lib_mkdir (if wire_path p then F else G) c p,
     lib_rm := \<lambda>c p. lib_rm (if wire_path p then F else G) c p,
     lib_rmdir := \<lambda>c p. lib_rmdir (if wire_path p then F else G) c p,
     lib_rename := \<lambda>c p q. lib_rename (if wire_path p \<and> wire_path q then F else G) c p q,
     lib_retr := \<lambda>c p. lib_retr (if wire_path p then F else G) c p,
     lib_put := \<lambda>c p. lib_put (if wire_path p then F else G) c p,
     lib_append := \<lambda>c p. lib_append (if wire_path p then F else G) c p,
     lib_custom := \<lambda>c cmd st. lib_custom (if list_target cmd then F else G) c cmd st\<rparr>"

lemma off_wire_paths:
  "wire_path p \<Longrightarrow> lib_mkdir (off_wire F G) c p = lib_mkdir F c p"
  "wire_path p \<Longrightarrow> lib_rm (off_wire F G) c p = lib_rm F c p"
  "wire_path p \<Longrightarrow> lib_rmdir (off_wire F G) c p = lib_rmdir F c p"
  "wire_path p \<Longrightarrow> wire_path q \<Longrightarrow> lib_rename (off_wire F G) c p q = lib_rename F c p q"
  "wire_path p \<Longrightarrow> lib_retr (off_wire F G) c p = lib_retr F c p"
  "wire_path p \<Longrightarrow> lib_put (off_wire F G) c p = lib_put F c p"
  "wire_path p \<Longrightarrow> lib_append (off_wire F G) c p = lib_append F c p"
  "wire_path p \<Longrightarrow> lib_custom (off_wire F G) c (''LIST '' @ p) st = lib_custom F c (''LIST '' @ p) st"
  by (simp_all add: off_wire_def list_target_def starts_with_def)

text \<open>The rest of the library is the same, and so is all that the clients build on it.\<close>

lemma off_wire_rest [simp]:
  "lib_ensure (off_wire F G) = lib_ensure F" "lib_rows (off_wire F G) = lib_rows F"
  "lib_entry_name (off_wire F G) = lib_entry_name F" "lib_status_code (off_wire F G) = lib_status_code F"
  "lib_usize_max (off_wire F G) = lib_usize_max F" "lib_site (off_wire F G) = lib_site F"
  "lib_resume_transfer (off_wire F G) = lib_resume_transfer F"
  "lib_finish_read (off_wire F G) = lib_finish_read F" "lib_from_io (off_wire F G) = lib_from_io F"
  "lib_copy (off_wire F G) = lib_copy F" "lib_read_to_end (off_wire F G) = lib_read_to_end F"
  "lib_connect (off_wire F G) = lib_connect F" "lib_set_builder (off_wire F G) = lib_set_builder F"
  "lib_set_mode (off_wire F G) = lib_set_mode F" "lib_tls_build (off_wire F G) = lib_tls_build F"
  "lib_tls_connector (off_wire F G) = lib_tls_connector F" "lib_into_secure (off_wire F G) = lib_into_secure F"
  "lib_login (off_wire F G) = lib_login F" "lib_transfer_type (off_wire F G) = lib_transfer_type F"
  "lib_quit (off_wire F G) = lib_quit F" "lib_close (off_wire F G) = lib_close F"
  "lib_welcome (off_wire F G) = lib_welcome F"
  "lib_abandon_read (off_wire F G) = lib_abandon_read F"
  by (simp_all add: off_wire_def)

lemma off_wire_parts [simp]:
  "drop_stream (off_wire F G) = drop_stream F" "or_drop (off_wire F G) = or_drop F"
  "setup_tls_connector (off_wire F G) = setup_tls_connector F"
  "tokio_setup_tls_connector (off_wire F G) = tokio_setup_tls_connector F"
  "lists_itself (off_wire F G) = lists_itself F" "usize_try_from (off_wire F G) = usize_try_from F"
  "request_offset (off_wire F G) = request_offset F"
  "tokio_request_offset (off_wire F G) = tokio_request_offset F"
  "skip_prefix (off_wire F G) = skip_prefix F" "finish_after_skip (off_wire F G) = finish_after_skip F"
  "tokio_skip_locally (off_wire F G) = tokio_skip_locally F" "tokio_restart (off_wire F G) = tokio_restart F"
  by (simp_all cong del: weak_congs add: fun_eq_iff setup_tls_connector_def tokio_setup_tls_connector_def drop_stream_def or_drop_def lists_itself_def usize_try_from_def request_offset_def
      tokio_request_offset_def skip_prefix_def finish_after_skip_def finish_inner_def finish_read_def drain_def
      drop_read_stream_def tokio_skip_locally_def tokio_restart_def tokio_skip_prefix_def
      tokio_finish_after_skip_def tokio_finish_inner_def tokio_finish_read_def tokio_drain_def
      tokio_drop_read_stream_def)

lemma off_wire_connect:
  "connect (off_wire F G) = connect F" "disconnect (off_wire F G) = disconnect F"
  "tokio_connect (off_wire F G) = tokio_connect F" "tokio_disconnect (off_wire F G) = tokio_disconnect F"
  by (simp_all cong del: weak_congs add: fun_eq_iff connect_def disconnect_def tokio_connect_def tokio_disconnect_def open_control_def tokio_open_control_def
      forget_unusable_def tokio_forget_unusable_def secure_stream_def tokio_secure_stream_def log_in_def
      tokio_log_in_def install_builder_def tokio_install_builder_def)

section \<open>Paths that were checked\<close>

text \<open>What is done with the result of \<open>remote_path\<close> only matters on paths that can be sent.\<close>

lemma attempt_remote:
  "(\<And>q. wire_path q \<Longrightarrow> f q = g q) \<Longrightarrow> attempt (ret (remote_path e p)) f = attempt (ret (remote_path e p)) g"
  by (cases "remote_path e p") (auto dest: remote_path_wire)

lemma off_wire_listing:
  assumes "wire_path r"
  shows "list_dir_raw (off_wire F G) p r = list_dir_raw F p r"
    and "tokio_list_dir_raw (off_wire F G) p r = tokio_list_dir_raw F p r"
  using assms
  by (simp_all cong del: weak_congs add: list_dir_raw_def read_list_bytes_def tokio_list_dir_raw_def tokio_read_list_bytes_def off_wire_paths(8) [simplified])

lemma off_wire_ancestors [simp]:
  "ancestor_loop (off_wire F G) n p = ancestor_loop F n p"
  "tokio_ancestor_loop (off_wire F G) n p = tokio_ancestor_loop F n p"
  by (induction n arbitrary: p) (auto cong del: weak_congs intro!: attempt_remote simp: off_wire_listing split: option.splits)

lemma off_wire_proof:
  "wire_path r \<Longrightarrow> list_or_prove_absent (off_wire F G) p r = list_or_prove_absent F p r"
  "wire_path r \<Longrightarrow> tokio_list_or_prove_absent (off_wire F G) p r = tokio_list_or_prove_absent F p r"
  by (simp_all cong del: weak_congs add: list_or_prove_absent_def tokio_list_or_prove_absent_def ancestor_proves_absent_def
      tokio_ancestor_proves_absent_def off_wire_listing)

lemma off_wire_stat [simp]: "stat (off_wire F G) p = stat F p"
proof (induction p rule: length_induct)
  case (1 p)
  have "stat (off_wire F G) q = stat F q" if "parent p = Some q" for q
    using 1 parent_shorter [OF that] by blast
  then show ?case
    unfolding stat.simps [of _ p]
    by (auto cong del: weak_congs intro!: attempt_remote simp: off_wire_proof split: option.splits)
qed

lemma off_wire_tokio_stat [simp]: "tokio_stat (off_wire F G) p = tokio_stat F p"
proof (induction p rule: length_induct)
  case (1 p)
  have "tokio_stat (off_wire F G) q = tokio_stat F q" if "parent p = Some q" for q
    using 1 parent_shorter [OF that] by blast
  then show ?case
    unfolding tokio_stat.simps [of _ p]
    by (auto cong del: weak_congs intro!: attempt_remote simp: off_wire_proof split: option.splits)
qed

lemma off_wire_lookups [simp]:
  "stat_is_file (off_wire F G) p = stat_is_file F p" "tokio_stat_is_file (off_wire F G) p = tokio_stat_is_file F p"
  "exists (off_wire F G) p = exists F p" "tokio_exists (off_wire F G) p = tokio_exists F p"
  "destination_parent_is_missing (off_wire F G) p = destination_parent_is_missing F p"
  "tokio_destination_parent_is_missing (off_wire F G) p = tokio_destination_parent_is_missing F p"
  by (simp_all cong del: weak_congs add: stat_is_file_def tokio_stat_is_file_def exists_def tokio_exists_def
      destination_parent_is_missing_def tokio_destination_parent_is_missing_def)

lemma off_wire_list [simp]:
  "list_dir (off_wire F G) p = list_dir F p" "tokio_list_dir (off_wire F G) p = tokio_list_dir F p"
  unfolding list_dir_def tokio_list_dir_def by (auto cong del: weak_congs intro!: attempt_remote simp: off_wire_proof)

lemma off_wire_classify [simp]:
  "classify_file_refusal (off_wire F G) p = classify_file_refusal F p"
  "classify_create_refusal (off_wire F G) p = classify_create_refusal F p"
  "classify_remove_dir_refusal (off_wire F G) p = classify_remove_dir_refusal F p"
  "classify_create_dir_refusal (off_wire F G) p = classify_create_dir_refusal F p"
  "classify_rename_refusal (off_wire F G) p q = classify_rename_refusal F p q"
  by (simp_all cong del: weak_congs add: fun_eq_iff classify_file_refusal_def classify_create_refusal_def classify_remove_dir_refusal_def
      classify_create_dir_refusal_def classify_rename_refusal_def)

lemma off_wire_tokio_classify [simp]:
  "tokio_classify_file_refusal (off_wire F G) p = tokio_classify_file_refusal F p"
  "tokio_classify_create_refusal (off_wire F G) p = tokio_classify_create_refusal F p"
  "tokio_classify_remove_dir_refusal (off_wire F G) p = tokio_classify_remove_dir_refusal F p"
  "tokio_classify_create_dir_refusal (off_wire F G) p = tokio_classify_create_dir_refusal F p"
  "tokio_classify_rename_refusal (off_wire F G) p q = tokio_classify_rename_refusal F p q"
  by (simp_all cong del: weak_congs add: fun_eq_iff tokio_classify_file_refusal_def tokio_classify_create_refusal_def
      tokio_classify_remove_dir_refusal_def tokio_classify_create_dir_refusal_def tokio_classify_rename_refusal_def)

lemma off_wire_download:
  assumes "wire_path r"
  shows "start_download (off_wire F G) r = start_download F r"
    and "tokio_retry_from_start (off_wire F G) g c r = tokio_retry_from_start F g c r"
  using assms
  by (simp_all cong del: weak_congs add: fun_eq_iff start_download_def retry_from_start_def tokio_retry_from_start_def off_wire_paths)

lemmas off_wire = off_wire_paths off_wire_connect off_wire_download

lemma off_wire_perform: "perform (off_wire F G) req = perform F req"
  by (cases req)
    (auto cong del: weak_congs intro!: attempt_remote arg_cong [where f = "answering _"] simp: off_wire create_dir_def remove_file_def
      remove_dir_def rename_def open_file_def create_file_def append_file_def set_metadata_def copy_def
      symlink_def exec_def Let_def)

lemma off_wire_tokio_perform: "tokio_perform (off_wire F G) req = tokio_perform F req"
  by (cases req)
    (auto cong del: weak_congs intro!: attempt_remote arg_cong [where f = "answering _"] simp: off_wire tokio_create_dir_def tokio_remove_file_def
      tokio_remove_dir_def tokio_rename_def tokio_open_def tokio_create_def tokio_append_def tokio_set_metadata_def
      tokio_copy_def tokio_symlink_def tokio_exec_def Let_def)

end
