(* ===== verification/Windows_Path.thy ===== *)
theory Windows_Path
  imports Listing_Facts
begin

text \<open>
  The Windows build: the wire encoding (\<open>src/src/client/path.rs\<close>) and the check of listed names
  (\<open>src/src/client/list.rs\<close>). The conversion of separators is
  \<open>PathExt::to_slash\<close> of the \<open>path_slash\<close> crate, the parameter \<open>to_slash\<close>; what its documentation
  promises is \<open>slash_contract\<close>: the result is text, with every separator a slash.
\<close>

section \<open>Definitions\<close>

type_synonym to_slash = "string \<Rightarrow> string option"

definition backslash :: char where
  "backslash = CHR 0x5C"

definition slashed :: "string \<Rightarrow> string" where
  "slashed p = map (\<lambda>c. if c = backslash then CHR ''/'' else c) p"

text \<open>
  \<open>Path::components\<close> on Windows takes both separators. It is only asked of a path that begins with
  one slash, which has no drive and no other prefix.
\<close>

definition windows_components :: "string \<Rightarrow> component list" where
  "windows_components p = components (slashed p)"

definition windows_remote_path :: "ensure_absolute \<Rightarrow> to_slash \<Rightarrow> string \<Rightarrow> remote_error + string" where
  "windows_remote_path ensure to_slash path =
     (case ensure path of
        Inl e \<Rightarrow> Inl e
      | Inr _ \<Rightarrow>
          (case to_slash path of
             None \<Rightarrow> Inl (with_message KInvalidPath ''FTP paths must contain valid UTF-8'')
           | Some path \<Rightarrow>
               if \<not> starts_with ''/'' path
                  \<or> starts_with ''//'' path
                  \<or> list_ex is_ascii_control path
                  \<or> list_ex (\<lambda>c. c = ParentDir) (windows_components path)
               then Inl (with_message KInvalidPath ''FTP paths must use a single POSIX absolute root'')
               else Inr path))"

definition windows_resolve :: "to_slash \<Rightarrow> string \<Rightarrow> string" where
  "windows_resolve to_slash p = (case to_slash p of None \<Rightarrow> [] | Some s \<Rightarrow> s)"

text \<open>
  A listed name is checked for both separators. \<open>Path::components\<close> of a name that begins with a drive
  begins with a prefix component; no other prefix is without a separator.
\<close>

definition has_drive :: "string \<Rightarrow> bool" where
  "has_drive name \<longleftrightarrow> (case name of
     d # c # _ \<Rightarrow> (65 \<le> byte d \<and> byte d \<le> 90 \<or> 97 \<le> byte d \<and> byte d \<le> 122) \<and> c = CHR '':''
   | _ \<Rightarrow> False)"

definition windows_validate_list_child_name :: "string \<Rightarrow> remote_error + unit" where
  "windows_validate_list_child_name name =
     (let has_path_separator = list_ex (\<lambda>b. b = CHR ''/'' \<or> b = backslash) name;
          is_direct_child =
            (name \<noteq> [] \<and> name \<noteq> ''.'' \<and> name \<noteq> ''..''
             \<and> \<not> list_ex is_ascii_control name
             \<and> \<not> has_path_separator
             \<and> \<not> has_drive name
             \<and> length (windows_components name) = 1
             \<and> (case windows_components name of Normal _ # _ \<Rightarrow> True | _ \<Rightarrow> False))
      in if is_direct_child then Inr ()
         else protocol_error (''LIST returned an unsafe child name: '' @ debug_str name))"

definition slash_contract :: "to_slash \<Rightarrow> bool" where
  "slash_contract to_slash \<longleftrightarrow> (\<forall>p s. to_slash p = Some s \<longrightarrow> valid_utf8 s \<and> backslash \<notin> set s)"

section \<open>Lemmas\<close>

lemma slashed_plain: "backslash \<notin> set p \<Longrightarrow> slashed p = p"
  by (induction p) (auto simp: slashed_def)

lemma windows_components_plain: "backslash \<notin> set p \<Longrightarrow> windows_components p = components p"
  by (simp add: windows_components_def slashed_plain)

text \<open>The Windows build accepts the names of the other builds that hold no backslash and no drive.\<close>

lemma windows_child_iff:
  "windows_validate_list_child_name name = Inr () \<longleftrightarrow>
     validate_list_child_name name = Inr () \<and> backslash \<notin> set name \<and> \<not> has_drive name"
proof (cases "backslash \<in> set name")
  case True
  then show ?thesis
    by (auto simp: windows_validate_list_child_name_def protocol_error_def Let_def list_ex_iff)
next
  case False
  then show ?thesis
    by (auto simp: windows_validate_list_child_name_def validate_list_child_name_def protocol_error_def Let_def
        list_ex_iff windows_components_plain)
qed

lemma windows_remote_path_cases:
  assumes "slash_contract to_slash" "ensure p = Inr ()" "to_slash p = Some s"
  shows "windows_remote_path ensure to_slash p =
    (if wire_path s then Inr s
     else Inl (with_message KInvalidPath ''FTP paths must use a single POSIX absolute root''))"
proof -
  have s: "valid_utf8 s" "windows_components s = components s"
    using assms(1,3) by (auto simp: slash_contract_def intro: windows_components_plain)
  then show ?thesis using assms(2,3)
    by (auto simp: windows_remote_path_def wire_path_def is_absolute_def list_ex_iff)
qed

text \<open>The conversion of a path without a prefix.\<close>

definition plain_to_slash :: to_slash where
  "plain_to_slash p = (if valid_utf8 (slashed p) then Some (slashed p) else None)"

lemma plain_to_slash_contract: "slash_contract plain_to_slash"
  by (auto simp: slash_contract_def plain_to_slash_def slashed_def backslash_def split: if_splits)

text \<open>
  C36: The Windows build sends nothing the POSIX build would not. A path it accepts was converted to
  a text that is valid for the wire in the sense of the POSIX build: one root, no control
  character, no parent component, valid UTF-8; and every such conversion is accepted. All other
  paths are refused with \<open>InvalidPath\<close> before anything is sent, also when a parent component shows
  only after the conversion.
\<close>

theorem windows_paths_are_wire_paths:
  assumes "\<forall>q e. ensure q = Inl e \<longrightarrow> kind e = KInvalidPath" "ensure_contract posix_ensure" "slash_contract to_slash"
  shows "(windows_remote_path ensure to_slash p = Inr s \<longleftrightarrow> ensure p = Inr () \<and> to_slash p = Some s \<and> wire_path s)
    \<and> (windows_remote_path ensure to_slash p = Inr s \<longrightarrow>
        windows_resolve to_slash p = s \<and> remote_path posix_ensure s = Inr s)
    \<and> (\<forall>e. windows_remote_path ensure to_slash p = Inl e \<longrightarrow> kind e = KInvalidPath)"
proof -
  have iff: "windows_remote_path ensure to_slash p = Inr s \<longleftrightarrow> ensure p = Inr () \<and> to_slash p = Some s \<and> wire_path s"
    using windows_remote_path_cases [OF assms(3), of ensure p]
    by (cases "ensure p"; cases "to_slash p") (auto simp: windows_remote_path_def)
  moreover have "kind e = KInvalidPath" if "windows_remote_path ensure to_slash p = Inl e" for e
    using that assms(1)
    by (auto simp: windows_remote_path_def split: sum.splits option.splits if_splits)
  ultimately show ?thesis using remote_path_contract(1) [OF assms(2), of s s] by (auto simp: windows_resolve_def)
qed

definition posix_demo_ensure :: ensure_absolute where
  "posix_demo_ensure p = (if is_absolute p then Inr () else Inl (new_error KInvalidPath))"

theorem windows_paths_are_wire_paths_witness:
  "windows_remote_path posix_demo_ensure plain_to_slash (''/dir'' @ [backslash] @ ''file'') = Inr ''/dir/file''
    \<and> (\<exists>e. windows_remote_path posix_demo_ensure plain_to_slash (''/dir'' @ [backslash] @ ''..'' @ [backslash] @ ''file'') = Inl e
        \<and> kind e = KInvalidPath)"
proof -
  let ?good = "''/dir'' @ [backslash] @ ''file''" and ?bad = "''/dir'' @ [backslash] @ ''..'' @ [backslash] @ ''file''"
  have e: "\<forall>q e. posix_demo_ensure q = Inl e \<longrightarrow> kind e = KInvalidPath"
    by (simp add: posix_demo_ensure_def)
  have c: "ensure_contract posix_demo_ensure" by (simp add: ensure_contract_def posix_demo_ensure_def)
  note accepted = windows_paths_are_wire_paths [OF e c plain_to_slash_contract]
  have "plain_to_slash ?bad = Some ''/dir/../file''" "list_ex (\<lambda>c. c = ParentDir) (components ''/dir/../file'')"
    by code_simp+
  then have "windows_remote_path posix_demo_ensure plain_to_slash ?bad \<noteq> Inr s" for s
    using accepted [where p = ?bad and s = s] by (auto simp: wire_path_def list_ex_iff)
  then obtain e where bad: "windows_remote_path posix_demo_ensure plain_to_slash ?bad = Inl e"
    by (metis sum.exhaust)
  have "posix_demo_ensure ?good = Inr ()" "plain_to_slash ?good = Some ''/dir/file''"
    "valid_utf8 ''/dir/file''" "is_absolute ''/dir/file''" "\<not> starts_with ''//'' ''/dir/file''"
    "list_all (\<lambda>c. \<not> is_ascii_control c) ''/dir/file''" "\<not> list_ex (\<lambda>c. c = ParentDir) (components ''/dir/file'')"
    by code_simp+
  then have "windows_remote_path posix_demo_ensure plain_to_slash ?good = Inr ''/dir/file''"
    using accepted [where p = ?good and s = "''/dir/file''"] by (simp add: wire_path_def list_ex_iff list_all_iff)
  then show ?thesis using bad accepted [where p = ?bad and s = "[]"] by auto
qed

end
