(* ===== verification/Rustls.thy ===== *)
theory Rustls
  imports Tokio_Connecting
begin

text \<open>
  The builds over \<open>rustls\<close>. Their clients have no fields for invalid certificates and hosts, and
  build their connector from the roots of \<open>webpki_roots\<close>, a parameter here. \<open>rustls_lib\<close> is a library
  seen by such a build: its connector does not depend on the two fields, so every theorem on the
  clients, which are about any library, covers these builds too.
\<close>

section \<open>Definitions\<close>

record trust_anchor =
  ta_subject :: string
  ta_subject_public_key_info :: string
  ta_name_constraints :: "string option"

record client_config =
  cc_root_certificates :: "trust_anchor list"
  cc_client_auth :: bool

definition rustls_root_store :: "trust_anchor list \<Rightarrow> trust_anchor list" where
  "rustls_root_store anchors =
     [] @ map (\<lambda>ta. \<lparr> ta_subject = ta_subject ta,
       ta_subject_public_key_info = ta_subject_public_key_info ta,
       ta_name_constraints = ta_name_constraints ta \<rparr>) anchors"

definition rustls_setup_tls_connector ::
  "trust_anchor list \<Rightarrow> (client_config \<Rightarrow> nat) \<Rightarrow> ('s, 'c) ftp_fs \<Rightarrow> remote_error + nat" where
  "rustls_setup_tls_connector anchors connector s =
     Inr (connector \<lparr> cc_root_certificates = rustls_root_store anchors, cc_client_auth = False \<rparr>)"

definition tokio_rustls_setup_tls_connector ::
  "trust_anchor list \<Rightarrow> (client_config \<Rightarrow> nat) \<Rightarrow> ('s, 'c) tokio_ftp_fs \<Rightarrow> remote_error + nat" where
  "tokio_rustls_setup_tls_connector anchors connector s =
     Inr (connector \<lparr> cc_root_certificates = rustls_root_store anchors, cc_client_auth = False \<rparr>)"

definition rustls_secure :: "('s, 'c) ftp_fs \<Rightarrow> ('s, 'c) ftp_fs" where
  "rustls_secure s = s\<lparr>fs_secure := True\<rparr>"

definition tokio_rustls_secure :: "('s, 'c) tokio_ftp_fs \<Rightarrow> ('s, 'c) tokio_ftp_fs" where
  "tokio_rustls_secure s = s\<lparr>tk_secure := True\<rparr>"

section \<open>The library of such a build\<close>

definition rustls_config :: "trust_anchor list \<Rightarrow> client_config" where
  "rustls_config anchors = \<lparr> cc_root_certificates = anchors, cc_client_auth = False \<rparr>"

definition rustls_lib ::
  "trust_anchor list \<Rightarrow> (client_config \<Rightarrow> nat) \<Rightarrow> ('s, 'c, 't) ftp_lib \<Rightarrow> ('s, 'c, 't) ftp_lib" where
  "rustls_lib anchors connector F = F\<lparr>
     lib_tls_build := \<lambda>_ _. Inr (connector (rustls_config anchors)),
     lib_tls_connector := \<lambda>_ _. connector (rustls_config anchors) \<rparr>"

lemma rustls_root_store_id: "rustls_root_store anchors = anchors"
  by (simp add: rustls_root_store_def map_idI)

lemma rustls_connectors:
  "setup_tls_connector (rustls_lib anchors connector F) s = rustls_setup_tls_connector anchors connector s"
  "tokio_setup_tls_connector (rustls_lib anchors connector F) t = tokio_rustls_setup_tls_connector anchors connector t"
  by (simp_all add: setup_tls_connector_def tokio_setup_tls_connector_def rustls_lib_def
      rustls_setup_tls_connector_def tokio_rustls_setup_tls_connector_def rustls_root_store_id rustls_config_def)

lemma rustls_mirrors: "blocking (tokio_rustls_secure s) = rustls_secure (blocking s)"
  by (simp add: tokio_rustls_secure_def rustls_secure_def blocking_def)

text \<open>What the flags say has no influence on the connector a secure connection is made with.\<close>

lemma rustls_ignores_flags:
  "secure_stream (rustls_lib anchors connector F) c (secure certs hosts s) =
   (case secure_stream (rustls_lib anchors connector F) c (rustls_secure s) of
      None \<Rightarrow> None
    | Some (r, t) \<Rightarrow> Some (r, t\<lparr>fs_accept_invalid_certs := certs, fs_accept_invalid_hostnames := hosts\<rparr>))"
  unfolding secure_stream_def or_drop_def
  by (auto simp: run_simps rustls_connectors rustls_setup_tls_connector_def secure_def rustls_secure_def
      on_world_def split: prod.splits)

end
