(* ===== verification/Error_Texts.thy ===== *)
theory Error_Texts
  imports Errors "HOL-Library.Sublist"
begin

text \<open>
  The texts of the errors that keep two failures of one cleanup: \<open>Display\<close> of \<open>ListCleanupFailure\<close>
  (\<open>src/src/client/error.rs\<close>) and of the failures of the two stream files. The text of one error is
  \<open>Display\<close> of \<open>RemoteError\<close>, in \<open>remotefs\<close>: the parameter \<open>show\<close>.
\<close>

type_synonym shown = "remote_error \<Rightarrow> string"

definition list_cleanup_text :: "shown \<Rightarrow> remote_error \<Rightarrow> remote_error \<Rightarrow> string" where
  "list_cleanup_text show read finish =
     ''LIST read failed: '' @ show read @ ''; completion failed: '' @ show finish"

definition cleanup_text :: "shown \<Rightarrow> remote_error \<Rightarrow> remote_error \<Rightarrow> string" where
  "cleanup_text show drain finish =
     ''drain failed: '' @ show drain @ ''; finalization failed: '' @ show finish"

definition skip_cleanup_text :: "shown \<Rightarrow> remote_error \<Rightarrow> remote_error \<Rightarrow> string" where
  "skip_cleanup_text show skip finish =
     ''prefix skip failed: '' @ show skip @ ''; finalization failed: '' @ show finish"

definition write_cleanup_text :: "shown \<Rightarrow> remote_error \<Rightarrow> remote_error \<Rightarrow> string" where
  "write_cleanup_text show flush finish =
     ''flush failed: '' @ show flush @ ''; finalization failed: '' @ show finish"

definition tokio_cleanup_text :: "shown \<Rightarrow> remote_error \<Rightarrow> remote_error \<Rightarrow> string" where
  "tokio_cleanup_text show drain finish =
     ''drain failed: '' @ show drain @ ''; finalization failed: '' @ show finish"

definition tokio_skip_cleanup_text :: "shown \<Rightarrow> remote_error \<Rightarrow> remote_error \<Rightarrow> string" where
  "tokio_skip_cleanup_text show skip finish =
     ''prefix skip failed: '' @ show skip @ ''; finalization failed: '' @ show finish"

definition tokio_write_cleanup_text :: "shown \<Rightarrow> remote_error \<Rightarrow> remote_error \<Rightarrow> string" where
  "tokio_write_cleanup_text show flush finish =
     ''flush failed: '' @ show flush @ ''; finalization failed: '' @ show finish"

text \<open>The text of a cleanup failure, whichever it is.\<close>

fun cleanup_display :: "shown \<Rightarrow> dyn_error \<Rightarrow> string option" where
  "cleanup_display show (DynListCleanupFailure a b) = Some (list_cleanup_text show a b)"
| "cleanup_display show (DynCleanupFailure a b) = Some (cleanup_text show a b)"
| "cleanup_display show (DynSkipCleanupFailure a b) = Some (skip_cleanup_text show a b)"
| "cleanup_display show (DynWriteCleanupFailure a b) = Some (write_cleanup_text show a b)"
| "cleanup_display show _ = None"

lemmas cleanup_texts = list_cleanup_text_def cleanup_text_def skip_cleanup_text_def write_cleanup_text_def

lemma clients_speak_alike:
  "tokio_cleanup_text = cleanup_text" "tokio_skip_cleanup_text = skip_cleanup_text"
  "tokio_write_cleanup_text = write_cleanup_text"
  by (simp_all add: fun_eq_iff cleanup_texts tokio_cleanup_text_def tokio_skip_cleanup_text_def
      tokio_write_cleanup_text_def)

lemma cleanup_display_shape:
  assumes "e \<in> {DynListCleanupFailure a b, DynCleanupFailure a b, DynSkipCleanupFailure a b, DynWriteCleanupFailure a b}"
  shows "\<exists>p q. cleanup_display show e = Some (p @ show a @ q @ show b)"
  using assms by (elim insertE emptyE; simp only: cleanup_display.simps cleanup_texts) blast+

text \<open>\<open>source()\<close> leads to the failed completion only; the text shows both failures.\<close>

lemma cleanup_shows_both:
  assumes "e \<in> {DynListCleanupFailure a b, DynCleanupFailure a b, DynSkipCleanupFailure a b, DynWriteCleanupFailure a b}"
  shows "source_of e = Some (DynRemote b)
    \<and> (\<exists>text. cleanup_display show e = Some text \<and> sublist (show a) text \<and> sublist (show b) text)"
proof -
  from cleanup_display_shape [OF assms] obtain p q where "cleanup_display show e = Some (p @ show a @ q @ show b)" by blast
  moreover have "sublist (show a) (p @ show a @ q @ show b)" "sublist (show b) (p @ show a @ q @ show b)"
    by (simp add: sublist_append, metis append_assoc append_Nil2 sublist_appendI)+
  ultimately show ?thesis using assms by auto
qed

end
