(* ===== verification/Spec2Isabelle.thy ===== *)
theory Spec2Isabelle
  imports Listing_Props Sync_Props Tokio_Props Serial_Props Wire Windows_Path Rustls Error_Texts
begin

text \<open>
  A verification of the FTP and FTPS clients of \<open>remotefs-ftp\<close>, the Rust crate under
  \<open>src/\<close>. The crate implements the \<open>RemoteFs\<close> interface twice over the \<open>suppaftp\<close> library: \<open>FtpFs\<close>
  blocks its thread, \<open>TokioFtpFs\<close> is asynchronous. Both share the error mapping, the path check and
  the parser of listings; each has its own client, its own owned streams, and a guard of two
  atomics that a client shares with the stream it handed out.

  The parts, and the theories that model them.

  \<^item> Rust text: \<open>Rust_Str\<close>, \<open>Rust_Text\<close>, \<open>Rust_Path\<close>. A string is its UTF-8 bytes. Slicing is \<open>None\<close>
    off a character boundary, where Rust panics. Paths follow \<open>std::path\<close> on POSIX.
  \<^item> Errors: \<open>Errors\<close>, for \<open>client/error.rs\<close>. The mapping of replies to kinds, the rule that decides
    whether a failure may have left replies unread (\<open>transfer_setup_requires_reconnect\<close>,
    \<open>remote_error_requires_reconnect\<close>) and the rule for an ambiguous 550. Two failures of one
    cleanup are combined under the laws of the locale \<open>cleanup\<close>.
    The texts of these combined failures are in \<open>Error_Texts\<close>.
  \<^item> Paths: \<open>Remote_Path\<close>, for \<open>client/path.rs\<close> and \<open>utils/path.rs\<close> on POSIX; \<open>Windows_Path\<close> for the
    Windows build of \<open>client/path.rs\<close> and of the check of listed names in \<open>client/list.rs\<close>,
    with its property.
  \<^item> Listings: \<open>Listing\<close>, for \<open>client/list.rs\<close>; facts in \<open>Listing_Rows\<close>, \<open>Listing_Words\<close>,
    \<open>Listing_Facts\<close> and \<open>Listing_Boundary\<close>, properties in \<open>Listing_Props\<close>.
  \<^item> What is outside the repository: \<open>Ftp_Lib\<close>, one record of functions, with a state of its own.
  \<^item> The guard: \<open>Guard\<close>, for \<open>client/guard.rs\<close>. Reading from sockets: \<open>Byte_Reader\<close>.
  \<^item> The blocking client: \<open>Sync_Stream\<close> for \<open>client/sync/stream.rs\<close>; \<open>Sync_Client\<close> (state, mutex,
    flags, \<open>connect\<close>, \<open>disconnect\<close>), \<open>Sync_Probe\<close> (listing, \<open>stat\<close>, classification of refusals) and
    \<open>Sync_Ops\<close> (commands and transfers) for \<open>client/sync.rs\<close>. Facts in \<open>Stream_Facts\<close>, \<open>Sync_Facts\<close>,
    \<open>Connecting\<close>, \<open>Session\<close>, \<open>Lookup\<close> and \<open>Sync_Laws\<close>, properties in \<open>Stream_Props\<close> and \<open>Sync_Props\<close>.
  \<^item> The asynchronous client: \<open>Tokio_Stream\<close> for \<open>client/tokio/stream.rs\<close>; \<open>Tokio_Client\<close>,
    \<open>Tokio_Probe\<close> and \<open>Tokio_Ops\<close> for \<open>client/tokio.rs\<close>, in the same order. \<open>Simulation\<close> is the
    calculus of refinement between clients; \<open>Tokio_Refines\<close>, \<open>Tokio_Guarded\<close>, \<open>Tokio_Sim\<close>,
    \<open>Tokio_Connecting\<close> and \<open>Tokio_Frame\<close> follow every operation; \<open>Tokio_Session\<close> is the state machine of
    one task, cancellations included. Properties in \<open>Tokio_Props\<close>.
  \<^item> The clients shared: \<open>Pools\<close> is the theory of a pool of workers that take steps in any order on one
    state. \<open>Sync_Threads\<close> cuts the operations of \<open>client/sync.rs\<close> into the steps another thread can see,
    \<open>Tokio_Tasks\<close> those of \<open>client/tokio.rs\<close> and \<open>client/tokio/stream.rs\<close>, with a cancellation wherever
    a future waits. \<open>Thread_Facts\<close>, \<open>Task_Facts\<close> and \<open>Task_Calls\<close> hold the facts, \<open>Thread_Props\<close> and
    \<open>Task_Props\<close> the properties. \<open>Serial\<close> is the theory of pools whose calls take effect one at a time,
    \<open>Serial_Calls\<close> shows that those of both clients do, and \<open>Serial_Props\<close> holds the properties.
  \<^item> The builds over \<open>rustls\<close>: \<open>Rustls\<close>.
  \<^item> What is sent: \<open>Wire\<close>. A small server for the witnesses: \<open>Demo\<close>, \<open>Sync_Demo\<close>.

  How code corresponds to definitions. An operation is an action (\<open>Prelude\<close>): from a state to a
  result and a state, or \<open>None\<close> for a panic. The states \<open>ftp_fs\<close> and \<open>tokio_ftp_fs\<close> have the fields of
  the structs, extend the record of the two flags (\<open>transfer_active\<close>, \<open>connection_usable\<close>), and
  hold the state of the outside as \<open>world\<close>. A result is a sum with the error on the left; \<open>?\<close> is
  \<open>attempt\<close>. Locking a mutex that the thread holds is a panic in the model, where the code would
  wait for ever, so "returns" excludes both. Drops are written where the source has them: a stream
  that goes out of scope runs its \<open>Drop\<close> and then its guard's. Definitions keep the names of the
  source, with \<open>tokio_\<close> before those of the asynchronous client and \<open>_file\<close> after \<open>open\<close>, \<open>create\<close> and
  \<open>append\<close>. Numbers keep their width: ports have 16 bits, offsets and budgets 64, and a budget that
  would go below zero is a panic.

  Loops. The ancestors of a path are listed at most eight times (\<open>ancestor_proves_absent\<close>), the
  constant of the source, and \<open>ancestor_loop\<close> recurs on it. \<open>stat\<close> recurs on the parent, which is
  shorter. Error chains are finite data, so the loops over \<open>source()\<close> end. A download is a finite
  list of read results followed by end of file, and the loops of \<open>io::copy\<close> and \<open>read_to_end\<close> are
  over that list, with interrupted reads retried. No fuel is used. Pools of threads and tasks are
  of any size and run for any number of steps; \<open>drive\<close> and \<open>task_drive\<close> count the steps of one call
  that runs alone, which are at most eleven.

  What the groups of lemmas show. The framing calculus of \<open>Prelude\<close> (\<open>frame\<close>, \<open>frame_intros\<close>) shows
  that each blocking operation returns and changes the state in its allowed way only; \<open>Session\<close> turns
  this into the invariant of every session. \<open>Lookup\<close> relates \<open>stat\<close> to a pure reference through the
  locale \<open>prober\<close>, from which the meaning of an absence follows. \<open>Stream_Facts\<close> gives bounded readers
  their laws (\<open>budget_reader\<close>), and to those that get somewhere with every read that enough reads
  receive everything (\<open>finite_reader\<close>). The simulation calculus (\<open>same_world\<close>, \<open>same_flags\<close>, \<open>sim_intros\<close>)
  carries every blocking theorem to the asynchronous client; \<open>Tokio_Frame\<close> frames its operations for
  any library.

  Threads and tasks. A strand is where a thread stands in a call (\<open>strand\<close>, \<open>task\<close>), and its next step
  is \<open>advance\<close> or \<open>task_advance\<close>: one access to the mutex or to an atomic, or one command on the control
  stream. A thread may panic where the library runs, and then drops its guards step by step
  (\<open>Unwinding\<close>); a task that panics drops them as a cancelled one does. The closures that
  \<open>with_stream\<close> runs are \<open>closure\<close>, and \<open>task_body\<close> is their counterpart, with what \<open>exec\<close>,
  \<open>list_dir_raw\<close>, \<open>run_command\<close>, \<open>open\<close>, \<open>create\<close> and \<open>append\<close> do under the guard. The steps of
  \<open>advance\<close> include those of \<open>ExclusiveStream::drop\<close>;
  \<open>with_stream_runs\<close>, \<open>with_exclusive_runs\<close>, \<open>gates_are_calls\<close> and \<open>task_whole_runs\<close>, \<open>task_calls\<close> tie
  the steps to the operations of one thread.
  The locale \<open>pool\<close> asks for resources (mutex, transfer flag, control stream), who uses them, and
  what a worker may assume of the state where it stands (\<open>fits\<close>), and gives that each resource is
  taken exactly while one worker uses it; \<open>draining_pool\<close> adds a rank, and gives that every pool can
  be run to rest; \<open>session_pool\<close> adds the streams the workers own. It is interpreted as \<open>threads\<close> and
  as \<open>tasks\<close>. The locale \<open>serial_pool\<close> asks for the critical section of each call (\<open>critical\<close>,
  \<open>task_critical\<close>) and gives the order in which the calls took effect; it is interpreted as
  \<open>serial_threads\<close> and \<open>serial_tasks\<close>. That a step of one keeps what the others may assume is
  \<open>strand_step_guarantee\<close> and \<open>task_step_guarantee\<close>.

  Assumptions, each a named hypothesis where it is used. \<open>ensure_contract\<close>: \<open>ensure_absolute\<close> accepts
  the absolute paths and answers \<open>InvalidPath\<close> for the others. \<open>server_stable\<close>: the listings of the
  server do not change while one lookup runs. \<open>file_tree\<close> and
  \<open>complete_listings\<close>: what exists has a parent that exists, and a listing the server accepts shows
  every child. \<open>candid_listings\<close>: a listing that fails as not found keeps the 550 it came from.
  \<open>async_contract\<close>: \<open>tokio\<close>'s copy and read to the end give what those of \<open>std\<close> give on a socket that
  is not interrupted (\<open>calm\<close>), and the TLS connector is built as the blocking one is.
  \<open>slash_contract\<close>: \<open>path_slash\<close> gives text without backslashes. Each has a witness on
  the demonstration server.

  What is not modelled. The TLS libraries, \<open>suppaftp\<close> and \<open>remotefs\<close>, which are parameters, and with
  them the text of a single error; the log; the memory order of the atomics, which are sequentially
  consistent in the source. The Windows build is modelled on its own, its paths and the names it
  accepts in a listing; the rest of the model is the other builds. A command of the library is one step of its thread, since nobody else holds the control stream meanwhile, but a
  stream is read and written step by step. The banner of the asynchronous client has a mutex of its
  own and is one read. \<open>connect\<close>, \<open>disconnect\<close> and \<open>stream\<close> take the client alone, so a pool begins
  after them. Tests, the scripted server of the tests and the documentation in \<open>lib.rs\<close> hold no
  behaviour of the clients.

  The properties of this theory join both clients: what they put on the wire, that they always
  return, that a session recovers, that listed entries can be asked for, and what decides on a
  chain of errors.
\<close>

section \<open>Both clients together\<close>

text \<open>
  C10: A client only puts paths on the wire that passed the check of \<open>remote_path\<close>, so none holds a
  control byte, and a file name cannot end a command and begin another. Every request of either
  client behaves the same with \<open>off_wire F G\<close>, the library that answers for other paths (also inside
  a \<open>LIST\<close>) as any other library \<open>G\<close> would; the paths a request derives itself, the parents it
  lists, are included.
\<close>

theorem only_checked_paths_are_sent:
  "perform (off_wire F G) req = perform F req
   \<and> tokio_perform (off_wire F G) req = tokio_perform F req"
  by (simp add: off_wire_perform off_wire_tokio_perform)


text \<open>
  C37: No request of the asynchronous client panics or waits for itself. In every reachable session,
  whatever the server answers, each operation returns, and so do the finish and the drop of every
  stream that is alive.
\<close>

theorem asynchronous_operations_return:
  assumes "tokio_reachable F (s, live)"
  shows "(\<exists>a t. tokio_perform F req s = Some (a, t))
    \<and> (\<forall>rd. Reading rd \<in> set live \<longrightarrow> tokio_read_stream_finish F rd s \<noteq> None
         \<and> tokio_drop_read_stream F rd s \<noteq> None)
    \<and> (\<forall>wr. Writing wr \<in> set live \<longrightarrow> tokio_write_stream_finish F wr s \<noteq> None
         \<and> tokio_drop_write_stream F wr s \<noteq> None)"
proof -
  note c = tokio_reachable_consistent [OF assms]
  have "\<exists>a t. tokio_perform F req s = Some (a, t)"
    using tokio_perform_advances [OF c, of F req] by (auto simp: advances_def)
  moreover have "tokio_read_stream_finish F rd s \<noteq> None \<and> tokio_drop_read_stream F rd s \<noteq> None"
    if "Reading rd \<in> set live" for rd
  proof -
    from that c have "alive (Reading rd)" unfolding tokio_consistent_def consistent_def by blast
    then obtain inner where i: "rd_inner rd = Some inner" by auto
    obtain r w where "tokio_completion F inner (rd_at_eof rd) (world s) = (r, w)" by force
    from tokio_closing_read [OF i this] tokio_drop_read_run [OF i, of F s] show ?thesis by simp
  qed
  moreover have "tokio_write_stream_finish F wr s \<noteq> None \<and> tokio_drop_write_stream F wr s \<noteq> None"
    if "Writing wr \<in> set live" for wr
  proof -
    from that c have "alive (Writing wr)" unfolding tokio_consistent_def consistent_def by blast
    then obtain inner where i: "wr_inner wr = Some inner" by auto
    obtain r w where "upload_completion F inner (world s) = (r, w)" by force
    from tokio_closing_write [OF i this] tokio_drop_write_run [OF i, of F s] show ?thesis by simp
  qed
  ultimately show ?thesis by blast
qed

theorem asynchronous_operations_return_witness:
  "\<exists>s rd a t. tokio_reachable demo_lib (s, [Reading rd]) \<and> tokio_perform demo_lib (Exists ''/a'') s = Some (a, t)
     \<and> tokio_drop_read_stream demo_lib rd s \<noteq> None"
proof -
  obtain s rd where r: "tokio_reachable demo_lib (s :: (string list, nat) tokio_ftp_fs, [Reading rd])"
    using demo_tokio_session by blast
  from asynchronous_operations_return [OF r, of "Exists ''/a''"] r show ?thesis by fastforce
qed

text \<open>
  C38: No session is stuck. From every reachable state of the blocking client the stream that is
  alive can be closed, and \<open>connect\<close> then returns; after it every operation is admitted, unless the
  server refused the new connection, and then the client is disconnected and can try again.
\<close>

theorem every_session_recovers:
  assumes "reachable F (s, live)"
  shows "\<exists>t r u. (live = [] \<and> t = s \<or> (\<exists>h. live = [h] \<and> session_step F (s, live) (t, [])))
    \<and> \<not> transfer_active t \<and> connect F t = Some (r, u)
    \<and> (refusal u = None \<or> isl r \<and> refusal u = Some (new_error KNotConnected))"
proof -
  have c: "consistent (s, live)" using reachable_consistent [OF assms] .
  obtain t where t: "live = [] \<and> t = s \<or> (\<exists>h. live = [h] \<and> session_step F (s, live) (t, []))"
    and i: "idle t" "\<not> transfer_active t"
  proof (cases live)
    case (Cons h L)
    with c have h: "live = [h]" "alive h" by (auto simp: consistent_def)
    from live_stream_closes [OF h(2), of F s] obtain t where st: "session_step F (s, live) (t, [])"
      unfolding h(1) by (rule exE)
    have "consistent (t, [] :: 'c handle list)" using step_consistent [OF st c] .
    then show ?thesis by (intro that) (use h(1) st in \<open>auto simp: consistent_def\<close>)
  next
    case Nil
    show ?thesis by (rule that [of s]) (use Nil c in \<open>auto simp: consistent_def\<close>)
  qed
  from connect_admits [OF i, of F] obtain r u where "connect F t = Some (r, u)"
    "refusal u = None \<or> isl r \<and> refusal u = Some (new_error KNotConnected)" by (elim exE conjE)
  with t i(2) show ?thesis by (intro exI conjI)
qed

theorem every_session_recovers_witness:
  "\<exists>s rd t r u. reachable demo_lib (s, [Reading rd]) \<and> session_step demo_lib (s, [Reading rd]) (t, [])
     \<and> connect demo_lib t = Some (r, u)
     \<and> (refusal u = None \<or> isl r \<and> refusal u = Some (new_error KNotConnected))"
proof -
  obtain s rd where r: "reachable demo_lib (s :: (string list, nat) ftp_fs, [Reading rd])"
    using demo_session by blast
  from every_session_recovers [OF r] obtain t r' u
    where "[Reading rd] = [] \<and> t = s \<or> (\<exists>h. [Reading rd] = [h] \<and> session_step demo_lib (s, [Reading rd]) (t, []))"
      and c: "connect demo_lib t = Some (r', u)" "refusal u = None \<or> isl r' \<and> refusal u = Some (new_error KNotConnected)"
    by (elim exE conjE)
  then have "session_step demo_lib (s, [Reading rd]) (t, [])" by simp
  with r c show ?thesis by (intro exI conjI)
qed

text \<open>
  C39: What a listing shows can be asked for. A path that can be sent and the entries of its listing
  are accepted by \<open>remote_path\<close>, as they are, and so are the parents the lookup walks through,
  whatever row parser is used; a path is accepted exactly when it is well formed.
\<close>

theorem listed_entries_can_be_requested:
  assumes "ensure_contract ensure" "remote_path ensure path = Inr remote"
    and "parse_list_lines P path lines = Some (Inr fs)" "f \<in> set fs" "utf8_name (f_path f) \<noteq> None"
  shows "remote = path \<and> wire_path path \<and> remote_path ensure (f_path f) = Inr (f_path f)
    \<and> (\<forall>p q. remote_path ensure p = Inr p \<longrightarrow> parent p = Some q
         \<longrightarrow> remote_path ensure q = Inr q \<and> length q < length p)"
proof -
  note r = remote_path_contract(1) [OF assms(1)]
  have p: "wire_path path" "remote = path" using assms(2) r by simp_all
  obtain line where "parse_row P path line = Some (Inr (Some f))"
    using parse_list_entries [OF assms(3,4)] by blast
  then obtain g :: ftp_file where g: "child_name (ff_name g)" "\<forall>c \<in> set (ff_name g). \<not> is_ascii_control c"
    "f_path f = path_join path (ff_name g)" by (rule parse_row_entry) blast
  have "file_name (f_path f) = Some (ff_name g)"
    using path_join_file_name [OF wire_path_absolute [OF p(1)] g(1)] g(3) by simp
  with assms(5) have "valid_utf8 (ff_name g)" by (auto simp: utf8_name_def split: if_splits)
  from wire_path_join [OF p(1) g(1) this g(2)] g(3) have "wire_path (f_path f)" by simp
  with p r show ?thesis using wire_path_parent parent_shorter by blast
qed

theorem listed_entries_can_be_requested_witness:
  "remote_path (lib_ensure demo_lib) ''/dir/a.txt'' = Inr ''/dir/a.txt''"
proof -
  define f where "f = \<lparr> f_path = ''/dir/a.txt'', f_metadata = entry_metadata ''/dir'' (demo_entry ''a.txt'') \<rparr>"
  have "remote_path (lib_ensure demo_lib) ''/dir'' = Inr ''/dir''" by code_simp
  moreover have "f \<in> set [f]" by simp
  moreover have "utf8_name (f_path f) \<noteq> None" unfolding f_def by code_simp
  ultimately have "remote_path (lib_ensure demo_lib) (f_path f) = Inr (f_path f)"
    using listed_entries_can_be_requested [OF demo_contract _ demo_parse [folded f_def]] by blast
  then show ?thesis by (simp add: f_def)
qed

text \<open>
  C40: The error that reaches the caller is judged by the FTP errors on its chain, the first one for
  the reconnect rule, the first reply for an ambiguous refusal. Closing a transfer, in either
  client, succeeds when both steps did; when both failed the error has the kind of one of them and
  keeps the completion failure below it, so both rules read that failure.
\<close>

theorem error_chains_decide:
  assumes "combine \<in> {finish_read_result, finish_write_result, tokio_finish_read_result, tokio_finish_write_result}"
  shows "remote_error_requires_reconnect err =
      (case ftp_errors err of [] \<Rightarrow> kind err = KConnectionError | f # _ \<Rightarrow> transfer_setup_requires_reconnect f)
    \<and> is_ambiguous_path_refusal err =
      (case filter is_reply (ftp_errors err) of [] \<Rightarrow> False | f # _ \<Rightarrow> is_file_unavailable f)
    \<and> (combine a b = Inr () \<longleftrightarrow> a = Inr () \<and> b = Inr ())
    \<and> (\<exists>c. combine (Inl e) (Inl d) = Inl c \<and> (kind c = kind e \<or> kind c = kind d) \<and> ftp_errors c = ftp_errors d)"
proof -
  consider "combine = finish_read_result" | "combine = finish_write_result" using assms by (auto simp: shared_code)
  then have "(combine a b = Inr () \<longleftrightarrow> a = Inr () \<and> b = Inr ())
    \<and> (\<exists>c. combine (Inl e) (Inl d) = Inl c \<and> (kind c = kind e \<or> kind c = kind d) \<and> ftp_errors c = ftp_errors d)"
  proof cases
    case 1
    from finish_read.combine_both [of e d] finish_read.combine_finish_errors [of "Inl e" d]
    show ?thesis unfolding 1 finish_read.combine_Inr_iff by fastforce
  next
    case 2
    from finish_write.combine_both [of e d] finish_write.combine_finish_errors [of "Inl e" d]
    show ?thesis unfolding 2 finish_write.combine_Inr_iff by fastforce
  qed
  then show ?thesis using requires_reconnect_first [of err] ambiguous_first [of err] by blast
qed

theorem error_chains_decide_witness:
  "\<exists>c. tokio_finish_read_result (Inl (new_error KBadFile)) (Inl (ftp_error BadResponse)) = Inl c
     \<and> ftp_errors c = ftp_errors (ftp_error BadResponse)"
  using error_chains_decide [of tokio_finish_read_result undefined "Inr ()" "Inr ()" "new_error KBadFile" "ftp_error BadResponse"]
  by blast

end
